theory Spec2Isabelle
  imports Main
begin

section \<open>JavaScript values\<close>

text \<open>
  The loop of \<^verbatim>\<open>src/models/action.ts\<close> moves untyped values around (tool inputs, tool
  results, the finish payload). They are modelled as JSON trees with \<open>undefined\<close> added.
  An object is an association list in insertion order; a property read finds the first
  entry of a key (JavaScript objects hold each key once). Numbers are integers.
\<close>

datatype json =
    JUndefined
  | JNull
  | JBool bool
  | JNum int
  | JStr string
  | JArr "json list"
  | JObj "(string \<times> json) list"

text \<open>A thrown value: an \<open>Error\<close> instance with its message, or any other value.\<close>

datatype exn = Error string | Thrown json

text \<open>JavaScript truthiness, as \<^verbatim>\<open>if (x)\<close>, \<^verbatim>\<open>x && y\<close> and \<^verbatim>\<open>x ? a : b\<close> test it.\<close>

fun truthy :: "json \<Rightarrow> bool" where
  "truthy JUndefined = False"
| "truthy JNull = False"
| "truthy (JBool b) = b"
| "truthy (JNum n) = (n \<noteq> 0)"
| "truthy (JStr s) = (s \<noteq> [])"
| "truthy (JArr xs) = True"
| "truthy (JObj kvs) = True"

definition TypeError_read :: "string \<Rightarrow> string \<Rightarrow> exn" where
  "TypeError_read what k =
     Error (''Cannot read properties of '' @ what @ '' (reading '' @ [CHR 0x27] @ k @ [CHR 0x27] @ '')'')"

text \<open>
  The property read \<^verbatim>\<open>x.k\<close>: a TypeError on \<open>undefined\<close> and \<open>null\<close>, the member of an
  object, \<open>undefined\<close> where the object has none. The built-in properties of strings and
  arrays (\<open>length\<close>) are not modelled: the source reads only the names \<open>isSuccessful\<close>,
  \<open>use_tool_result\<close>, \<open>value\<close>, \<open>image\<close>, \<open>text\<close>, \<open>observation\<close>, \<open>thinking\<close>,
  \<open>userSidePrompt\<close> and \<open>toolCall\<close> from these values.
\<close>

fun prop_read :: "json \<Rightarrow> string \<Rightarrow> exn + json" where
  "prop_read JUndefined k = Inl (TypeError_read ''undefined'' k)"
| "prop_read JNull k = Inl (TypeError_read ''null'' k)"
| "prop_read (JObj kvs) k = Inr (case map_of kvs k of None \<Rightarrow> JUndefined | Some v \<Rightarrow> v)"
| "prop_read (JBool b) k = Inr JUndefined"
| "prop_read (JNum n) k = Inr JUndefined"
| "prop_read (JStr s) k = Inr JUndefined"
| "prop_read (JArr xs) k = Inr JUndefined"

section \<open>The execution context\<close>

text \<open>
  \<open>ExecutionContext\<close>: the variable store (a \<open>Map\<close> whose order is never read), the flags
  \<open>__skip\<close> and \<open>__abort\<close>, the aborted flag of the optional cancellation signal
  (\<open>None\<close>: the context has no signal), and \<open>world\<close>: everything outside the loop that
  tools, hooks and the model transport read and change. The tools and the hooks of the
  context take the context as an argument and are passed beside it. Every awaited call
  (the transport, a hook, a tool) returns the context as it left it: the listener that
  \<open>executeSingleRound\<close> adds to the signal, which sets \<open>__abort\<close> when the signal fires,
  runs during such a call, and its write is part of what the call does to the context.
\<close>

record 'w exec_context =
  variables :: "string \<rightharpoonup> json"
  ctx_skip :: bool
  ctx_abort :: bool
  ctx_signal :: "bool option"
  world :: 'w

text \<open>\<^verbatim>\<open>context.signal?.aborted\<close>\<close>

definition signal_aborted :: "'w exec_context \<Rightarrow> bool" where
  "signal_aborted ctx = (case ctx_signal ctx of None \<Rightarrow> False | Some b \<Rightarrow> b)"

text \<open>\<open>Map.get\<close> of the variable store: \<open>undefined\<close> for a missing key.\<close>

definition variables_get :: "'w exec_context \<Rightarrow> string \<Rightarrow> json" where
  "variables_get ctx k = (case variables ctx k of None \<Rightarrow> JUndefined | Some v \<Rightarrow> v)"

definition variables_set :: "string \<Rightarrow> json \<Rightarrow> 'w exec_context \<Rightarrow> 'w exec_context" where
  "variables_set k v ctx = ctx\<lparr>variables := (variables ctx)(k \<mapsto> v)\<rparr>"

definition variables_delete :: "string \<Rightarrow> 'w exec_context \<Rightarrow> 'w exec_context" where
  "variables_delete k ctx = ctx\<lparr>variables := (variables ctx)(k := None)\<rparr>"

section \<open>Tools and the finish tool\<close>

text \<open>
  A \<open>Tool\<close>: \<open>execute\<close> is asynchronous and may throw; it returns its result or the thrown
  value (\<open>Inl\<close>), and the context as it left it.
\<close>

record 'w tool =
  tool_name :: string
  tool_description :: string
  tool_input_schema :: json
  tool_execute :: "'w exec_context \<Rightarrow> json \<Rightarrow> (exn + json) \<times> 'w exec_context"

text \<open>The key \<^verbatim>\<open>`__action_${actionName}_output`\<close>.\<close>

definition output_key :: "string \<Rightarrow> string" where
  "output_key actionName = ''__action_'' @ actionName @ ''_output''"

text \<open>
  \<open>execute\<close> of the tool that \<open>createReturnTool\<close> builds: two writes to the variable store,
  the second after reading \<open>params.isSuccessful\<close> (which throws on \<open>undefined\<close> and \<open>null\<close>,
  after the first write).
\<close>

definition return_execute :: "string \<Rightarrow> 'w exec_context \<Rightarrow> json \<Rightarrow> (exn + json) \<times> 'w exec_context" where
  "return_execute actionName ctx params =
     (let ctx1 = variables_set (output_key actionName) params ctx in
      case prop_read params ''isSuccessful'' of
        Inl e \<Rightarrow> (Inl e, ctx1)
      | Inr b \<Rightarrow> (Inr (JObj [(''success'', JBool True)]), variables_set ''__isSuccessful__'' b ctx1))"

text \<open>The description texts of the finish tool's input schema.\<close>

definition isSuccessful_description :: string where
  "isSuccessful_description = ''`true` if the workflow ultimately executes successfully, and `false` when the workflow ultimately fails, regardless of whether there are errors during the workflow.''"

definition use_tool_result_description :: string where
  "use_tool_result_description = ''Whether to use the latest tool result as output. When set to true, the '' @ [CHR 0x27] @ ''value'' @ [CHR 0x27] @ '' parameter is ignored.''"

definition value_description :: string where
  "value_description = ''The output value. Only provide a value if the previous tool result is not suitable for the output description. Otherwise, leave this as null.''"

text \<open>The input schema of the finish tool; \<open>outputSchema || default\<close>.\<close>

definition return_input_schema :: "json \<Rightarrow> json" where
  "return_input_schema outputSchema =
     JObj [(''type'', JStr ''object''),
           (''properties'', JObj [
              (''isSuccessful'', JObj [(''type'', JStr ''boolean''),
                 (''description'', JStr isSuccessful_description)]),
              (''use_tool_result'', JObj [(''type'', JArr [JStr ''boolean'']),
                 (''description'', JStr use_tool_result_description)]),
              (''value'', if truthy outputSchema then outputSchema else
                 JObj [(''type'', JArr [JStr ''string'', JStr ''number'', JStr ''boolean'', JStr ''object'', JStr ''null'']),
                       (''description'', JStr value_description)])]),
           (''required'', JArr [JStr ''isSuccessful'', JStr ''use_tool_result'', JStr ''value''])]"

text \<open>
  \<open>createReturnTool\<close>. The description is a template around \<open>outputDescription\<close>; its text
  plays no part in the loop and is passed as \<open>returnDescription\<close>.
\<close>

definition createReturnTool :: "string \<Rightarrow> string \<Rightarrow> json \<Rightarrow> 'w tool" where
  "createReturnTool actionName returnDescription outputSchema =
     \<lparr>tool_name = ''return_output'',
      tool_description = returnDescription,
      tool_input_schema = return_input_schema outputSchema,
      tool_execute = return_execute actionName\<rparr>"

section \<open>The envelope around a tool input\<close>

text \<open>A \<open>ToolCall\<close> of the model, and a \<open>ToolDefinition\<close> as it is advertised to the model.\<close>

record tool_call =
  tc_id :: string
  tc_name :: string
  tc_input :: json

record tool_definition =
  td_name :: string
  td_description :: string
  td_input_schema :: json

text \<open>The description texts of the envelope's fields.\<close>

definition observation_description :: string where
  "observation_description = ''Your observation of the previous steps. Should start with '' @ [CHR 0x22] @ ''In the previous step, I'' @ [CHR 0x27] @ ''ve ...'' @ [CHR 0x22] @ ''.''"

definition thinking_description :: string where
  "thinking_description = ''Your thinking draft.''"

definition userSidePrompt_description :: string where
  "userSidePrompt_description = ''The user-side prompt, showing what you are doing. e.g. '' @ [CHR 0x22] @ ''Openning x.com.'' @ [CHR 0x22] @ '' or '' @ [CHR 0x22] @ ''Writing the post.'' @ [CHR 0x22]"

text \<open>The schema that \<open>wrapToolInputSchema\<close> puts around the input schema of a definition.\<close>

definition envelope_schema :: "json \<Rightarrow> json" where
  "envelope_schema input_schema =
     JObj [(''type'', JStr ''object''),
           (''properties'', JObj [
              (''observation'', JObj [(''type'', JStr ''string''), (''description'', JStr observation_description)]),
              (''thinking'', JObj [(''type'', JStr ''string''), (''description'', JStr thinking_description)]),
              (''userSidePrompt'', JObj [(''type'', JStr ''string''), (''description'', JStr userSidePrompt_description)]),
              (''toolCall'', input_schema)]),
           (''required'', JArr [JStr ''observation'', JStr ''thinking'', JStr ''userSidePrompt'', JStr ''toolCall''])]"

text \<open>
  \<open>wrapToolInputSchema\<close>, as a function of the definition's fields. The source assigns the
  field \<open>input_schema\<close> of the object it is given; the assignment in the store is
  \<open>wrapToolInputSchema_at\<close> below.
\<close>

definition wrapToolInputSchema :: "tool_definition \<Rightarrow> tool_definition" where
  "wrapToolInputSchema definition = definition\<lparr>td_input_schema := envelope_schema (td_input_schema definition)\<rparr>"

text \<open>The result of \<open>unwrapToolCall\<close>.\<close>

record unwrapped =
  observation :: json
  thinking :: json
  userSidePrompt :: json
  toolCall :: tool_call

text \<open>
  \<open>unwrapToolCall\<close>: four property reads of \<open>toolCall.input\<close>, each a TypeError when the
  input is \<open>undefined\<close> or \<open>null\<close>.
\<close>

definition unwrapToolCall :: "tool_call \<Rightarrow> exn + unwrapped" where
  "unwrapToolCall tc =
     (case prop_read (tc_input tc) ''observation'' of Inl e \<Rightarrow> Inl e | Inr ob \<Rightarrow>
     (case prop_read (tc_input tc) ''thinking'' of Inl e \<Rightarrow> Inl e | Inr th \<Rightarrow>
     (case prop_read (tc_input tc) ''userSidePrompt'' of Inl e \<Rightarrow> Inl e | Inr cap \<Rightarrow>
     (case prop_read (tc_input tc) ''toolCall'' of Inl e \<Rightarrow> Inl e | Inr inner \<Rightarrow>
        Inr \<lparr>observation = ob, thinking = th, userSidePrompt = cap,
             toolCall = \<lparr>tc_id = tc_id tc, tc_name = tc_name tc, tc_input = inner\<rparr>\<rparr>))))"

section \<open>Messages and image pruning\<close>

datatype role = System | Assistant | User

text \<open>
  A content block, by its \<open>type\<close>: \<open>text\<close> (the text is whatever value the source puts
  there), \<open>image\<close> (its source), \<open>tool_use\<close> (id, name, input) and \<open>tool_result\<close>
  (tool_use_id, content, is_error; an absent \<open>is_error\<close> is \<open>False\<close>). The content of a
  \<open>tool_result\<close> is a string or an array of blocks.
\<close>

datatype block =
    TextBlock json
  | ImageBlock json
  | ToolUseBlock string string json
  | ToolResultBlock string tr_content bool
and tr_content =
    ResultString string
  | ResultBlocks "block list"

datatype content = Text string | Blocks "block list"

record message =
  role :: role
  content :: content

text \<open>\<^verbatim>\<open>c.type === 'image'\<close>\<close>

fun is_image :: "block \<Rightarrow> bool" where
  "is_image (ImageBlock src) = True"
| "is_image (TextBlock t) = False"
| "is_image (ToolUseBlock i n inp) = False"
| "is_image (ToolResultBlock i c e) = False"

text \<open>
  The callback of \<^verbatim>\<open>message.content.map\<close> in \<open>handleHistoryImageMessages\<close>: a
  \<open>tool_result\<close> whose content is a non-empty array loses its image blocks, and gets the
  single text block \<open>ok\<close> when none is left.
\<close>

fun strip_item :: "block \<Rightarrow> block" where
  "strip_item (ToolResultBlock i (ResultBlocks cs) e) =
     (if length cs > 0
      then (let kept = filter (\<lambda>c. \<not> is_image c) cs
            in ToolResultBlock i (ResultBlocks (if length kept = 0 then [TextBlock (JStr ''ok'')] else kept)) e)
      else ToolResultBlock i (ResultBlocks cs) e)"
| "strip_item (ToolResultBlock i (ResultString s) e) = ToolResultBlock i (ResultString s) e"
| "strip_item (TextBlock t) = TextBlock t"
| "strip_item (ImageBlock src) = ImageBlock src"
| "strip_item (ToolUseBlock i n inp) = ToolUseBlock i n inp"

text \<open>\<^verbatim>\<open>if (Array.isArray(message.content)) message.content = message.content.map(...)\<close>\<close>

definition strip_message :: "message \<Rightarrow> message" where
  "strip_message m =
     (case content m of
        Blocks items \<Rightarrow> m\<lparr>content := Blocks (map strip_item items)\<rparr>
      | Text s \<Rightarrow> m)"

text \<open>
  The loop \<^verbatim>\<open>for (let i = messages.length - 1; i >= 0; i--)\<close>: \<open>history_loop n found ms\<close>
  has the indices below \<open>n\<close> left to visit, and visits \<open>n - 1\<close> next. The first user message
  met sets \<open>foundFirstUser\<close> and is skipped; every later one is rewritten in place.
\<close>

fun history_loop :: "nat \<Rightarrow> bool \<Rightarrow> message list \<Rightarrow> message list" where
  "history_loop 0 foundFirstUser ms = ms"
| "history_loop (Suc i) foundFirstUser ms =
     (if role (ms ! i) = User
      then (if \<not> foundFirstUser then history_loop i True ms
            else history_loop i True (ms[i := strip_message (ms ! i)]))
      else history_loop i foundFirstUser ms)"

text \<open>
  \<open>handleHistoryImageMessages\<close>. The two calls of \<open>countImages\<close> only feed a debug log
  line and are left out.
\<close>

definition handleHistoryImageMessages :: "message list \<Rightarrow> message list" where
  "handleHistoryImageMessages ms = history_loop (length ms) False ms"

section \<open>Serialisation\<close>

text \<open>
  \<open>JSON.stringify\<close> on the values above: \<open>None\<close> is the result \<open>undefined\<close>. An array
  writes \<open>null\<close> for an \<open>undefined\<close> element, an object leaves out a member whose value is
  \<open>undefined\<close>. Strings are quoted with the escapes of ECMAScript's \<open>QuoteJSONString\<close>;
  a character is one code unit below 256.
\<close>

fun digits :: "nat \<Rightarrow> string" where
  "digits n = (if n < 10 then [''0123456789'' ! n] else digits (n div 10) @ [''0123456789'' ! (n mod 10)])"

definition show_int :: "int \<Rightarrow> string" where
  "show_int n = (if n < 0 then ''-'' @ digits (nat (- n)) else digits (nat n))"

definition hex_digit :: "nat \<Rightarrow> char" where
  "hex_digit n = ''0123456789abcdef'' ! (n mod 16)"

definition escape_char :: "char \<Rightarrow> string" where
  "escape_char c =
     (if c = CHR 0x22 then [CHR 0x5C, CHR 0x22]
      else if c = CHR 0x5C then [CHR 0x5C, CHR 0x5C]
      else if c = CHR 0x08 then [CHR 0x5C, CHR ''b'']
      else if c = CHR 0x0C then [CHR 0x5C, CHR ''f'']
      else if c = CHR 0x0A then [CHR 0x5C, CHR ''n'']
      else if c = CHR 0x0D then [CHR 0x5C, CHR ''r'']
      else if c = CHR 0x09 then [CHR 0x5C, CHR ''t'']
      else if (of_char c :: nat) < 32
        then [CHR 0x5C, CHR ''u'', CHR ''0'', CHR ''0'', hex_digit (of_char c div 16), hex_digit (of_char c mod 16)]
      else [c])"

definition quote :: "string \<Rightarrow> string" where
  "quote s = [CHR 0x22] @ concat (map escape_char s) @ [CHR 0x22]"

fun join_comma :: "string list \<Rightarrow> string" where
  "join_comma [] = []"
| "join_comma [s] = s"
| "join_comma (s # t # ss) = s @ '','' @ join_comma (t # ss)"

fun JSON_stringify :: "json \<Rightarrow> string option"
  and stringify_elements :: "json list \<Rightarrow> string list"
  and stringify_members :: "(string \<times> json) list \<Rightarrow> string list" where
  "JSON_stringify JUndefined = None"
| "JSON_stringify JNull = Some ''null''"
| "JSON_stringify (JBool b) = Some (if b then ''true'' else ''false'')"
| "JSON_stringify (JNum n) = Some (show_int n)"
| "JSON_stringify (JStr s) = Some (quote s)"
| "JSON_stringify (JArr xs) = Some (''['' @ join_comma (stringify_elements xs) @ '']'')"
| "JSON_stringify (JObj kvs) = Some (''{'' @ join_comma (stringify_members kvs) @ ''}'')"
| "stringify_elements [] = []"
| "stringify_elements (x # xs) =
     (case JSON_stringify x of None \<Rightarrow> ''null'' | Some s \<Rightarrow> s) # stringify_elements xs"
| "stringify_members [] = []"
| "stringify_members ((k, v) # kvs) =
     (case JSON_stringify v of
        None \<Rightarrow> stringify_members kvs
      | Some s \<Rightarrow> (quote k @ '':'' @ s) # stringify_members kvs)"

text \<open>\<open>JSON.stringify(x)\<close> as a value: a string or \<open>undefined\<close>.\<close>

definition stringify_value :: "json \<Rightarrow> json" where
  "stringify_value x = (case JSON_stringify x of None \<Rightarrow> JUndefined | Some s \<Rightarrow> JStr s)"

text \<open>The conversion to a string that \<^verbatim>\<open>x + ' [Image]'\<close> applies to \<open>x\<close>.\<close>

fun to_text :: "json \<Rightarrow> string" where
  "to_text JUndefined = ''undefined''"
| "to_text JNull = ''null''"
| "to_text (JBool b) = (if b then ''true'' else ''false'')"
| "to_text (JNum n) = show_int n"
| "to_text (JStr s) = s"
| "to_text (JArr xs) = join_comma (map (\<lambda>x. if x = JUndefined \<or> x = JNull then [] else to_text x) xs)"
| "to_text (JObj kvs) = ''[object Object]''"

text \<open>
  A property read that cannot throw: the source guards it by truthiness
  (\<^verbatim>\<open>result && result.image\<close>) or reads it from a value known to be truthy.
\<close>

definition prop_of :: "json \<Rightarrow> string \<Rightarrow> json" where
  "prop_of x k = (case prop_read x k of Inl e \<Rightarrow> JUndefined | Inr v \<Rightarrow> v)"

text \<open>
  The local function \<open>truncate\<close> of \<open>executeSingleRound\<close> (the name \<open>truncate\<close> is taken
  by the record package): \<open>s.length\<close> throws a TypeError when \<open>JSON.stringify\<close> returned
  \<open>undefined\<close>. Its value goes to the logger only.
\<close>

definition truncate_value :: "json \<Rightarrow> exn + json" where
  "truncate_value x =
     (case JSON_stringify x of
        None \<Rightarrow> Inl (TypeError_read ''undefined'' ''length'')
      | Some s \<Rightarrow> if length s < 1000 then Inr x else Inr (JStr (take 1000 s @ ''...(truncated)'')))"

section \<open>Insertion-ordered maps\<close>

text \<open>
  A JavaScript \<open>Map\<close> as the list of its entries in insertion order. \<open>set\<close> on a key the map
  holds replaces the value where the entry stands; a new key goes to the end.
\<close>

fun Map_set :: "('k \<times> 'v) list \<Rightarrow> 'k \<Rightarrow> 'v \<Rightarrow> ('k \<times> 'v) list" where
  "Map_set [] k v = [(k, v)]"
| "Map_set ((k', v') # kvs) k v = (if k' = k then (k, v) # kvs else (k', v') # Map_set kvs k v)"

text \<open>\<^verbatim>\<open>Array.from(m.values()).pop()\<close>: the last value, \<open>undefined\<close> for an empty map.\<close>

definition last_value :: "(string \<times> json) list \<Rightarrow> json" where
  "last_value m = (case m of [] \<Rightarrow> JUndefined | e # es \<Rightarrow> snd (last m))"

section \<open>One round: the execution of the invoked tool\<close>

text \<open>
  The lifecycle hooks of \<open>context.callback.hooks\<close>, each optional. A hook may throw and may
  change the context; \<open>beforeToolUse\<close> and \<open>afterToolUse\<close> return a replacement for the
  input and for the result (used when truthy).
\<close>

record 'w hooks =
  beforeToolUse :: "('w tool \<Rightarrow> 'w exec_context \<Rightarrow> json \<Rightarrow> (exn + json) \<times> 'w exec_context) option"
  afterToolUse :: "('w tool \<Rightarrow> 'w exec_context \<Rightarrow> json \<Rightarrow> (exn + json) \<times> 'w exec_context) option"
  onLlmMessage :: "(json \<Rightarrow> 'w exec_context \<Rightarrow> exn option \<times> 'w exec_context) option"
  onLlmMessageUserSidePrompt :: "(json \<Rightarrow> string \<Rightarrow> 'w exec_context \<Rightarrow> exn option \<times> 'w exec_context) option"

text \<open>
  What a round reads and writes besides its arguments: the caller's message array (pruned in
  place), the context, and \<open>this.toolResults\<close>. \<open>rs_recorded\<close> is an observation added to
  the model and read by no definition: the entries written to \<open>toolResults\<close>, in the order
  of the writes.
\<close>

record 'w round_state =
  rs_messages :: "message list"
  rs_context :: "'w exec_context"
  rs_toolResults :: "(string \<times> json) list"
  rs_recorded :: "(string \<times> json) list"

text \<open>The \<open>beforeToolUse\<close> step: a truthy return value replaces \<open>toolCall.input\<close>.\<close>

definition run_beforeToolUse ::
  "'w hooks option \<Rightarrow> 'w tool \<Rightarrow> tool_call \<Rightarrow> 'w exec_context \<Rightarrow> (exn + tool_call) \<times> 'w exec_context" where
  "run_beforeToolUse callback tool tc ctx =
     (case callback of
        None \<Rightarrow> (Inr tc, ctx)
      | Some h \<Rightarrow>
          (case beforeToolUse h of
             None \<Rightarrow> (Inr tc, ctx)
           | Some hook \<Rightarrow>
               (case hook tool ctx (tc_input tc) of
                  (Inl e, ctx') \<Rightarrow> (Inl e, ctx')
                | (Inr modified_input, ctx') \<Rightarrow>
                    (Inr (if truthy modified_input then tc\<lparr>tc_input := modified_input\<rparr> else tc), ctx'))))"

text \<open>The \<open>afterToolUse\<close> step: a truthy return value replaces the result.\<close>

definition run_afterToolUse ::
  "'w hooks option \<Rightarrow> 'w tool \<Rightarrow> json \<Rightarrow> 'w exec_context \<Rightarrow> (exn + json) \<times> 'w exec_context" where
  "run_afterToolUse callback tool result ctx =
     (case callback of
        None \<Rightarrow> (Inr result, ctx)
      | Some h \<Rightarrow>
          (case afterToolUse h of
             None \<Rightarrow> (Inr result, ctx)
           | Some hook \<Rightarrow>
               (case hook tool ctx result of
                  (Inl e, ctx') \<Rightarrow> (Inl e, ctx')
                | (Inr modified_result, ctx') \<Rightarrow>
                    (Inr (if truthy modified_result then modified_result else result), ctx'))))"

text \<open>
  The two notifications after unwrapping: \<open>onLlmMessage\<close> with the thinking text and
  \<open>onLlmMessageUserSidePrompt\<close> with the caption and the tool name, each only when the
  value is truthy and the hook exists.
\<close>

definition notify_thinking :: "'w hooks option \<Rightarrow> unwrapped \<Rightarrow> 'w exec_context \<Rightarrow> exn option \<times> 'w exec_context" where
  "notify_thinking callback u ctx =
     (if truthy (thinking u)
      then (case callback of
              None \<Rightarrow> (None, ctx)
            | Some h \<Rightarrow> (case onLlmMessage h of None \<Rightarrow> (None, ctx) | Some hook \<Rightarrow> hook (thinking u) ctx))
      else (None, ctx))"

definition notify_userSidePrompt ::
  "'w hooks option \<Rightarrow> unwrapped \<Rightarrow> string \<Rightarrow> 'w exec_context \<Rightarrow> exn option \<times> 'w exec_context" where
  "notify_userSidePrompt callback u nm ctx =
     (if truthy (userSidePrompt u)
      then (case callback of
              None \<Rightarrow> (None, ctx)
            | Some h \<Rightarrow>
                (case onLlmMessageUserSidePrompt h of
                   None \<Rightarrow> (None, ctx)
                 | Some hook \<Rightarrow> hook (userSidePrompt u) nm ctx))
      else (None, ctx))"

text \<open>The \<open>tool_result\<close> message \<open>skip\<close>.\<close>

definition skip_message :: "tool_call \<Rightarrow> message" where
  "skip_message tc = \<lparr>role = User, content = Blocks [ToolResultBlock (tc_id tc) (ResultString ''skip'') False]\<rparr>"

text \<open>\<^verbatim>\<open>const result_has_image: boolean = result && result.image\<close>, as it is tested.\<close>

definition result_has_image :: "json \<Rightarrow> bool" where
  "result_has_image result = (truthy result \<and> truthy (prop_of result ''image''))"

text \<open>\<open>resultMessage\<close>: an image block (with the text, when the result has one) or the serialised result.\<close>

definition resultMessage :: "tool_call \<Rightarrow> json \<Rightarrow> message" where
  "resultMessage tc result =
     \<lparr>role = User,
      content = Blocks [ToolResultBlock (tc_id tc)
        (ResultBlocks
          (if result_has_image result
           then (if truthy (prop_of result ''text'')
                 then [ImageBlock (prop_of result ''image''), TextBlock (prop_of result ''text'')]
                 else [ImageBlock (prop_of result ''image'')])
           else [TextBlock (stringify_value result)]))
        False]\<rparr>"

text \<open>\<open>resultContentText\<close>, the value written to \<open>toolResults\<close>.\<close>

definition resultContentText :: "json \<Rightarrow> json" where
  "resultContentText result =
     (if result_has_image result
      then (if truthy (prop_of result ''text'')
            then JStr (to_text (prop_of result ''text'') @ '' [Image]'')
            else JStr ''[Image]'')
      else stringify_value result)"

text \<open>\<^verbatim>\<open>err instanceof Error ? err.message : 'Unknown error occurred'\<close> and \<open>errorResult\<close>.\<close>

definition errorMessage :: "exn \<Rightarrow> string" where
  "errorMessage err = (case err of Error m \<Rightarrow> m | Thrown v \<Rightarrow> ''Unknown error occurred'')"

definition errorResult :: "tool_call \<Rightarrow> exn \<Rightarrow> message" where
  "errorResult tc err =
     \<lparr>role = User,
      content = Blocks [ToolResultBlock (tc_id tc)
        (ResultBlocks [TextBlock (JStr (''Error: '' @ errorMessage err))]) True]\<rparr>"

text \<open>
  The body of the \<open>try\<close> block of the tool execution: \<open>Inl\<close> is a throw (caught below),
  \<open>Inr\<close> the \<open>toolResultMessage\<close> it leaves. What was written to the context before a
  throw stays written.
\<close>

definition tool_try ::
  "'w hooks option \<Rightarrow> 'w tool \<Rightarrow> tool_call \<Rightarrow> 'w round_state \<Rightarrow> (exn + message) \<times> 'w round_state" where
  "tool_try callback tool call0 st =
     (case run_beforeToolUse callback tool call0 ((rs_context st)\<lparr>ctx_skip := False\<rparr>) of
        (Inl e, ctx1) \<Rightarrow> (Inl e, st\<lparr>rs_context := ctx1\<rparr>)
      | (Inr call, ctx1) \<Rightarrow>
          if ctx_skip ctx1 \<or> ctx_abort ctx1 \<or> signal_aborted ctx1
          then (Inr (skip_message call), st\<lparr>rs_context := ctx1\<rparr>)
          else
           (case unwrapToolCall call of
              Inl e \<Rightarrow> (Inl e, st\<lparr>rs_context := ctx1\<rparr>)
            | Inr u \<Rightarrow>
               (case notify_thinking callback u ctx1 of
                  (Some e, ctx2) \<Rightarrow> (Inl e, st\<lparr>rs_context := ctx2\<rparr>)
                | (None, ctx2) \<Rightarrow>
                   (case notify_userSidePrompt callback u (tc_name call) ctx2 of
                      (Some e, ctx3) \<Rightarrow> (Inl e, st\<lparr>rs_context := ctx3\<rparr>)
                    | (None, ctx3) \<Rightarrow>
                       (case tool_execute tool ctx3 (tc_input (toolCall u)) of
                          (Inl e, ctx4) \<Rightarrow> (Inl e, st\<lparr>rs_context := ctx4\<rparr>)
                        | (Inr result0, ctx4) \<Rightarrow>
                           (case run_afterToolUse callback tool result0 ctx4 of
                              (Inl e, ctx5) \<Rightarrow> (Inl e, st\<lparr>rs_context := ctx5\<rparr>)
                            | (Inr result, ctx5) \<Rightarrow>
                               (case truncate_value result of
                                  Inl e \<Rightarrow> (Inl e, st\<lparr>rs_context := ctx5\<rparr>)
                                | Inr logged \<Rightarrow>
                                   (Inr (resultMessage call result),
                                    if tool_name tool \<noteq> ''return_output''
                                    then st\<lparr>rs_context := ctx5,
                                            rs_toolResults := Map_set (rs_toolResults st) (tc_id call) (resultContentText result),
                                            rs_recorded := rs_recorded st @ [(tc_id call, resultContentText result)]\<rparr>
                                    else st\<lparr>rs_context := ctx5\<rparr>))))))))"

text \<open>The tool execution with its \<open>catch\<close>: it never throws, and leaves \<open>toolResultMessage\<close>.\<close>

definition tool_execution ::
  "'w hooks option \<Rightarrow> 'w tool \<Rightarrow> tool_call \<Rightarrow> 'w round_state \<Rightarrow> message \<times> 'w round_state" where
  "tool_execution callback tool call st =
     (case tool_try callback tool call st of
        (Inl err, st') \<Rightarrow> (errorResult call err, st')
      | (Inr toolResultMessage, st') \<Rightarrow> (toolResultMessage, st'))"

section \<open>One round: the model transport and the retry loop\<close>

text \<open>
  \<open>LLMResponse\<close> (the fields the loop reads) and \<open>LLMParameters\<close> as the transport sees
  them: the configuration members and the optional list of tool definitions.
\<close>

record llm_response =
  textContent :: string
  toolCalls :: "tool_call list"

record llm_parameters =
  lp_config :: "(string \<times> json) list"
  lp_tools :: "tool_definition list option"

text \<open>
  What one call of \<open>generateStream\<close> delivers to the handler. \<open>Failed\<close>: the call rejects
  (a transport error, or \<open>onError\<close>, which rethrows) before it announced an invocation or
  called \<open>onComplete\<close>.
  \<open>Streamed chunks call response\<close>: the call resolves after \<open>onContent\<close> for each chunk, at
  most one \<open>onToolUse\<close>, and \<open>onComplete\<close> when \<open>response\<close> is not \<open>None\<close>.
\<close>

datatype attempt = Failed | Streamed "string list" "tool_call option" "llm_response option"

text \<open>
  Modelled from the spec: \<open>LLMProvider\<close>, the model transport, whose implementations are
  not in \<^verbatim>\<open>src/\<close> (section 6: \<open>generateStream(history, params, handler)\<close> suspends until
  the stream ends or errors; \<open>onToolUse\<close> may throw). The transport reads and changes the
  world. \<open>onToolUse\<close> is an \<open>async\<close> function, so what it throws rejects the promise it
  returns; \<open>propagates_rejection\<close> says whether the transport lets that rejection reject
  \<open>generateStream\<close> (it awaits the handler) or drops it (it calls the handler and goes on).
\<close>

record 'w provider =
  generateStream :: "'w exec_context \<Rightarrow> message list \<Rightarrow> llm_parameters \<Rightarrow> attempt \<times> 'w exec_context"
  propagates_rejection :: bool

record round_result =
  response :: "llm_response option"
  hasToolUse :: bool
  roundMessages :: "message list"

text \<open>White space as \<open>String.prototype.trim\<close> removes it, among the code units below 256.\<close>

definition js_whitespace :: "char \<Rightarrow> bool" where
  "js_whitespace c = (c \<in> set [CHR 0x09, CHR 0x0A, CHR 0x0B, CHR 0x0C, CHR 0x0D, CHR 0x20, CHR 0xA0])"

text \<open>\<open>onContent\<close> over the chunks: \<^verbatim>\<open>if (content && content.trim()) assistantTextMessage += content\<close>.\<close>

definition assistantTextMessage :: "string list \<Rightarrow> string" where
  "assistantTextMessage chunks = concat (filter (\<lambda>c. \<not> list_all js_whitespace c) chunks)"

text \<open>The \<open>tool_use\<close> message, and the \<open>tool_result\<close> of a name the tool map does not hold.\<close>

definition toolUseMessage :: "tool_call \<Rightarrow> string \<Rightarrow> message" where
  "toolUseMessage call nm =
     \<lparr>role = Assistant, content = Blocks [ToolUseBlock (tc_id call) nm (tc_input call)]\<rparr>"

definition notFoundMessage :: "tool_call \<Rightarrow> message" where
  "notFoundMessage call =
     \<lparr>role = User,
      content = Blocks [ToolResultBlock (tc_id call)
        (ResultString (''Error: `'' @ tc_name call @ ''` tool not found.'')) False]\<rparr>"

text \<open>
  One pass through the body of \<^verbatim>\<open>while (!context.signal?.aborted)\<close> ends in \<open>continue\<close>
  (with the value \<open>hasToolUse\<close> has then) or leaves the function, by \<open>break\<close> and
  \<open>return\<close> (\<open>Inr\<close>) or by a throw (\<open>Inl\<close>).
\<close>

datatype 'w step =
    Continue bool "'w round_state"
  | Leave "exn + round_result" "'w round_state"

text \<open>
  The end of the body: \<^verbatim>\<open>if (context.__abort) throw new Error('Abort')\<close>, then the
  messages of the round in the order text, \<open>tool_use\<close>, \<open>tool_result\<close>.
\<close>

definition finish_attempt ::
  "string \<Rightarrow> message option \<Rightarrow> message option \<Rightarrow> llm_response option \<Rightarrow> bool \<Rightarrow> 'w round_state \<Rightarrow> 'w step" where
  "finish_attempt text toolUse toolResult resp used st =
     (if ctx_abort (rs_context st) then Leave (Inl (Error ''Abort'')) st
      else Leave (Inr \<lparr>response = resp, hasToolUse = used,
                       roundMessages =
                         (if text \<noteq> [] then [\<lparr>role = Assistant, content = Text text\<rparr>] else [])
                         @ (case toolUse of None \<Rightarrow> [] | Some m \<Rightarrow> [m])
                         @ (case toolResult of None \<Rightarrow> [] | Some m \<Rightarrow> [m])\<rparr>) st)"

text \<open>
  The body of the loop. The execution of the tool is started by \<open>onToolUse\<close> and awaited
  after \<open>generateStream\<close>; it is modelled as running after the stream has ended. For a
  name the tool map does not hold, \<open>onToolUse\<close> sets both messages and throws: the round
  goes on to commit them when the transport drops the rejection, and is retried when the
  rejection reaches the \<open>catch\<close> around \<open>generateStream\<close>.
\<close>

definition attempt ::
  "'w provider option \<Rightarrow> 'w hooks option \<Rightarrow> llm_parameters \<Rightarrow> (string \<times> 'w tool) list
     \<Rightarrow> 'w round_state \<Rightarrow> 'w step" where
  "attempt llmProvider callback params_copy toolMap st =
     (let st1 = st\<lparr>rs_messages := handleHistoryImageMessages (rs_messages st)\<rparr> in
      case llmProvider of
        None \<Rightarrow> Leave (Inl (Error ''LLM provider not set'')) st1
      | Some p \<Rightarrow>
          (case generateStream p (rs_context st1) (rs_messages st1) params_copy of
             (Failed, ctx1) \<Rightarrow> Continue False (st1\<lparr>rs_context := ctx1\<rparr>)
           | (Streamed chunks None resp, ctx1) \<Rightarrow>
               finish_attempt (assistantTextMessage chunks) None None resp False (st1\<lparr>rs_context := ctx1\<rparr>)
           | (Streamed chunks (Some call) resp, ctx1) \<Rightarrow>
               (case map_of toolMap (tc_name call) of
                  None \<Rightarrow>
                    if propagates_rejection p then Continue True (st1\<lparr>rs_context := ctx1\<rparr>)
                    else finish_attempt (assistantTextMessage chunks)
                           (Some (toolUseMessage call (tc_name call))) (Some (notFoundMessage call))
                           resp True (st1\<lparr>rs_context := ctx1\<rparr>)
                | Some tool \<Rightarrow>
                    (case tool_execution callback tool call (st1\<lparr>rs_context := ctx1\<rparr>) of
                       (toolResult, st2) \<Rightarrow>
                         finish_attempt (assistantTextMessage chunks)
                           (Some (toolUseMessage call (tool_name tool))) (Some toolResult)
                           resp True st2))))"

text \<open>
  The loop \<^verbatim>\<open>while (!context.signal?.aborted)\<close>. It has no bound on the retries: \<open>None\<close>
  is a round that never returns. When the signal is aborted at the test, the function
  returns no response, no messages, and \<open>hasToolUse\<close> as the last pass left it.
\<close>

partial_function (option) round_loop ::
  "'w provider option \<Rightarrow> 'w hooks option \<Rightarrow> llm_parameters \<Rightarrow> (string \<times> 'w tool) list
     \<Rightarrow> bool \<Rightarrow> 'w round_state \<Rightarrow> ((exn + round_result) \<times> 'w round_state) option" where
  "round_loop llmProvider callback params_copy toolMap used st =
     (if signal_aborted (rs_context st)
      then Some (Inr \<lparr>response = None, hasToolUse = used, roundMessages = []\<rparr>, st)
      else (case attempt llmProvider callback params_copy toolMap st of
              Continue used' st' \<Rightarrow> round_loop llmProvider callback params_copy toolMap used' st'
            | Leave r st' \<Rightarrow> Some (r, st')))"

declare round_loop.simps [code]

section \<open>The parameter objects in the store\<close>

text \<open>
  \<open>wrapToolInputSchema\<close> assigns a field of the object it is given, so the parameter
  objects and the tool definitions are kept in a store and named by their addresses
  (indices; nothing is ever freed). A parameter object holds its configuration members and
  the addresses of its tool definitions.
\<close>

record params_obj =
  po_config :: "(string \<times> json) list"
  po_tools :: "nat list option"

record heap =
  params_objs :: "params_obj list"
  def_objs :: "tool_definition list"

text \<open>
  \<open>JSON.parse(JSON.stringify(x))\<close> on a value: members with the value \<open>undefined\<close> are
  dropped, \<open>undefined\<close> elements of an array become \<open>null\<close>.
\<close>

fun JSON_clone :: "json \<Rightarrow> json"
  and clone_elements :: "json list \<Rightarrow> json list"
  and clone_members :: "(string \<times> json) list \<Rightarrow> (string \<times> json) list" where
  "JSON_clone (JArr xs) = JArr (clone_elements xs)"
| "JSON_clone (JObj kvs) = JObj (clone_members kvs)"
| "JSON_clone JUndefined = JUndefined"
| "JSON_clone JNull = JNull"
| "JSON_clone (JBool b) = JBool b"
| "JSON_clone (JNum n) = JNum n"
| "JSON_clone (JStr s) = JStr s"
| "clone_elements [] = []"
| "clone_elements (x # xs) = (if x = JUndefined then JNull else JSON_clone x) # clone_elements xs"
| "clone_members [] = []"
| "clone_members ((k, v) # kvs) =
     (if v = JUndefined then clone_members kvs else (k, JSON_clone v) # clone_members kvs)"

definition clone_definition :: "tool_definition \<Rightarrow> tool_definition" where
  "clone_definition d = d\<lparr>td_input_schema := JSON_clone (td_input_schema d)\<rparr>"

text \<open>
  \<^verbatim>\<open>JSON.parse(JSON.stringify(params))\<close>: a new parameter object with new tool
  definitions, at fresh addresses of the store.
\<close>

definition JSON_copy_params :: "heap \<Rightarrow> nat \<Rightarrow> heap \<times> nat" where
  "JSON_copy_params h params =
     (let po = params_objs h ! params;
          base = length (def_objs h);
          copies = (case po_tools po of None \<Rightarrow> [] | Some addrs \<Rightarrow> map (\<lambda>a. clone_definition (def_objs h ! a)) addrs);
          copy = \<lparr>po_config = clone_members (po_config po),
                  po_tools = (case po_tools po of None \<Rightarrow> None | Some addrs \<Rightarrow> Some [base ..< base + length addrs])\<rparr>
      in (h\<lparr>params_objs := params_objs h @ [copy], def_objs := def_objs h @ copies\<rparr>,
          length (params_objs h)))"

text \<open>\<open>wrapToolInputSchema\<close> on the definition at an address: the assignment in place.\<close>

definition wrapToolInputSchema_at :: "nat \<Rightarrow> heap \<Rightarrow> heap" where
  "wrapToolInputSchema_at a h = h\<lparr>def_objs := (def_objs h)[a := wrapToolInputSchema (def_objs h ! a)]\<rparr>"

text \<open>
  \<^verbatim>\<open>p.tools = p.tools?.map(this.wrapToolInputSchema)\<close> on the parameter object at \<open>p\<close>:
  each definition is rewritten in place, and \<open>tools\<close> is assigned an array of the same
  definitions.
\<close>

definition wrap_tools :: "heap \<Rightarrow> nat \<Rightarrow> heap" where
  "wrap_tools h p =
     (case po_tools (params_objs h ! p) of
        None \<Rightarrow> h
      | Some addrs \<Rightarrow> fold wrapToolInputSchema_at addrs h)"

text \<open>The parameters at an address, as the transport reads them.\<close>

definition read_params :: "heap \<Rightarrow> nat \<Rightarrow> llm_parameters" where
  "read_params h p =
     \<lparr>lp_config = po_config (params_objs h ! p),
      lp_tools = (case po_tools (params_objs h ! p) of
                    None \<Rightarrow> None
                  | Some addrs \<Rightarrow> Some (map (\<lambda>a. def_objs h ! a) addrs))\<rparr>"

text \<open>
  \<open>executeSingleRound\<close>: the copy of \<open>params\<close>, the wrapping of the copy's tools, and the
  loop. The result holds the round state and the store as the round left them.
\<close>

definition executeSingleRound ::
  "'w provider option \<Rightarrow> 'w hooks option \<Rightarrow> heap \<Rightarrow> nat \<Rightarrow> (string \<times> 'w tool) list
     \<Rightarrow> 'w round_state \<Rightarrow> ((exn + round_result) \<times> 'w round_state \<times> heap) option" where
  "executeSingleRound llmProvider callback h params toolMap st =
     (case JSON_copy_params h params of
        (h1, params_copy) \<Rightarrow>
          (let h2 = wrap_tools h1 params_copy in
           map_option (\<lambda>(r, st'). (r, st', h2))
             (round_loop llmProvider callback (read_params h2 params_copy) toolMap False st)))"

text \<open>
  The parameters that a round started with the store \<open>h\<close> and the parameter object
  \<open>params\<close> hands to the transport, and the store it leaves.
\<close>

definition advertised_params :: "heap \<Rightarrow> nat \<Rightarrow> llm_parameters" where
  "advertised_params h params =
     (case JSON_copy_params h params of (h1, params_copy) \<Rightarrow> read_params (wrap_tools h1 params_copy) params_copy)"

definition store_after_round :: "heap \<Rightarrow> nat \<Rightarrow> heap" where
  "store_after_round h params =
     (case JSON_copy_params h params of (h1, params_copy) \<Rightarrow> wrap_tools h1 params_copy)"

section \<open>The action and its loop over rounds\<close>

text \<open>
  The fields of \<open>ActionImpl\<close> that \<open>execute\<close> reads. \<open>maxRounds\<close> is a count of rounds, a
  natural number. \<open>toolResults\<close> is created with the action and never cleared.
\<close>

record 'w action =
  action_name :: string
  action_description :: string
  action_tools :: "'w tool list"
  llmProvider :: "'w provider option"
  llmConfig :: "(string \<times> json) list option"
  maxRounds :: nat
  toolResults :: "(string \<times> json) list"

text \<open>
  The constructor: \<open>WriteContextTool\<close> (not in \<^verbatim>\<open>src/\<close>) is appended to the tools, and
  \<^verbatim>\<open>if (config?.maxRounds)\<close> keeps the default 100 for an absent or zero value.
\<close>

definition ActionImpl ::
  "string \<Rightarrow> string \<Rightarrow> 'w tool list \<Rightarrow> 'w provider option \<Rightarrow> (string \<times> json) list option
     \<Rightarrow> nat option \<Rightarrow> 'w tool \<Rightarrow> 'w action" where
  "ActionImpl nm description tools provider config config_maxRounds writeContextTool =
     \<lparr>action_name = nm,
      action_description = description,
      action_tools = tools @ [writeContextTool],
      llmProvider = provider,
      llmConfig = config,
      maxRounds = (case config_maxRounds of None \<Rightarrow> 100 | Some n \<Rightarrow> if n \<noteq> 0 then n else 100),
      toolResults = []\<rparr>"

text \<open>
  What \<open>execute\<close> takes from its surroundings besides the variable store and the flags: the
  tools and the hooks of the context, the query of the browser's tabs (two awaited calls
  that may throw), and the texts of the two prompts and of the finish tool's description.
\<close>

record 'w run_env =
  context_tools :: "'w tool list option"
  context_callback :: "'w hooks option"
  query_tabs :: "'w exec_context \<Rightarrow> exn option \<times> 'w exec_context"
  formatSystemPrompt :: string
  formatUserPrompt :: string
  returnDescription :: string

text \<open>
  The two kinds of round, and the state of the loop. \<open>ls_calls\<close> and \<open>ls_committed\<close> are
  observations added to the model and read by no definition: the calls of
  \<open>executeSingleRound\<close>, and those among them whose messages were pushed to the history.
\<close>

datatype round_kind = Regular | FinishOnly

record 'w loop_state =
  ls_round :: "'w round_state"
  ls_heap :: heap
  ls_calls :: "round_kind list"
  ls_committed :: "round_kind list"

text \<open>How the loop is left: normally, by a throw, or never (a round that does not return).\<close>

datatype loop_exit = Completed | Raised exn | Unfinished

text \<open>The tool map: the action's tools, then the context's, then the finish tool.\<close>

definition build_toolMap :: "'w tool list \<Rightarrow> 'w tool list option \<Rightarrow> 'w tool \<Rightarrow> (string \<times> 'w tool) list" where
  "build_toolMap tools ctx_tools returnTool =
     Map_set
       (fold (\<lambda>t m. Map_set m (tool_name t) t) (case ctx_tools of None \<Rightarrow> [] | Some ts \<Rightarrow> ts)
          (fold (\<lambda>t m. Map_set m (tool_name t) t) tools []))
       (tool_name returnTool) returnTool"

definition definition_of :: "'w tool \<Rightarrow> tool_definition" where
  "definition_of t = \<lparr>td_name = tool_name t, td_description = tool_description t, td_input_schema = tool_input_schema t\<rparr>"

text \<open>A new parameter object \<^verbatim>\<open>{...config, tools: definitions}\<close> in the store.\<close>

definition new_params :: "heap \<Rightarrow> (string \<times> json) list \<Rightarrow> tool_definition list \<Rightarrow> heap \<times> nat" where
  "new_params h config definitions =
     (h\<lparr>params_objs := params_objs h @
           [\<lparr>po_config = config,
             po_tools = Some [length (def_objs h) ..< length (def_objs h) + length definitions]\<rparr>],
        def_objs := def_objs h @ definitions\<rparr>,
      length (params_objs h))"

text \<open>
  \<open>called\<close> notes a call of \<open>executeSingleRound\<close> (an observation only);
  \<open>commit\<close> is \<^verbatim>\<open>messages.push(...roundMessages)\<close> after a round that returned, with
  the round state and the store as the round left them.
\<close>

definition called :: "round_kind \<Rightarrow> 'w loop_state \<Rightarrow> 'w loop_state" where
  "called k st = st\<lparr>ls_calls := ls_calls st @ [k]\<rparr>"

definition commit :: "round_kind \<Rightarrow> round_result \<Rightarrow> 'w round_state \<Rightarrow> heap \<Rightarrow> 'w loop_state \<Rightarrow> 'w loop_state" where
  "commit k r rs h st =
     st\<lparr>ls_round := rs\<lparr>rs_messages := rs_messages rs @ roundMessages r\<rparr>,
        ls_heap := h,
        ls_committed := ls_committed st @ [k]\<rparr>"

text \<open>\<^verbatim>\<open>messages.push({ role: 'user', content: instruction })\<close>\<close>

definition push_instruction :: "string \<Rightarrow> 'w round_state \<Rightarrow> 'w round_state" where
  "push_instruction instruction rs =
     rs\<lparr>rs_messages := rs_messages rs @ [\<lparr>role = User, content = Text instruction\<rparr>]\<rparr>"

definition return_instruction :: string where
  "return_instruction = ''Please process the above information and return a final result using the return_output tool.''"

definition max_rounds_instruction :: string where
  "max_rounds_instruction = ''Maximum number of steps reached. Please return the best result possible with the return_output tool.''"

text \<open>
  \<open>returnOnlyParams\<close>: a new parameter object with the configuration of \<open>params\<close> and the
  definition of the finish tool as its only tool.
\<close>

definition returnOnlyParams :: "heap \<Rightarrow> nat \<Rightarrow> 'w tool \<Rightarrow> heap \<times> nat" where
  "returnOnlyParams h params returnTool =
     new_params h (po_config (params_objs h ! params)) [definition_of returnTool]"

text \<open>
  The part the two forced finishes share: \<open>returnOnlyParams\<close>, the instruction pushed as
  a user message, one round with a tool map that holds the finish tool alone, and its
  messages pushed.
\<close>

definition finish_only_round ::
  "'w action \<Rightarrow> 'w hooks option \<Rightarrow> 'w tool \<Rightarrow> nat \<Rightarrow> string \<Rightarrow> 'w loop_state \<Rightarrow> loop_exit \<times> 'w loop_state" where
  "finish_only_round A callback returnTool params instruction st =
     (case returnOnlyParams (ls_heap st) params returnTool of
        (h1, only_params) \<Rightarrow>
          (let rs1 = push_instruction instruction (ls_round st);
               st1 = called FinishOnly (st\<lparr>ls_round := rs1, ls_heap := h1\<rparr>)
           in case executeSingleRound (llmProvider A) callback h1 only_params
                     [(tool_name returnTool, returnTool)] rs1 of
                None \<Rightarrow> (Unfinished, st1)
              | Some (Inl e, rs2, h2) \<Rightarrow> (Raised e, st1\<lparr>ls_round := rs2, ls_heap := h2\<rparr>)
              | Some (Inr r, rs2, h2) \<Rightarrow> (Completed, commit FinishOnly r rs2 h2 st1)))"

text \<open>\<^verbatim>\<open>response?.toolCalls.some((call) => call.name === 'return_output')\<close>\<close>

definition calls_return_output :: "llm_response option \<Rightarrow> bool" where
  "calls_return_output resp =
     (case resp of None \<Rightarrow> False | Some r \<Rightarrow> list_ex (\<lambda>call. tc_name call = ''return_output'') (toolCalls r))"

text \<open>
  The loop \<^verbatim>\<open>while (roundCount < this.maxRounds)\<close> of \<open>execute\<close>, from the test of the
  condition on; the result holds the exit, the final \<open>roundCount\<close> and the final state.
\<close>

function loop ::
  "'w action \<Rightarrow> 'w hooks option \<Rightarrow> (string \<times> 'w tool) list \<Rightarrow> 'w tool \<Rightarrow> nat \<Rightarrow> nat \<Rightarrow> 'w loop_state
     \<Rightarrow> loop_exit \<times> nat \<times> 'w loop_state" where
  "loop A callback toolMap returnTool params roundCount st =
     (if roundCount < maxRounds A
      then
        if signal_aborted (rs_context (ls_round st))
        then (Raised (Error ''Workflow cancelled''), roundCount, st)
        else
          (case executeSingleRound (llmProvider A) callback (ls_heap st) params toolMap (ls_round st) of
             None \<Rightarrow> (Unfinished, Suc roundCount, called Regular st)
           | Some (Inl e, rs, h) \<Rightarrow>
               (Raised e, Suc roundCount, (called Regular st)\<lparr>ls_round := rs, ls_heap := h\<rparr>)
           | Some (Inr r, rs, h) \<Rightarrow>
               (let st1 = commit Regular r rs h (called Regular st)
                in if \<not> hasToolUse r \<and> response r \<noteq> None
                   then (case finish_only_round A callback returnTool params return_instruction st1 of
                           (ex, st2) \<Rightarrow> (ex, Suc roundCount, st2))
                   else if calls_return_output (response r)
                   then (Completed, Suc roundCount, st1)
                   else if Suc roundCount = maxRounds A
                   then (case finish_only_round A callback returnTool params max_rounds_instruction st1 of
                           (Completed, st2) \<Rightarrow> loop A callback toolMap returnTool params (Suc roundCount) st2
                         | (Raised e, st2) \<Rightarrow> (Raised e, Suc roundCount, st2)
                         | (Unfinished, st2) \<Rightarrow> (Unfinished, Suc roundCount, st2))
                   else loop A callback toolMap returnTool params (Suc roundCount) st1))
      else (Completed, roundCount, st))"
  by pat_completeness auto
termination
  by (relation "measure (\<lambda>(A, callback, toolMap, returnTool, params, roundCount, st). maxRounds A - roundCount)") auto

declare loop.simps [simp del]

text \<open>
  The end of \<open>execute\<close>: the finish payload is read from the variable store and, when
  truthy, deleted; the value is the last value of \<open>toolResults\<close> or the payload's
  \<open>value\<close>; \<open>{}\<close> stands in for a missing payload and for the value \<open>undefined\<close>.
\<close>

definition finalize :: "string \<Rightarrow> 'w round_state \<Rightarrow> json \<times> 'w round_state" where
  "finalize nm rs =
     (let outputParams = variables_get (rs_context rs) (output_key nm) in
      if \<not> truthy outputParams then (JObj [], rs)
      else
        (let rs' = rs\<lparr>rs_context := variables_delete (output_key nm) (rs_context rs)\<rparr>;
             outputValue = (if truthy (prop_of outputParams ''use_tool_result'')
                            then last_value (rs_toolResults rs)
                            else prop_of outputParams ''value'')
         in if outputValue = JUndefined then (JObj [], rs') else (outputValue, rs')))"

text \<open>
  The result of a run: \<open>Returned nodeOutput\<close> with the history in \<open>run_reacts\<close>, a throw,
  or a run that never returns. \<open>run_payload\<close> is an observation: the finish payload read at
  the end (\<open>undefined\<close> when the end was not reached).
\<close>

datatype run_exit = Returned json | Threw exn | Never_returns

record 'w run =
  run_exit :: run_exit
  run_reacts :: "message list"
  run_roundCount :: nat
  run_payload :: json
  run_state :: "'w loop_state"

text \<open>
  The state in which the loop starts: the history, the context, \<open>this.toolResults\<close> as the
  action holds it, the store, and empty observations.
\<close>

definition initial_state :: "'w action \<Rightarrow> message list \<Rightarrow> 'w exec_context \<Rightarrow> heap \<Rightarrow> 'w loop_state" where
  "initial_state A messages ctx h =
     \<lparr>ls_round = \<lparr>rs_messages = messages, rs_context = ctx,
                  rs_toolResults = toolResults A, rs_recorded = []\<rparr>,
      ls_heap = h, ls_calls = [], ls_committed = []\<rparr>"

text \<open>The two messages the history starts with.\<close>

definition initial_messages :: "'w run_env \<Rightarrow> message list" where
  "initial_messages env =
     [\<lparr>role = System, content = Text (formatSystemPrompt env)\<rparr>,
      \<lparr>role = User, content = Text (formatUserPrompt env)\<rparr>]"

text \<open>
  \<open>params\<close>: \<^verbatim>\<open>{...this.llmConfig, tools: Array.from(toolMap.values()).map(...)}\<close>, a new
  object in the store.
\<close>

definition initial_params :: "'w action \<Rightarrow> (string \<times> 'w tool) list \<Rightarrow> heap \<Rightarrow> heap \<times> nat" where
  "initial_params A toolMap h =
     new_params h
       (filter (\<lambda>(k, v). k \<noteq> ''tools'') (case llmConfig A of None \<Rightarrow> [] | Some c \<Rightarrow> c))
       (map (\<lambda>(k, t). definition_of t) toolMap)"

text \<open>
  \<open>execute\<close>. \<open>input\<close> is only logged and left out; \<open>output.description\<close> enters through the
  description of the finish tool.
\<close>

definition execute :: "'w action \<Rightarrow> 'w run_env \<Rightarrow> json \<Rightarrow> 'w exec_context \<Rightarrow> heap \<Rightarrow> 'w run" where
  "execute A env outputSchema ctx h =
     (let returnTool = createReturnTool (action_name A) (returnDescription env) outputSchema;
          toolMap = build_toolMap (action_tools A) (context_tools env) returnTool
      in case query_tabs env ctx of
           (Some e, ctx1) \<Rightarrow>
             \<lparr>run_exit = Threw e, run_reacts = [], run_roundCount = 0, run_payload = JUndefined,
              run_state = initial_state A [] ctx1 h\<rparr>
         | (None, ctx1) \<Rightarrow>
             (case initial_params A toolMap h of
                (h1, params) \<Rightarrow>
                  (case loop A (context_callback env) toolMap returnTool params 0
                          (initial_state A (initial_messages env) ctx1 h1) of
                     (Completed, n, st) \<Rightarrow>
                       (case finalize (action_name A) (ls_round st) of
                          (nodeOutput, rs) \<Rightarrow>
                            \<lparr>run_exit = Returned nodeOutput,
                             run_reacts = rs_messages rs,
                             run_roundCount = n,
                             run_payload = variables_get (rs_context (ls_round st)) (output_key (action_name A)),
                             run_state = st\<lparr>ls_round := rs\<rparr>\<rparr>)
                   | (Raised e, n, st) \<Rightarrow>
                       \<lparr>run_exit = Threw e, run_reacts = rs_messages (ls_round st), run_roundCount = n,
                        run_payload = JUndefined, run_state = st\<rparr>
                   | (Unfinished, n, st) \<Rightarrow>
                       \<lparr>run_exit = Never_returns, run_reacts = rs_messages (ls_round st), run_roundCount = n,
                        run_payload = JUndefined, run_state = st\<rparr>)))"

section \<open>Predicates used in the proofs\<close>

text \<open>
  How the two observations of the loop grow over \<open>d\<close> regular rounds: the calls are \<open>d\<close>
  regular rounds and then at most one finish-only round; the committed rounds are the calls,
  or the calls without the last one.
\<close>

definition trace_step :: "round_kind list \<Rightarrow> round_kind list \<Rightarrow> round_kind list \<Rightarrow> round_kind list \<Rightarrow> nat \<Rightarrow> bool" where
  "trace_step calls calls' comm comm' d =
     (\<exists>new kept rest.
        calls' = calls @ new
        \<and> (new = replicate d Regular \<or> new = replicate d Regular @ [FinishOnly])
        \<and> comm' = comm @ kept \<and> new = kept @ rest \<and> length rest \<le> 1)"

text \<open>
  How a round state grows: some entries are written to \<open>toolResults\<close> one after the other,
  each a string, and noted in \<open>rs_recorded\<close> in the same order.
\<close>

definition recorded_step :: "'w round_state \<Rightarrow> 'w round_state \<Rightarrow> bool" where
  "recorded_step s s' =
     (\<exists>new. rs_recorded s' = rs_recorded s @ new
        \<and> rs_toolResults s' = fold (\<lambda>e m. Map_set m (fst e) (snd e)) new (rs_toolResults s)
        \<and> list_all (\<lambda>e. \<exists>t. snd e = JStr t) new)"

section \<open>Concrete tools, transports and runs\<close>

text \<open>
  Evaluation leaves the long texts of schemas and instructions folded: no run reads them.
\<close>

declare isSuccessful_description_def [code del]
declare use_tool_result_description_def [code del]
declare value_description_def [code del]
declare observation_description_def [code del]
declare thinking_description_def [code del]
declare userSidePrompt_description_def [code del]
declare return_instruction_def [code del]
declare max_rounds_instruction_def [code del]

text \<open>
  The instances the closed theorems below are stated on. The world is a counter of the
  calls of \<open>generateStream\<close>; a scripted transport delivers the entries of a list one call
  after the other, and fails once the list is used up.
\<close>

definition envelope_input :: "json \<Rightarrow> json" where
  "envelope_input inner =
     JObj [(''observation'', JStr ''In the previous step, I did nothing.''),
           (''thinking'', JStr ''next''),
           (''userSidePrompt'', JStr ''Working.''),
           (''toolCall'', inner)]"

definition echo_tool :: "nat tool" where
  "echo_tool = \<lparr>tool_name = ''echo'', tool_description = ''returns its text'', tool_input_schema = JObj [],
                tool_execute = (\<lambda>ctx inp. (Inr (prop_of inp ''text''), ctx))\<rparr>"

definition disk_tool :: "nat tool" where
  "disk_tool = \<lparr>tool_name = ''write_file'', tool_description = ''writes a file'', tool_input_schema = JObj [],
                tool_execute = (\<lambda>ctx inp. (Inl (Error ''disk full''), ctx))\<rparr>"

definition big_tool :: "nat tool" where
  "big_tool = \<lparr>tool_name = ''read_page'', tool_description = ''reads a page'', tool_input_schema = JObj [],
               tool_execute = (\<lambda>ctx inp. (Inr (JStr (replicate 1000 (CHR ''a''))), ctx))\<rparr>"

definition tool_call_of :: "string \<Rightarrow> string \<Rightarrow> json \<Rightarrow> tool_call" where
  "tool_call_of i nm inner = \<lparr>tc_id = i, tc_name = nm, tc_input = envelope_input inner\<rparr>"

definition use_tool_result_payload :: json where
  "use_tool_result_payload =
     JObj [(''isSuccessful'', JBool True), (''use_tool_result'', JBool True), (''value'', JNull)]"

definition one_call :: "tool_call \<Rightarrow> attempt" where
  "one_call c = Streamed [] (Some c) (Some \<lparr>textContent = [], toolCalls = [c]\<rparr>)"

definition text_only :: "string \<Rightarrow> attempt" where
  "text_only t = Streamed [t] None (Some \<lparr>textContent = t, toolCalls = []\<rparr>)"

definition scripted_provider :: "attempt list \<Rightarrow> nat provider" where
  "scripted_provider script =
     \<lparr>generateStream = (\<lambda>ctx ms ps. (if world ctx < length script then script ! world ctx else Failed,
                                     ctx\<lparr>world := Suc (world ctx)\<rparr>)),
      propagates_rejection = False\<rparr>"

text \<open>
  Modelled from the spec: a scripted transport in which a throw of \<open>onToolUse\<close> ends the
  stream (section 6: \<open>onToolUse(invocation) -> may throw\<close>, and a thrown error aborts the
  stream unless the core maps it into the error path of the invocation), so that
  \<open>generateStream\<close> rejects.
\<close>

definition awaiting_provider :: "attempt list \<Rightarrow> nat provider" where
  "awaiting_provider script = (scripted_provider script)\<lparr>propagates_rejection := True\<rparr>"

definition plain_env :: "nat run_env" where
  "plain_env = \<lparr>context_tools = None, context_callback = None, query_tabs = (\<lambda>ctx. (None, ctx)),
                formatSystemPrompt = ''system'', formatUserPrompt = ''task'', returnDescription = ''the result''\<rparr>"

definition start_context :: "nat exec_context" where
  "start_context = \<lparr>variables = Map.empty, ctx_skip = False, ctx_abort = False, ctx_signal = None, world = 0\<rparr>"

definition empty_heap :: heap where
  "empty_heap = \<lparr>params_objs = [], def_objs = []\<rparr>"

text \<open>An action with the tools above (\<open>echo\<close> stands where \<open>WriteContextTool\<close> is appended).\<close>

definition scripted_action :: "attempt list \<Rightarrow> nat \<Rightarrow> nat action" where
  "scripted_action script rounds =
     ActionImpl ''demo'' ''a scripted task'' [disk_tool, big_tool] (Some (scripted_provider script)) None
       (Some rounds) echo_tool"

text \<open>The tool map, the finish tool, the parameters and the first state of a run of such an action.\<close>

definition demo_returnTool :: "nat tool" where
  "demo_returnTool = createReturnTool ''demo'' ''the result'' JUndefined"

definition demo_toolMap :: "(string \<times> nat tool) list" where
  "demo_toolMap = build_toolMap [disk_tool, big_tool, echo_tool] None demo_returnTool"

definition demo_heap :: heap where
  "demo_heap = fst (new_params empty_heap [] (map (\<lambda>(k, t). definition_of t) demo_toolMap))"

definition demo_state :: "nat loop_state" where
  "demo_state =
     \<lparr>ls_round = \<lparr>rs_messages = [\<lparr>role = System, content = Text ''system''\<rparr>,
                                 \<lparr>role = User, content = Text ''task''\<rparr>],
                  rs_context = start_context, rs_toolResults = [], rs_recorded = []\<rparr>,
      ls_heap = demo_heap, ls_calls = [], ls_committed = []\<rparr>"

section \<open>Properties of the finish tool\<close>

lemma output_key_not_isSuccessful: "output_key n \<noteq> ''__isSuccessful__''"
  by (simp add: output_key_def)

text \<open>
  C4 (as stated, refuted): executing \<open>return_output\<close> would write the key
  \<open>__action_<name>_output\<close> and no other key of the variable store. For the action \<open>a\<close>, an empty
  store and the payload \<open>{isSuccessful: true, use_tool_result: false, value: null}\<close>, the store
  afterwards holds a second key, \<open>__isSuccessful__\<close>, which is not the output key.
\<close>

theorem return_output_second_key_counterexample:
  "variables (snd (return_execute ''a''
       \<lparr>variables = Map.empty, ctx_skip = False, ctx_abort = False, ctx_signal = None, world = ()\<rparr>
       (JObj [(''isSuccessful'', JBool True), (''use_tool_result'', JBool False), (''value'', JNull)])))
     ''__isSuccessful__'' = Some (JBool True)
   \<and> variables \<lparr>variables = Map.empty, ctx_skip = False, ctx_abort = False, ctx_signal = None, world = ()\<rparr>
     ''__isSuccessful__'' = None
   \<and> ''__isSuccessful__'' \<noteq> output_key ''a''"
  by (simp add: return_execute_def variables_set_def output_key_def)

text \<open>
  C4 (amended): executing \<open>return_output\<close> with the payload \<open>params\<close> stores \<open>params\<close> under
  \<open>__action_<name>_output\<close>; when \<open>params\<close> is neither \<open>undefined\<close> nor \<open>null\<close> it also stores
  \<open>params.isSuccessful\<close> under \<open>__isSuccessful__\<close> and returns \<open>{success: true}\<close>; every key
  other than these two keeps its value (none is written or deleted), and the flags, the
  signal and the world outside the store are unchanged.
\<close>

theorem return_output_frame:
  "variables (snd (return_execute n ctx p)) (output_key n) = Some p
   \<and> (p \<noteq> JUndefined \<and> p \<noteq> JNull \<longrightarrow>
        (\<exists>b. prop_read p ''isSuccessful'' = Inr b
           \<and> variables (snd (return_execute n ctx p)) ''__isSuccessful__'' = Some b)
        \<and> fst (return_execute n ctx p) = Inr (JObj [(''success'', JBool True)]))
   \<and> (\<forall>k. k \<noteq> output_key n \<and> k \<noteq> ''__isSuccessful__'' \<longrightarrow>
        variables (snd (return_execute n ctx p)) k = variables ctx k)
   \<and> ctx_skip (snd (return_execute n ctx p)) = ctx_skip ctx
   \<and> ctx_abort (snd (return_execute n ctx p)) = ctx_abort ctx
   \<and> ctx_signal (snd (return_execute n ctx p)) = ctx_signal ctx
   \<and> world (snd (return_execute n ctx p)) = world ctx"
  using output_key_not_isSuccessful [of n]
  by (cases p) (auto simp: return_execute_def variables_set_def TypeError_read_def)

theorem return_output_frame_witness:
  "variables (snd (return_execute ''a''
       \<lparr>variables = [''x'' \<mapsto> JNum 1], ctx_skip = False, ctx_abort = False, ctx_signal = None, world = ()\<rparr>
       (JObj [(''isSuccessful'', JBool True), (''use_tool_result'', JBool False), (''value'', JNull)])))
     ''x'' = Some (JNum 1)
   \<and> variables (snd (return_execute ''a''
       \<lparr>variables = [''x'' \<mapsto> JNum 1], ctx_skip = False, ctx_abort = False, ctx_signal = None, world = ()\<rparr>
       (JObj [(''isSuccessful'', JBool True), (''use_tool_result'', JBool False), (''value'', JNull)])))
     ''__isSuccessful__'' = Some (JBool True)"
  using return_output_frame [of "''a''"
      "\<lparr>variables = [''x'' \<mapsto> JNum 1], ctx_skip = False, ctx_abort = False, ctx_signal = None, world = ()\<rparr>"
      "JObj [(''isSuccessful'', JBool True), (''use_tool_result'', JBool False), (''value'', JNull)]"]
  by (simp add: output_key_def)

section \<open>Image pruning\<close>

lemma role_strip_message [simp]: "role (strip_message m) = role m"
  by (simp add: strip_message_def split: content.splits)

lemma strip_item_idem [simp]: "strip_item (strip_item b) = strip_item b"
  by (induction b rule: strip_item.induct) (auto simp: Let_def)

lemma strip_message_idem [simp]: "strip_message (strip_message m) = strip_message m"
  by (cases "content m") (simp_all add: strip_message_def)

lemma length_history_loop [simp]: "length (history_loop n f ms) = length ms"
  by (induction n f ms rule: history_loop.induct) auto

lemma history_loop_nth:
  "n \<le> length ms \<Longrightarrow> j < length ms \<Longrightarrow>
   history_loop n f ms ! j =
     (if j < n \<and> role (ms ! j) = User \<and> (f \<or> (\<exists>k. j < k \<and> k < n \<and> role (ms ! k) = User))
      then strip_message (ms ! j) else ms ! j)"
proof (induction n f ms rule: history_loop.induct)
  case (1 f ms)
  then show ?case by simp
next
  case (2 i f ms)
  have ex_split: "\<And>P. (\<exists>k. j < k \<and> k < Suc i \<and> P k) = ((j < i \<and> P i) \<or> (\<exists>k. j < k \<and> k < i \<and> P k))"
    by (metis less_Suc_eq)
  show ?case
  proof (cases "role (ms ! i) = User")
    case False
    with 2 show ?thesis
      by (cases "j = i") (auto simp: less_Suc_eq)
  next
    case True
    show ?thesis
    proof (cases f)
      case False
      with True 2 show ?thesis
        by (cases "j = i") (auto simp: less_Suc_eq)
    next
      case f: True
      with True 2 show ?thesis
        by (cases "j = i") (auto simp: less_Suc_eq nth_list_update)
    qed
  qed
qed


lemma handle_nth:
  "j < length ms \<Longrightarrow>
   handleHistoryImageMessages ms ! j =
     (if role (ms ! j) = User \<and> (\<exists>k. j < k \<and> k < length ms \<and> role (ms ! k) = User)
      then strip_message (ms ! j) else ms ! j)"
  by (simp add: handleHistoryImageMessages_def history_loop_nth)

lemma length_handle [simp]: "length (handleHistoryImageMessages ms) = length ms"
  by (simp add: handleHistoryImageMessages_def)

lemma role_handle_nth: "j < length ms \<Longrightarrow> role (handleHistoryImageMessages ms ! j) = role (ms ! j)"
  by (simp add: handle_nth)

lemma handle_idem: "handleHistoryImageMessages (handleHistoryImageMessages ms) = handleHistoryImageMessages ms"
proof (rule nth_equalityI)
  show "length (handleHistoryImageMessages (handleHistoryImageMessages ms)) = length (handleHistoryImageMessages ms)"
    by simp
next
  fix j assume "j < length (handleHistoryImageMessages (handleHistoryImageMessages ms))"
  then have j: "j < length ms" by simp
  have roles: "\<And>k. k < length ms \<Longrightarrow> role (handleHistoryImageMessages ms ! k) = role (ms ! k)"
    by (rule role_handle_nth)
  have ex: "(\<exists>k. j < k \<and> k < length ms \<and> role (handleHistoryImageMessages ms ! k) = User)
      = (\<exists>k. j < k \<and> k < length ms \<and> role (ms ! k) = User)"
    using roles by auto
  show "handleHistoryImageMessages (handleHistoryImageMessages ms) ! j = handleHistoryImageMessages ms ! j"
    using j by (simp add: handle_nth [of j "handleHistoryImageMessages ms"] roles ex) (simp add: handle_nth)
qed

lemma strip_item_result:
  "strip_item (ToolResultBlock i (ResultBlocks cs) e) =
     ToolResultBlock i (ResultBlocks
       (if cs = [] then [] else if \<forall>c\<in>set cs. is_image c then [TextBlock (JStr ''ok'')]
        else filter (\<lambda>c. \<not> is_image c) cs)) e"
  by (auto simp: Let_def filter_empty_conv)

lemma strip_item_other:
  "(\<nexists>i cs e. b = ToolResultBlock i (ResultBlocks cs) e) \<Longrightarrow> strip_item b = b"
  by (induction b rule: strip_item.induct) auto

text \<open>
  C6: image pruning is idempotent; it keeps the length of the history; the most recent
  user message (a user message with no user message after it) is left as it is, images
  included, and so is every message that is not a user message; every earlier user message
  (one with a user message after it) keeps its role, is unchanged when its content is a
  string, and otherwise has, block by block, every \<open>tool_result\<close> with array content
  replaced by the same \<open>tool_result\<close> without its image blocks, or with the single text
  block \<open>ok\<close> when it held only images, every other block being unchanged.
\<close>

theorem image_pruning:
  "handleHistoryImageMessages (handleHistoryImageMessages ms) = handleHistoryImageMessages ms
   \<and> length (handleHistoryImageMessages ms) = length ms
   \<and> (\<forall>j. j < length ms \<and> role (ms ! j) = User
          \<and> (\<forall>k. j < k \<and> k < length ms \<longrightarrow> role (ms ! k) \<noteq> User)
        \<longrightarrow> handleHistoryImageMessages ms ! j = ms ! j)
   \<and> (\<forall>j. j < length ms \<and> role (ms ! j) \<noteq> User \<longrightarrow> handleHistoryImageMessages ms ! j = ms ! j)
   \<and> (\<forall>j k. j < k \<and> k < length ms \<and> role (ms ! j) = User \<and> role (ms ! k) = User \<longrightarrow>
         role (handleHistoryImageMessages ms ! j) = User
         \<and> (\<forall>s. content (ms ! j) = Text s \<longrightarrow> handleHistoryImageMessages ms ! j = ms ! j)
         \<and> (\<forall>items. content (ms ! j) = Blocks items \<longrightarrow>
              (\<exists>items'. content (handleHistoryImageMessages ms ! j) = Blocks items'
                 \<and> length items' = length items
                 \<and> (\<forall>p. p < length items \<longrightarrow>
                      (\<forall>i cs e. items ! p = ToolResultBlock i (ResultBlocks cs) e \<longrightarrow>
                         items' ! p = ToolResultBlock i (ResultBlocks
                           (if cs = [] then []
                            else if \<forall>c\<in>set cs. is_image c then [TextBlock (JStr ''ok'')]
                            else filter (\<lambda>c. \<not> is_image c) cs)) e)
                      \<and> ((\<nexists>i cs e. items ! p = ToolResultBlock i (ResultBlocks cs) e) \<longrightarrow>
                         items' ! p = items ! p)))))"
proof (intro conjI allI impI)
  show "handleHistoryImageMessages (handleHistoryImageMessages ms) = handleHistoryImageMessages ms"
    by (rule handle_idem)
next
  show "length (handleHistoryImageMessages ms) = length ms" by simp
next
  fix j
  assume "j < length ms \<and> role (ms ! j) = User \<and> (\<forall>k. j < k \<and> k < length ms \<longrightarrow> role (ms ! k) \<noteq> User)"
  then show "handleHistoryImageMessages ms ! j = ms ! j"
    by (auto simp: handle_nth)
next
  fix j
  assume "j < length ms \<and> role (ms ! j) \<noteq> User"
  then show "handleHistoryImageMessages ms ! j = ms ! j"
    by (simp add: handle_nth)
next
  fix j k
  assume a: "j < k \<and> k < length ms \<and> role (ms ! j) = User \<and> role (ms ! k) = User"
  then show "role (handleHistoryImageMessages ms ! j) = User"
    by (simp add: role_handle_nth)
next
  fix j k s
  assume a: "j < k \<and> k < length ms \<and> role (ms ! j) = User \<and> role (ms ! k) = User"
    and c: "content (ms ! j) = Text s"
  from a have "handleHistoryImageMessages ms ! j = strip_message (ms ! j)"
    by (auto simp: handle_nth)
  with c show "handleHistoryImageMessages ms ! j = ms ! j"
    by (simp add: strip_message_def)
next
  fix j k items
  assume a: "j < k \<and> k < length ms \<and> role (ms ! j) = User \<and> role (ms ! k) = User"
    and c: "content (ms ! j) = Blocks items"
  from a have "handleHistoryImageMessages ms ! j = strip_message (ms ! j)"
    by (auto simp: handle_nth)
  with c have r: "content (handleHistoryImageMessages ms ! j) = Blocks (map strip_item items)"
    by (simp add: strip_message_def)
  show "\<exists>items'. content (handleHistoryImageMessages ms ! j) = Blocks items'
          \<and> length items' = length items
          \<and> (\<forall>p. p < length items \<longrightarrow>
               (\<forall>i cs e. items ! p = ToolResultBlock i (ResultBlocks cs) e \<longrightarrow>
                  items' ! p = ToolResultBlock i (ResultBlocks
                    (if cs = [] then []
                     else if \<forall>c\<in>set cs. is_image c then [TextBlock (JStr ''ok'')]
                     else filter (\<lambda>c. \<not> is_image c) cs)) e)
               \<and> ((\<nexists>i cs e. items ! p = ToolResultBlock i (ResultBlocks cs) e) \<longrightarrow>
                  items' ! p = items ! p))"
  proof (intro exI conjI allI impI)
    show "content (handleHistoryImageMessages ms ! j) = Blocks (map strip_item items)" by (rule r)
  next
    show "length (map strip_item items) = length items" by simp
  next
    fix p i cs e
    assume "p < length items" and "items ! p = ToolResultBlock i (ResultBlocks cs) e"
    then show "map strip_item items ! p = ToolResultBlock i (ResultBlocks
                    (if cs = [] then []
                     else if \<forall>c\<in>set cs. is_image c then [TextBlock (JStr ''ok'')]
                     else filter (\<lambda>c. \<not> is_image c) cs)) e"
      by (simp add: strip_item_result del: strip_item.simps)
  next
    fix p
    assume "p < length items" and "\<nexists>i cs e. items ! p = ToolResultBlock i (ResultBlocks cs) e"
    then show "map strip_item items ! p = items ! p"
      by (simp add: strip_item_other)
  qed
qed

text \<open>
  Three user turns, each with one image: the newest keeps its image, the first is reduced
  to \<open>ok\<close>, the second keeps its text.
\<close>

theorem image_pruning_witness:
  "handleHistoryImageMessages
     [\<lparr>role = System, content = Text ''s''\<rparr>,
      \<lparr>role = User, content = Blocks [ToolResultBlock ''t1'' (ResultBlocks [ImageBlock (JStr ''i1'')]) False]\<rparr>,
      \<lparr>role = Assistant, content = Text ''a''\<rparr>,
      \<lparr>role = User, content = Blocks [ToolResultBlock ''t2'' (ResultBlocks [ImageBlock (JStr ''i2''), TextBlock (JStr ''x'')]) False]\<rparr>,
      \<lparr>role = User, content = Blocks [ToolResultBlock ''t3'' (ResultBlocks [ImageBlock (JStr ''i3'')]) False]\<rparr>]
   = [\<lparr>role = System, content = Text ''s''\<rparr>,
      \<lparr>role = User, content = Blocks [ToolResultBlock ''t1'' (ResultBlocks [TextBlock (JStr ''ok'')]) False]\<rparr>,
      \<lparr>role = Assistant, content = Text ''a''\<rparr>,
      \<lparr>role = User, content = Blocks [ToolResultBlock ''t2'' (ResultBlocks [TextBlock (JStr ''x'')]) False]\<rparr>,
      \<lparr>role = User, content = Blocks [ToolResultBlock ''t3'' (ResultBlocks [ImageBlock (JStr ''i3'')]) False]\<rparr>]
  \<and> handleHistoryImageMessages (handleHistoryImageMessages
     [\<lparr>role = System, content = Text ''s''\<rparr>,
      \<lparr>role = User, content = Blocks [ToolResultBlock ''t1'' (ResultBlocks [ImageBlock (JStr ''i1'')]) False]\<rparr>,
      \<lparr>role = Assistant, content = Text ''a''\<rparr>,
      \<lparr>role = User, content = Blocks [ToolResultBlock ''t2'' (ResultBlocks [ImageBlock (JStr ''i2''), TextBlock (JStr ''x'')]) False]\<rparr>,
      \<lparr>role = User, content = Blocks [ToolResultBlock ''t3'' (ResultBlocks [ImageBlock (JStr ''i3'')]) False]\<rparr>])
   = handleHistoryImageMessages
     [\<lparr>role = System, content = Text ''s''\<rparr>,
      \<lparr>role = User, content = Blocks [ToolResultBlock ''t1'' (ResultBlocks [ImageBlock (JStr ''i1'')]) False]\<rparr>,
      \<lparr>role = Assistant, content = Text ''a''\<rparr>,
      \<lparr>role = User, content = Blocks [ToolResultBlock ''t2'' (ResultBlocks [ImageBlock (JStr ''i2''), TextBlock (JStr ''x'')]) False]\<rparr>,
      \<lparr>role = User, content = Blocks [ToolResultBlock ''t3'' (ResultBlocks [ImageBlock (JStr ''i3'')]) False]\<rparr>]"
  using image_pruning [of
     "[\<lparr>role = System, content = Text ''s''\<rparr>,
      \<lparr>role = User, content = Blocks [ToolResultBlock ''t1'' (ResultBlocks [ImageBlock (JStr ''i1'')]) False]\<rparr>,
      \<lparr>role = Assistant, content = Text ''a''\<rparr>,
      \<lparr>role = User, content = Blocks [ToolResultBlock ''t2'' (ResultBlocks [ImageBlock (JStr ''i2''), TextBlock (JStr ''x'')]) False]\<rparr>,
      \<lparr>role = User, content = Blocks [ToolResultBlock ''t3'' (ResultBlocks [ImageBlock (JStr ''i3'')]) False]\<rparr>]"]
  by (simp add: handleHistoryImageMessages_def strip_message_def)


section \<open>The envelope\<close>

text \<open>
  C9: an invocation whose input object carries the fields \<open>observation\<close>, \<open>thinking\<close>,
  \<open>userSidePrompt\<close> and \<open>toolCall\<close> is unwrapped without an error into exactly these three
  wrapper values and an inner invocation with the same id and name whose input is the value
  under \<open>toolCall\<close>; and the schema wrapper keeps the name and the description of a
  definition, holds the original input schema unchanged under \<open>properties.toolCall\<close>, and
  requires the four fields.
\<close>

theorem envelope_round_trip:
  assumes "map_of kvs ''observation'' = Some ob"
    and "map_of kvs ''thinking'' = Some th"
    and "map_of kvs ''userSidePrompt'' = Some cap"
    and "map_of kvs ''toolCall'' = Some inner"
  shows "unwrapToolCall \<lparr>tc_id = i, tc_name = n, tc_input = JObj kvs\<rparr>
           = Inr \<lparr>observation = ob, thinking = th, userSidePrompt = cap,
                  toolCall = \<lparr>tc_id = i, tc_name = n, tc_input = inner\<rparr>\<rparr>
       \<and> td_name (wrapToolInputSchema d) = td_name d
       \<and> td_description (wrapToolInputSchema d) = td_description d
       \<and> (\<exists>props. prop_read (td_input_schema (wrapToolInputSchema d)) ''properties'' = Inr props
             \<and> prop_read props ''toolCall'' = Inr (td_input_schema d))
       \<and> prop_read (td_input_schema (wrapToolInputSchema d)) ''required''
           = Inr (JArr [JStr ''observation'', JStr ''thinking'', JStr ''userSidePrompt'', JStr ''toolCall''])"
  using assms by (simp add: unwrapToolCall_def wrapToolInputSchema_def envelope_schema_def)

theorem envelope_round_trip_witness:
  "unwrapToolCall \<lparr>tc_id = ''toolu_1'', tc_name = ''open_url'',
       tc_input = JObj [(''observation'', JStr ''In the previous step, I did nothing.''),
                        (''thinking'', JStr ''open the page''),
                        (''userSidePrompt'', JStr ''Opening x.com.''),
                        (''toolCall'', JObj [(''url'', JStr ''https://x.com'')])]\<rparr>
     = Inr \<lparr>observation = JStr ''In the previous step, I did nothing.'',
            thinking = JStr ''open the page'',
            userSidePrompt = JStr ''Opening x.com.'',
            toolCall = \<lparr>tc_id = ''toolu_1'', tc_name = ''open_url'',
                        tc_input = JObj [(''url'', JStr ''https://x.com'')]\<rparr>\<rparr>"
  using envelope_round_trip [of
      "[(''observation'', JStr ''In the previous step, I did nothing.''),
        (''thinking'', JStr ''open the page''),
        (''userSidePrompt'', JStr ''Opening x.com.''),
        (''toolCall'', JObj [(''url'', JStr ''https://x.com'')])]"
      "JStr ''In the previous step, I did nothing.''" "JStr ''open the page''" "JStr ''Opening x.com.''"
      "JObj [(''url'', JStr ''https://x.com'')]" "''toolu_1''" "''open_url''"]
  by simp

section \<open>One round and the loop: unfolding lemmas\<close>

lemma executeSingleRound_alt:
  "executeSingleRound P cb h params tm st =
     map_option (\<lambda>(r, st'). (r, st', store_after_round h params))
       (round_loop P cb (advertised_params h params) tm False st)"
  by (simp add: executeSingleRound_def advertised_params_def store_after_round_def Let_def split: prod.splits)

lemma round_loop_Leave:
  "\<not> signal_aborted (rs_context st) \<Longrightarrow> attempt P cb pc tm st = Leave r st'
     \<Longrightarrow> round_loop P cb pc tm u st = Some (r, st')"
  by (subst round_loop.simps) simp

lemma round_loop_aborted:
  "signal_aborted (rs_context st)
     \<Longrightarrow> round_loop P cb pc tm u st = Some (Inr \<lparr>response = None, hasToolUse = u, roundMessages = []\<rparr>, st)"
  by (subst round_loop.simps) simp

lemma round_loop_Continue:
  "\<not> signal_aborted (rs_context st) \<Longrightarrow> attempt P cb pc tm st = Continue u' st'
     \<Longrightarrow> round_loop P cb pc tm u st = round_loop P cb pc tm u' st'"
  by (subst round_loop.simps) simp

lemma loop_round_returns:
  assumes "roundCount < maxRounds A"
    and "\<not> signal_aborted (rs_context (ls_round st))"
    and "executeSingleRound (llmProvider A) cb (ls_heap st) params tm (ls_round st) = Some (Inr r, rs, h)"
  shows "loop A cb tm rt params roundCount st =
     (if \<not> hasToolUse r \<and> response r \<noteq> None
      then (case finish_only_round A cb rt params return_instruction (commit Regular r rs h (called Regular st)) of
              (ex, st2) \<Rightarrow> (ex, Suc roundCount, st2))
      else if calls_return_output (response r)
      then (Completed, Suc roundCount, commit Regular r rs h (called Regular st))
      else if Suc roundCount = maxRounds A
      then (case finish_only_round A cb rt params max_rounds_instruction (commit Regular r rs h (called Regular st)) of
              (Completed, st2) \<Rightarrow> loop A cb tm rt params (Suc roundCount) st2
            | (Raised e, st2) \<Rightarrow> (Raised e, Suc roundCount, st2)
            | (Unfinished, st2) \<Rightarrow> (Unfinished, Suc roundCount, st2))
      else loop A cb tm rt params (Suc roundCount) (commit Regular r rs h (called Regular st)))"
  using assms by (subst loop.simps) (simp add: Let_def)

lemma loop_exhausted:
  "\<not> roundCount < maxRounds A \<Longrightarrow> loop A cb tm rt params roundCount st = (Completed, roundCount, st)"
  by (subst loop.simps) simp


lemma attempt_tool_round:
  assumes "P = Some p"
    and "generateStream p (rs_context st) (handleHistoryImageMessages (rs_messages st)) pc
           = (Streamed chunks (Some call) resp, ctx1)"
    and "map_of tm (tc_name call) = Some tool"
    and "tool_execution cb tool call (st\<lparr>rs_messages := handleHistoryImageMessages (rs_messages st), rs_context := ctx1\<rparr>)
           = (toolResult, st2)"
  shows "attempt P cb pc tm st =
           finish_attempt (assistantTextMessage chunks) (Some (toolUseMessage call (tool_name tool)))
             (Some toolResult) resp True st2"
  using assms by (simp add: attempt_def Let_def)

lemma attempt_unknown_tool:
  assumes "P = Some p"
    and "generateStream p (rs_context st) (handleHistoryImageMessages (rs_messages st)) pc
           = (Streamed chunks (Some call) resp, ctx1)"
    and "map_of tm (tc_name call) = None"
  shows "attempt P cb pc tm st =
           (if propagates_rejection p
            then Continue True (st\<lparr>rs_messages := handleHistoryImageMessages (rs_messages st), rs_context := ctx1\<rparr>)
            else finish_attempt (assistantTextMessage chunks) (Some (toolUseMessage call (tc_name call)))
                   (Some (notFoundMessage call)) resp True
                   (st\<lparr>rs_messages := handleHistoryImageMessages (rs_messages st), rs_context := ctx1\<rparr>))"
  using assms by (simp add: attempt_def Let_def)

lemma tool_execution_throws:
  "tool_try cb tool call st = (Inl err, st') \<Longrightarrow> tool_execution cb tool call st = (errorResult call err, st')"
  by (simp add: tool_execution_def)

lemma tool_execution_ok:
  "tool_try cb tool call st = (Inr m, st') \<Longrightarrow> tool_execution cb tool call st = (m, st')"
  by (simp add: tool_execution_def)

text \<open>
  A round in which the stream announces a call of a name the tool map does not hold, with a
  transport that drops the rejection of \<open>onToolUse\<close> and no cancellation flagged: the round
  returns with the messages text (if any), \<open>tool_use\<close>, and the \<open>tool_result\<close>
  \<open>Error: `name` tool not found.\<close>; the loop commits them to the history and goes on as
  after any round with an invocation.
\<close>


lemma unknown_tool_with_dropped_rejection:
  assumes "roundCount < maxRounds A"
    and "\<not> signal_aborted (rs_context (ls_round st))"
    and "llmProvider A = Some p"
    and "\<not> propagates_rejection p"
    and "generateStream p (rs_context (ls_round st)) (handleHistoryImageMessages (rs_messages (ls_round st)))
             (advertised_params (ls_heap st) params)
           = (Streamed chunks (Some call) resp, ctx1)"
    and "map_of toolMap (tc_name call) = None"
    and "\<not> ctx_abort ctx1"
    and "r = \<lparr>response = resp, hasToolUse = True,
              roundMessages =
                (if assistantTextMessage chunks \<noteq> []
                 then [\<lparr>role = Assistant, content = Text (assistantTextMessage chunks)\<rparr>] else [])
                @ [\<lparr>role = Assistant, content = Blocks [ToolUseBlock (tc_id call) (tc_name call) (tc_input call)]\<rparr>,
                   \<lparr>role = User, content = Blocks [ToolResultBlock (tc_id call)
                       (ResultString (''Error: `'' @ tc_name call @ ''` tool not found.'')) False]\<rparr>]\<rparr>"
    and "rs = (ls_round st)\<lparr>rs_messages := handleHistoryImageMessages (rs_messages (ls_round st)), rs_context := ctx1\<rparr>"
    and "st1 = commit Regular r rs (store_after_round (ls_heap st) params) (called Regular st)"
  shows "executeSingleRound (llmProvider A) cb (ls_heap st) params toolMap (ls_round st)
           = Some (Inr r, rs, store_after_round (ls_heap st) params)
       \<and> rs_messages (ls_round st1) = handleHistoryImageMessages (rs_messages (ls_round st)) @ roundMessages r
       \<and> loop A cb toolMap returnTool params roundCount st =
           (if calls_return_output resp then (Completed, Suc roundCount, st1)
            else if Suc roundCount = maxRounds A
            then (case finish_only_round A cb returnTool params max_rounds_instruction st1 of
                    (Completed, st2) \<Rightarrow> loop A cb toolMap returnTool params (Suc roundCount) st2
                  | (Raised e, st2) \<Rightarrow> (Raised e, Suc roundCount, st2)
                  | (Unfinished, st2) \<Rightarrow> (Unfinished, Suc roundCount, st2))
            else loop A cb toolMap returnTool params (Suc roundCount) st1)"
proof -
  have att: "attempt (llmProvider A) cb (advertised_params (ls_heap st) params) toolMap (ls_round st)
               = Leave (Inr r) rs"
    using assms(4,7,8,9)
    by (simp add: attempt_unknown_tool [OF assms(3) assms(5) assms(6)] finish_attempt_def
          toolUseMessage_def notFoundMessage_def)
  have round: "executeSingleRound (llmProvider A) cb (ls_heap st) params toolMap (ls_round st)
           = Some (Inr r, rs, store_after_round (ls_heap st) params)"
    by (simp add: executeSingleRound_alt round_loop_Leave [OF assms(2) att])
  have used: "hasToolUse r" and resp: "response r = resp"
    using assms(8) by simp_all
  have msgs: "rs_messages (ls_round st1) = handleHistoryImageMessages (rs_messages (ls_round st)) @ roundMessages r"
    using assms(9,10) by (simp add: commit_def)
  show ?thesis
    using round msgs loop_round_returns [OF assms(1) assms(2) round, of returnTool] used resp assms(10)
    by simp
qed

text \<open>
  With a transport that lets the rejection of \<open>onToolUse\<close> reject \<open>generateStream\<close>, the
  same round is discarded and retried.
\<close>

lemma unknown_tool_is_retried:
  assumes "\<not> signal_aborted (rs_context st)"
    and "P = Some p"
    and "propagates_rejection p"
    and "generateStream p (rs_context st) (handleHistoryImageMessages (rs_messages st)) pc
           = (Streamed chunks (Some call) resp, ctx1)"
    and "map_of tm (tc_name call) = None"
  shows "round_loop P cb pc tm u st =
           round_loop P cb pc tm True (st\<lparr>rs_messages := handleHistoryImageMessages (rs_messages st), rs_context := ctx1\<rparr>)"
  using assms(3) by (simp add: round_loop_Continue [OF assms(1)] attempt_unknown_tool [OF assms(2) assms(4) assms(5)])

text \<open>
  C7 (the code at a failing input): the model calls \<open>nope\<close>, a name the tool map does not
  hold, and the transport is one in which a throw of \<open>onToolUse\<close> ends the stream.
  \<open>onToolUse\<close> builds the \<open>tool_use\<close> message and the \<open>tool_result\<close>
  \<open>Error: `nope` tool not found.\<close> and then throws; the \<open>catch\<close> around \<open>generateStream\<close>
  discards the attempt and the round starts again. The round that returns is the second
  attempt, a text: its messages hold no \<open>tool_use\<close> and no \<open>tool_result\<close>, \<open>hasToolUse\<close> is
  false, the history is as before the round, and the transport was called twice.
\<close>

theorem unknown_tool_round_is_discarded:
  "(case executeSingleRound
           (Some (awaiting_provider [one_call (tool_call_of ''t1'' ''nope'' (JObj [])), text_only ''hi'']))
           None demo_heap 0 demo_toolMap (ls_round demo_state) of
      Some (Inr r, rs, h) \<Rightarrow> (hasToolUse r, roundMessages r, world (rs_context rs), rs_messages rs)
    | _ \<Rightarrow> (True, [], 0, []))
   = (False, [\<lparr>role = Assistant, content = Text ''hi''\<rparr>], 2,
      [\<lparr>role = System, content = Text ''system''\<rparr>, \<lparr>role = User, content = Text ''task''\<rparr>])"
  by code_simp

lemma new_params_at:
  "new_params h c ds = (h1, p) \<Longrightarrow>
     params_objs h1 ! p = \<lparr>po_config = c, po_tools = Some [length (def_objs h) ..< length (def_objs h) + length ds]\<rparr>"
  by (auto simp: new_params_def)

lemma new_params_defs:
  "new_params h c ds = (h1, p) \<Longrightarrow> def_objs h1 = def_objs h @ ds"
  by (auto simp: new_params_def)

lemma advertised_returnOnlyParams:
  assumes "returnOnlyParams h params rt = (h1, only)"
  shows "lp_tools (advertised_params h1 only) = Some [wrapToolInputSchema (clone_definition (definition_of rt))]"
proof -
  from assms have np: "new_params h (po_config (params_objs h ! params)) [definition_of rt] = (h1, only)"
    by (simp add: returnOnlyParams_def)
  have po: "params_objs h1 ! only = \<lparr>po_config = po_config (params_objs h ! params),
                po_tools = Some [length (def_objs h) ..< length (def_objs h) + 1]\<rparr>"
    using new_params_at [OF np] by simp
  have ds: "def_objs h1 = def_objs h @ [definition_of rt]"
    using new_params_defs [OF np] by simp
  show ?thesis
    by (simp add: advertised_params_def JSON_copy_params_def Let_def po ds wrap_tools_def
        read_params_def wrapToolInputSchema_at_def nth_append)
qed


lemma finish_only_round_unfold:
  assumes "returnOnlyParams (ls_heap st) params rt = (h1, only)"
  shows "finish_only_round A cb rt params instruction st =
     (case executeSingleRound (llmProvider A) cb h1 only [(tool_name rt, rt)]
             (push_instruction instruction (ls_round st)) of
        None \<Rightarrow> (Unfinished, called FinishOnly (st\<lparr>ls_round := push_instruction instruction (ls_round st), ls_heap := h1\<rparr>))
      | Some (Inl e, rs2, h2) \<Rightarrow>
          (Raised e, (called FinishOnly (st\<lparr>ls_round := push_instruction instruction (ls_round st), ls_heap := h1\<rparr>))
                       \<lparr>ls_round := rs2, ls_heap := h2\<rparr>)
      | Some (Inr r, rs2, h2) \<Rightarrow>
          (Completed, commit FinishOnly r rs2 h2
             (called FinishOnly (st\<lparr>ls_round := push_instruction instruction (ls_round st), ls_heap := h1\<rparr>))))"
  using assms by (simp add: finish_only_round_def Let_def)

lemma finish_only_round_trace:
  assumes "finish_only_round A cb rt params instruction st = (ex, st')"
  shows "ls_calls st' = ls_calls st @ [FinishOnly]
       \<and> (ex = Completed \<and> ls_committed st' = ls_committed st @ [FinishOnly]
          \<or> ex \<noteq> Completed \<and> ls_committed st' = ls_committed st)"
proof -
  obtain h1 only where ro: "returnOnlyParams (ls_heap st) params rt = (h1, only)"
    by (cases "returnOnlyParams (ls_heap st) params rt")
  show ?thesis
    using assms unfolding finish_only_round_unfold [OF ro]
    by (auto simp: called_def commit_def split: option.splits sum.splits prod.splits)
qed

text \<open>
  C8: a regular round that returns a response and no invocation: the loop pushes the
  instruction to call \<open>return_output\<close> after the round's messages, runs one more round, whose
  tool map holds the finish tool alone and whose parameters advertise the finish tool
  alone, and ends whatever that round does: with its messages pushed when it returns, by its
  throw when it throws, never when it never returns. \<open>roundCount\<close> is raised once, and the
  calls of \<open>executeSingleRound\<close> are this regular round and the finish-only round.
\<close>

theorem text_only_round_forces_finish:
  assumes "roundCount < maxRounds A"
    and "\<not> signal_aborted (rs_context (ls_round st))"
    and "executeSingleRound (llmProvider A) cb (ls_heap st) params toolMap (ls_round st) = Some (Inr r, rs, h)"
    and "\<not> hasToolUse r"
    and "response r = Some resp"
    and "returnOnlyParams h params returnTool = (h1, only)"
    and "rs1 = push_instruction return_instruction (rs\<lparr>rs_messages := rs_messages rs @ roundMessages r\<rparr>)"
    and "st1 = called FinishOnly ((commit Regular r rs h (called Regular st))\<lparr>ls_round := rs1, ls_heap := h1\<rparr>)"
    and "result = loop A cb toolMap returnTool params roundCount st"
  shows "result =
          (case executeSingleRound (llmProvider A) cb h1 only [(tool_name returnTool, returnTool)] rs1 of
             None \<Rightarrow> (Unfinished, Suc roundCount, st1)
           | Some (Inl e, rs2, h2) \<Rightarrow> (Raised e, Suc roundCount, st1\<lparr>ls_round := rs2, ls_heap := h2\<rparr>)
           | Some (Inr r2, rs2, h2) \<Rightarrow> (Completed, Suc roundCount, commit FinishOnly r2 rs2 h2 st1))
       \<and> rs_messages rs1 = rs_messages rs @ roundMessages r
            @ [\<lparr>role = User, content = Text ''Please process the above information and return a final result using the return_output tool.''\<rparr>]
       \<and> lp_tools (advertised_params h1 only) = Some [wrapToolInputSchema (clone_definition (definition_of returnTool))]
       \<and> fst (snd result) = Suc roundCount
       \<and> ls_calls (snd (snd result)) = ls_calls st @ [Regular, FinishOnly]
       \<and> (\<forall>r2 rs2 h2.
             executeSingleRound (llmProvider A) cb h1 only [(tool_name returnTool, returnTool)] rs1 = Some (Inr r2, rs2, h2)
             \<longrightarrow> fst result = Completed
                 \<and> rs_messages (ls_round (snd (snd result))) = rs_messages rs2 @ roundMessages r2
                 \<and> ls_committed (snd (snd result)) = ls_committed st @ [Regular, FinishOnly])"
proof -
  let ?c = "commit Regular r rs h (called Regular st)"
  have heap: "ls_heap ?c = h" and rnd: "ls_round ?c = rs\<lparr>rs_messages := rs_messages rs @ roundMessages r\<rparr>"
    by (simp_all add: commit_def)
  have ro: "returnOnlyParams (ls_heap ?c) params returnTool = (h1, only)"
    using assms(6) heap by simp
  have eq: "result =
          (case executeSingleRound (llmProvider A) cb h1 only [(tool_name returnTool, returnTool)] rs1 of
             None \<Rightarrow> (Unfinished, Suc roundCount, st1)
           | Some (Inl e, rs2, h2) \<Rightarrow> (Raised e, Suc roundCount, st1\<lparr>ls_round := rs2, ls_heap := h2\<rparr>)
           | Some (Inr r2, rs2, h2) \<Rightarrow> (Completed, Suc roundCount, commit FinishOnly r2 rs2 h2 st1))"
    using assms(4,5,7,8,9) rnd
    by (simp add: loop_round_returns [OF assms(1) assms(2) assms(3)] finish_only_round_unfold [OF ro]
          split: option.splits sum.splits prod.splits)
  have calls: "ls_calls st1 = ls_calls st @ [Regular, FinishOnly]"
    and comm: "ls_committed st1 = ls_committed st @ [Regular]"
    using assms(8) by (simp_all add: called_def commit_def)
  show ?thesis
    using assms(7) calls comm advertised_returnOnlyParams [OF assms(6)]
    unfolding eq
    by (auto simp: push_instruction_def return_instruction_def commit_def split: option.splits sum.splits prod.splits)
qed

lemma trace_stepI:
  "calls' = calls @ new \<Longrightarrow> new = replicate d Regular \<or> new = replicate d Regular @ [FinishOnly]
     \<Longrightarrow> comm' = comm @ kept \<Longrightarrow> new = kept @ rest \<Longrightarrow> length rest \<le> 1
     \<Longrightarrow> trace_step calls calls' comm comm' d"
  unfolding trace_step_def by blast

lemma trace_step_Cons:
  assumes "trace_step (calls @ [Regular]) calls' (comm @ [Regular]) comm' d"
  shows "trace_step calls calls' comm comm' (Suc d)"
proof -
  from assms obtain new kept rest where
    "calls' = (calls @ [Regular]) @ new"
    "new = replicate d Regular \<or> new = replicate d Regular @ [FinishOnly]"
    "comm' = (comm @ [Regular]) @ kept" "new = kept @ rest" "length rest \<le> 1"
    unfolding trace_step_def by blast
  then show ?thesis
    by (intro trace_stepI [where new = "Regular # new" and kept = "Regular # kept" and rest = rest]) auto
qed

lemma loop_trace:
  "maxRounds A - n = k \<Longrightarrow> n \<le> maxRounds A \<Longrightarrow> loop A cb tm rt p n st = (ex, n', st') \<Longrightarrow>
     n \<le> n' \<and> n' \<le> maxRounds A
     \<and> trace_step (ls_calls st) (ls_calls st') (ls_committed st) (ls_committed st') (n' - n)"
proof (induction k arbitrary: n st ex n' st')
  case 0
  then have "\<not> n < maxRounds A" by simp
  from loop_exhausted [OF this, of cb tm rt p st] 0(2,3) show ?case
    by (auto intro: trace_stepI [where new = "[]" and kept = "[]" and rest = "[]"])
next
  case (Suc k)
  then have lt: "n < maxRounds A" by simp
  show ?case
  proof (cases "signal_aborted (rs_context (ls_round st))")
    case True
    with lt Suc.prems(3) have "n' = n" "st' = st"
      by (subst (asm) loop.simps, simp)+
    with lt show ?thesis
      by (auto intro: trace_stepI [where new = "[]" and kept = "[]" and rest = "[]"])
  next
    case na: False
    show ?thesis
    proof (cases "executeSingleRound (llmProvider A) cb (ls_heap st) p tm (ls_round st)")
      case None
      with lt na Suc.prems(3) have "n' = Suc n" "st' = called Regular st"
        by (subst (asm) loop.simps, simp)+
      with lt show ?thesis
        by (auto simp: called_def intro: trace_stepI [where new = "[Regular]" and kept = "[]" and rest = "[Regular]"])
    next
      case (Some res)
      obtain out rs h where res: "res = (out, rs, h)" by (cases res)
      show ?thesis
      proof (cases out)
        case (Inl e)
        with Some res lt na Suc.prems(3)
        have "n' = Suc n" "st' = (called Regular st)\<lparr>ls_round := rs, ls_heap := h\<rparr>"
          by (subst (asm) loop.simps, simp)+
        with lt show ?thesis
          by (auto simp: called_def intro: trace_stepI [where new = "[Regular]" and kept = "[]" and rest = "[Regular]"])
      next
        case (Inr r)
        let ?c = "commit Regular r rs h (called Regular st)"
        have c_calls: "ls_calls ?c = ls_calls st @ [Regular]"
          and c_comm: "ls_committed ?c = ls_committed st @ [Regular]"
          by (simp_all add: commit_def called_def)
        have round: "executeSingleRound (llmProvider A) cb (ls_heap st) p tm (ls_round st) = Some (Inr r, rs, h)"
          using Some res Inr by simp
        note eq = loop_round_returns [OF lt na round, of rt]
        have fin_case: "n \<le> Suc n \<and> Suc n \<le> maxRounds A
              \<and> trace_step (ls_calls st) (ls_calls st2) (ls_committed st) (ls_committed st2) (Suc n - n)"
          if f: "finish_only_round A cb rt p instr ?c = (ex2, st2)" for instr ex2 st2
        proof (cases "ex2 = Completed")
          case True
          with finish_only_round_trace [OF f] c_calls c_comm lt show ?thesis
            by (auto intro: trace_stepI [where new = "[Regular, FinishOnly]" and kept = "[Regular, FinishOnly]" and rest = "[]"])
        next
          case False
          with finish_only_round_trace [OF f] c_calls c_comm lt show ?thesis
            by (auto intro: trace_stepI [where new = "[Regular, FinishOnly]" and kept = "[Regular]" and rest = "[FinishOnly]"])
        qed
        consider (textonly) "\<not> hasToolUse r \<and> response r \<noteq> None"
          | (finished) "\<not> (\<not> hasToolUse r \<and> response r \<noteq> None)" "calls_return_output (response r)"
          | (atmax) "\<not> (\<not> hasToolUse r \<and> response r \<noteq> None)" "\<not> calls_return_output (response r)" "Suc n = maxRounds A"
          | (go) "\<not> (\<not> hasToolUse r \<and> response r \<noteq> None)" "\<not> calls_return_output (response r)" "Suc n \<noteq> maxRounds A"
          by blast
        then show ?thesis
        proof cases
          case textonly
          obtain ex2 st2 where f: "finish_only_round A cb rt p return_instruction ?c = (ex2, st2)"
            by (cases "finish_only_round A cb rt p return_instruction ?c")
          from Suc.prems(3) eq textonly f have r: "n' = Suc n" "st' = st2" by auto
          from fin_case [OF f] r show ?thesis by simp
        next
          case finished
          with Suc.prems(3) eq have "n' = Suc n" "st' = ?c" by auto
          with c_calls c_comm lt show ?thesis
            by (auto intro: trace_stepI [where new = "[Regular]" and kept = "[Regular]" and rest = "[]"])
        next
          case atmax
          obtain ex2 st2 where f: "finish_only_round A cb rt p max_rounds_instruction ?c = (ex2, st2)"
            by (cases "finish_only_round A cb rt p max_rounds_instruction ?c")
          have ex: "loop A cb tm rt p (Suc n) st2 = (Completed, Suc n, st2)"
            using atmax(3) by (simp add: loop_exhausted)
          from Suc.prems(3) eq atmax f ex have r: "n' = Suc n" "st' = st2"
            by (cases ex2; auto)+
          from fin_case [OF f] r show ?thesis by simp
        next
          case go
          with Suc.prems(3) eq have rec: "loop A cb tm rt p (Suc n) ?c = (ex, n', st')" by auto
          have "maxRounds A - Suc n = k" "Suc n \<le> maxRounds A" using Suc.prems(1) lt by auto
          from Suc.IH [OF this rec] have
            b: "Suc n \<le> n'" "n' \<le> maxRounds A"
            and t: "trace_step (ls_calls st @ [Regular]) (ls_calls st') (ls_committed st @ [Regular]) (ls_committed st') (n' - Suc n)"
            by (simp_all add: c_calls c_comm)
          from b have d: "n' - n = Suc (n' - Suc n)" by simp
          show ?thesis
            using b trace_step_Cons [OF t] d by simp
        qed
      qed
    qed
  qed
qed

section \<open>A throw in the execution of a tool\<close>

lemma tool_try_messages:
  "rs_messages (snd (tool_try cb tool call st)) = rs_messages st"
  unfolding tool_try_def
  by (auto split: prod.splits sum.splits option.splits if_splits)

lemma loop_counts_first:
  assumes lt: "n < maxRounds A"
    and na: "\<not> signal_aborted (rs_context (ls_round st))"
    and l: "loop A cb tm rt p n st = (ex, n', st')"
  shows "Suc n \<le> n'"
proof (cases "executeSingleRound (llmProvider A) cb (ls_heap st) p tm (ls_round st)")
  case None
  with lt na l show ?thesis
    by (subst (asm) loop.simps) simp
next
  case (Some res)
  obtain out rs h where res: "res = (out, rs, h)" by (cases res)
  show ?thesis
  proof (cases out)
    case (Inl e)
    with Some res lt na l show ?thesis
      by (subst (asm) loop.simps) simp
  next
    case (Inr r)
    let ?c = "commit Regular r rs h (called Regular st)"
    have round: "executeSingleRound (llmProvider A) cb (ls_heap st) p tm (ls_round st) = Some (Inr r, rs, h)"
      using Some res Inr by simp
    note eq = loop_round_returns [OF lt na round, of rt]
    consider (textonly) "\<not> hasToolUse r \<and> response r \<noteq> None"
      | (finished) "\<not> (\<not> hasToolUse r \<and> response r \<noteq> None)" "calls_return_output (response r)"
      | (atmax) "\<not> (\<not> hasToolUse r \<and> response r \<noteq> None)" "\<not> calls_return_output (response r)" "Suc n = maxRounds A"
      | (go) "\<not> (\<not> hasToolUse r \<and> response r \<noteq> None)" "\<not> calls_return_output (response r)" "Suc n \<noteq> maxRounds A"
      by blast
    then show ?thesis
    proof cases
      case textonly
      with l eq show ?thesis by (auto split: prod.splits)
    next
      case finished
      with l eq show ?thesis by auto
    next
      case atmax
      with l eq show ?thesis
        by (auto simp: loop_exhausted split: prod.splits loop_exit.splits)
    next
      case go
      with l eq have rec: "loop A cb tm rt p (Suc n) ?c = (ex, n', st')" by auto
      have "Suc n \<le> maxRounds A" using lt by simp
      from loop_trace [OF refl this rec] show ?thesis by simp
    qed
  qed
qed

lemma loop_first_call:
  assumes lt: "n < maxRounds A"
    and na: "\<not> signal_aborted (rs_context (ls_round st))"
  shows "\<exists>more. ls_calls (snd (snd (loop A cb tm rt p n st))) = ls_calls st @ Regular # more"
proof -
  obtain ex n' st' where l: "loop A cb tm rt p n st = (ex, n', st')"
    by (cases "loop A cb tm rt p n st")
  from loop_counts_first [OF lt na l] have d: "n' - n = Suc (n' - Suc n)" by simp
  have "n \<le> maxRounds A" using lt by simp
  from loop_trace [OF refl this l] obtain new where
    c: "ls_calls st' = ls_calls st @ new"
    and n: "new = replicate (n' - n) Regular \<or> new = replicate (n' - n) Regular @ [FinishOnly]"
    unfolding trace_step_def by blast
  from n d obtain more where "new = Regular # more" by auto
  with c l show ?thesis by simp
qed

text \<open>
  C3 (amended): a round of the loop in which the stream announces a call of a tool the map
  holds, the \<open>try\<close> block of its execution throws an \<open>Error\<close> with message \<open>m\<close> (from the
  before hook, the tool's \<open>execute\<close>, the after hook, or another step of the block), and the
  abort flag is not set when the execution has settled. The round returns (the exception does
  not leave it) with the messages text (if any), \<open>tool_use\<close>, and a \<open>tool_result\<close> with
  \<open>is_error = true\<close> and the text \<open>Error: m\<close>, and the loop pushes them to the history.
  When the response of the round lists a call of \<open>return_output\<close>, the loop ends there, with
  this round as its last call. Otherwise the run goes on: below the budget the loop continues
  from the state with the round committed, and its next call of \<open>executeSingleRound\<close> is a
  regular round, unless the signal was aborted in the meantime, which ends the run with
  \<open>Workflow cancelled\<close>; at the budget the finish-only round is run from that state, and
  is the last call.
\<close>

theorem tool_error_is_recovered:
  assumes "roundCount < maxRounds A"
    and "\<not> signal_aborted (rs_context (ls_round st))"
    and "llmProvider A = Some p"
    and "generateStream p (rs_context (ls_round st)) (handleHistoryImageMessages (rs_messages (ls_round st)))
             (advertised_params (ls_heap st) params)
           = (Streamed chunks (Some call) resp, ctx1)"
    and "map_of toolMap (tc_name call) = Some tool"
    and "tool_try cb tool call
             ((ls_round st)\<lparr>rs_messages := handleHistoryImageMessages (rs_messages (ls_round st)), rs_context := ctx1\<rparr>)
           = (Inl (Error m), rs)"
    and "\<not> ctx_abort (rs_context rs)"
    and "msgs = (if assistantTextMessage chunks \<noteq> []
                 then [\<lparr>role = Assistant, content = Text (assistantTextMessage chunks)\<rparr>] else [])
                @ [\<lparr>role = Assistant, content = Blocks [ToolUseBlock (tc_id call) (tool_name tool) (tc_input call)]\<rparr>,
                   \<lparr>role = User, content = Blocks [ToolResultBlock (tc_id call)
                       (ResultBlocks [TextBlock (JStr (''Error: '' @ m))]) True]\<rparr>]"
    and "st1 = st\<lparr>ls_round := rs\<lparr>rs_messages := handleHistoryImageMessages (rs_messages (ls_round st)) @ msgs\<rparr>,
                   ls_heap := store_after_round (ls_heap st) params,
                   ls_calls := ls_calls st @ [Regular],
                   ls_committed := ls_committed st @ [Regular]\<rparr>"
    and "result = loop A cb toolMap returnTool params roundCount st"
  shows "executeSingleRound (llmProvider A) cb (ls_heap st) params toolMap (ls_round st)
           = Some (Inr \<lparr>response = resp, hasToolUse = True, roundMessages = msgs\<rparr>, rs,
                   store_after_round (ls_heap st) params)
       \<and> (calls_return_output resp \<longrightarrow> result = (Completed, Suc roundCount, st1))
       \<and> (\<not> calls_return_output resp \<and> Suc roundCount < maxRounds A \<longrightarrow>
             result = loop A cb toolMap returnTool params (Suc roundCount) st1
             \<and> (signal_aborted (rs_context rs) \<longrightarrow>
                   result = (Raised (Error ''Workflow cancelled''), Suc roundCount, st1))
             \<and> (\<not> signal_aborted (rs_context rs) \<longrightarrow>
                   (\<exists>more. ls_calls (snd (snd result)) = ls_calls st @ [Regular, Regular] @ more)))
       \<and> (\<not> calls_return_output resp \<and> Suc roundCount = maxRounds A \<longrightarrow>
             result = (case finish_only_round A cb returnTool params max_rounds_instruction st1 of
                         (ex, st2) \<Rightarrow> (ex, Suc roundCount, st2))
             \<and> fst (snd result) = Suc roundCount
             \<and> ls_calls (snd (snd result)) = ls_calls st @ [Regular, FinishOnly])"
proof -
  let ?st0 = "(ls_round st)\<lparr>rs_messages := handleHistoryImageMessages (rs_messages (ls_round st)), rs_context := ctx1\<rparr>"
  let ?r = "\<lparr>response = resp, hasToolUse = True, roundMessages = msgs\<rparr>"
  let ?h = "store_after_round (ls_heap st) params"
  have ex: "tool_execution cb tool call ?st0 = (errorResult call (Error m), rs)"
    using assms(6) by (rule tool_execution_throws)
  have att: "attempt (llmProvider A) cb (advertised_params (ls_heap st) params) toolMap (ls_round st)
               = Leave (Inr ?r) rs"
    using assms(7,8)
    by (simp add: attempt_tool_round [OF assms(3) assms(4) assms(5) ex] finish_attempt_def
          toolUseMessage_def errorResult_def errorMessage_def)
  have round: "executeSingleRound (llmProvider A) cb (ls_heap st) params toolMap (ls_round st)
           = Some (Inr ?r, rs, ?h)"
    by (simp add: executeSingleRound_alt round_loop_Leave [OF assms(2) att])
  have kept: "rs_messages rs = handleHistoryImageMessages (rs_messages (ls_round st))"
    using tool_try_messages [of cb tool call ?st0] assms(6) by simp
  have c: "commit Regular ?r rs ?h (called Regular st) = st1"
    using assms(9) kept by (simp add: commit_def called_def)
  note eq = loop_round_returns [OF assms(1) assms(2) round, of returnTool, unfolded c]
  have fin: "result = (Completed, Suc roundCount, st1)" if "calls_return_output resp"
    using that eq assms(10) by simp
  have go: "result = loop A cb toolMap returnTool params (Suc roundCount) st1"
    if "\<not> calls_return_output resp" "Suc roundCount < maxRounds A"
    using that eq assms(10) by simp
  have ctx1: "rs_context (ls_round st1) = rs_context rs" and calls1: "ls_calls st1 = ls_calls st @ [Regular]"
    using assms(9) by simp_all
  have cancelled: "result = (Raised (Error ''Workflow cancelled''), Suc roundCount, st1)"
    if "\<not> calls_return_output resp" "Suc roundCount < maxRounds A" "signal_aborted (rs_context rs)"
    unfolding go [OF that(1,2)] using that(2,3) ctx1 by (subst loop.simps) simp
  have next_round: "\<exists>more. ls_calls (snd (snd result)) = ls_calls st @ [Regular, Regular] @ more"
    if "\<not> calls_return_output resp" "Suc roundCount < maxRounds A" "\<not> signal_aborted (rs_context rs)"
  proof -
    from that(3) ctx1 have na: "\<not> signal_aborted (rs_context (ls_round st1))" by simp
    from loop_first_call [OF that(2) na, of cb toolMap returnTool params]
    show ?thesis unfolding go [OF that(1,2)] calls1 by simp
  qed
  have forced: "result = (case finish_only_round A cb returnTool params max_rounds_instruction st1 of
                         (ex, st2) \<Rightarrow> (ex, Suc roundCount, st2))
             \<and> fst (snd result) = Suc roundCount
             \<and> ls_calls (snd (snd result)) = ls_calls st @ [Regular, FinishOnly]"
    if "\<not> calls_return_output resp" "Suc roundCount = maxRounds A"
  proof -
    obtain ex2 st2 where f: "finish_only_round A cb returnTool params max_rounds_instruction st1 = (ex2, st2)"
      by (cases "finish_only_round A cb returnTool params max_rounds_instruction st1")
    have stop: "loop A cb toolMap returnTool params (Suc roundCount) st2 = (Completed, Suc roundCount, st2)"
      using that(2) by (simp add: loop_exhausted)
    from that eq assms(10) f stop have r: "result = (ex2, Suc roundCount, st2)"
      by (cases ex2) simp_all
    with finish_only_round_trace [OF f] calls1 f show ?thesis by simp
  qed
  show ?thesis
    using round fin go cancelled next_round forced by blast
qed

section \<open>What is written to the tool result cache\<close>

lemma recorded_step_refl: "recorded_step s s"
  unfolding recorded_step_def by (rule exI [of _ "[]"]) simp

lemma recorded_step_same:
  "rs_recorded s' = rs_recorded s \<Longrightarrow> rs_toolResults s' = rs_toolResults s \<Longrightarrow> recorded_step s s'"
  unfolding recorded_step_def by (rule exI [of _ "[]"]) simp

lemma recorded_step_trans:
  assumes "recorded_step a b" and "recorded_step b c"
  shows "recorded_step a c"
proof -
  from assms obtain n1 n2 where
    1: "rs_recorded b = rs_recorded a @ n1"
       "rs_toolResults b = fold (\<lambda>e m. Map_set m (fst e) (snd e)) n1 (rs_toolResults a)"
       "list_all (\<lambda>e. \<exists>t. snd e = JStr t) n1"
    and 2: "rs_recorded c = rs_recorded b @ n2"
       "rs_toolResults c = fold (\<lambda>e m. Map_set m (fst e) (snd e)) n2 (rs_toolResults b)"
       "list_all (\<lambda>e. \<exists>t. snd e = JStr t) n2"
    unfolding recorded_step_def by blast
  show ?thesis
    unfolding recorded_step_def
    by (rule exI [of _ "n1 @ n2"]) (simp add: 1 2)
qed

lemma resultContentText_is_string:
  "truncate_value result = Inr logged \<Longrightarrow> \<exists>t. resultContentText result = JStr t"
  by (auto simp: truncate_value_def resultContentText_def stringify_value_def split: option.splits)

lemma tool_try_recorded:
  assumes "tool_try cb tool call st = (x, st')"
  shows "recorded_step st st'"
proof (cases "\<exists>(call1 :: tool_call) result logged ctx5.
          truncate_value result = Inr logged \<and> tool_name tool \<noteq> ''return_output''
          \<and> st' = st\<lparr>rs_context := ctx5,
                      rs_toolResults := Map_set (rs_toolResults st) (tc_id call1) (resultContentText result),
                      rs_recorded := rs_recorded st @ [(tc_id call1, resultContentText result)]\<rparr>")
  case True
  then obtain call1 :: tool_call and result logged ctx5 where
    t: "truncate_value result = Inr logged"
    and s: "st' = st\<lparr>rs_context := ctx5,
                      rs_toolResults := Map_set (rs_toolResults st) (tc_id call1) (resultContentText result),
                      rs_recorded := rs_recorded st @ [(tc_id call1, resultContentText result)]\<rparr>"
    by blast
  from resultContentText_is_string [OF t] obtain tx where "resultContentText result = JStr tx" ..
  then show ?thesis
    unfolding recorded_step_def s
    by (intro exI [of _ "[(tc_id call1, resultContentText result)]"]) simp
next
  case False
  with assms have "rs_recorded st' = rs_recorded st \<and> rs_toolResults st' = rs_toolResults st"
    unfolding tool_try_def
    by (auto split: prod.splits sum.splits option.splits if_splits)
  then show ?thesis by (simp add: recorded_step_same)
qed

lemma finish_attempt_state:
  "finish_attempt t a b resp u st = Leave r st' \<Longrightarrow> st' = st"
  by (auto simp: finish_attempt_def split: if_splits)

lemma attempt_recorded:
  "(attempt P cb pc tm st = Continue u st' \<longrightarrow> recorded_step st st')
   \<and> (attempt P cb pc tm st = Leave r st' \<longrightarrow> recorded_step st st')"
proof (cases P)
  case None
  then show ?thesis
    by (auto simp: attempt_def Let_def intro: recorded_step_same)
next
  case (Some p)
  let ?st1 = "st\<lparr>rs_messages := handleHistoryImageMessages (rs_messages st)\<rparr>"
  obtain a ctx1 where g: "generateStream p (rs_context ?st1) (rs_messages ?st1) pc = (a, ctx1)"
    by (cases "generateStream p (rs_context ?st1) (rs_messages ?st1) pc")
  show ?thesis
  proof (cases a)
    case Failed
    with Some g show ?thesis
      by (auto simp: attempt_def Let_def intro: recorded_step_same)
  next
    case (Streamed chunks tco resp)
    show ?thesis
    proof (cases tco)
      case None
      with Some g Streamed show ?thesis
        by (auto simp: attempt_def Let_def finish_attempt_def intro: recorded_step_same split: if_splits)
    next
      case call: (Some call)
      show ?thesis
      proof (cases "map_of tm (tc_name call)")
        case None
        with Some g Streamed call show ?thesis
          by (auto simp: attempt_def Let_def finish_attempt_def intro: recorded_step_same split: if_splits)
      next
        case tool: (Some tool)
        obtain x st2 where t: "tool_try cb tool call (?st1\<lparr>rs_context := ctx1\<rparr>) = (x, st2)"
          by (cases "tool_try cb tool call (?st1\<lparr>rs_context := ctx1\<rparr>)")
        have a: "recorded_step st (?st1\<lparr>rs_context := ctx1\<rparr>)"
          by (rule recorded_step_same) simp_all
        have b: "recorded_step st st2"
          using recorded_step_trans [OF a tool_try_recorded [OF t]] .
        from Some g Streamed call tool t b show ?thesis
          by (cases x) (auto simp: attempt_def Let_def tool_execution_def finish_attempt_def split: if_splits)
      qed
    qed
  qed
qed

lemma round_loop_recorded:
  assumes "round_loop P cb pc tm u st = Some y"
  shows "recorded_step st (snd y)"
proof (rule round_loop.raw_induct [where P = "\<lambda>P cb pc tm u st y. recorded_step st (snd y)", OF _ assms])
  fix f :: "'a provider option \<Rightarrow> 'a hooks option \<Rightarrow> llm_parameters \<Rightarrow> (string \<times> 'a tool) list
              \<Rightarrow> bool \<Rightarrow> 'a round_state \<Rightarrow> ((exn + round_result) \<times> 'a round_state) option"
    and P cb pc tm u st y
  assume IH: "\<And>P cb pc tm u st y. f P cb pc tm u st = Some y \<Longrightarrow> recorded_step st (snd y)"
    and body: "(if signal_aborted (rs_context st)
                then Some (Inr \<lparr>response = None, hasToolUse = u, roundMessages = []\<rparr>, st)
                else case attempt P cb pc tm st of
                       Continue used' st' \<Rightarrow> f P cb pc tm used' st'
                     | Leave r st' \<Rightarrow> Some (r, st')) = Some y"
  show "recorded_step st (snd y)"
  proof (cases "signal_aborted (rs_context st)")
    case True
    with body show ?thesis by (auto intro: recorded_step_refl)
  next
    case False
    show ?thesis
    proof (cases "attempt P cb pc tm st")
      case (Continue u' st')
      with False body have "f P cb pc tm u' st' = Some y" by simp
      from IH [OF this] have "recorded_step st' (snd y)" .
      moreover from Continue attempt_recorded [of P cb pc tm st u' st'] have "recorded_step st st'" by simp
      ultimately show ?thesis by (rule recorded_step_trans [rotated])
    next
      case (Leave r st')
      with False body have "y = (r, st')" by simp
      with Leave attempt_recorded [of P cb pc tm st _ st' r] show ?thesis by simp
    qed
  qed
qed

lemma executeSingleRound_recorded:
  "executeSingleRound P cb h params tm st = Some (r, st', h') \<Longrightarrow> recorded_step st st'"
  using round_loop_recorded [of P cb "advertised_params h params" tm False st "(r, st')"]
  by (auto simp: executeSingleRound_alt)


lemma finish_only_round_lifts:
  assumes refl: "\<And>s. R s s"
    and trans: "\<And>a b c. R a b \<Longrightarrow> R b c \<Longrightarrow> R a c"
    and round: "\<And>P cb h p tm s r s' h'. executeSingleRound P cb h p tm s = Some (r, s', h') \<Longrightarrow> R s s'"
    and msgs: "\<And>s ms. R s (s\<lparr>rs_messages := ms\<rparr>)"
    and f: "finish_only_round A cb rt params instruction st = (ex, st')"
  shows "R (ls_round st) (ls_round st')"
proof -
  obtain h1 only where ro: "returnOnlyParams (ls_heap st) params rt = (h1, only)"
    by (cases "returnOnlyParams (ls_heap st) params rt")
  let ?rs1 = "push_instruction instruction (ls_round st)"
  have a: "R (ls_round st) ?rs1"
    unfolding push_instruction_def by (rule msgs)
  show ?thesis
  proof (cases "executeSingleRound (llmProvider A) cb h1 only [(tool_name rt, rt)] ?rs1")
    case None
    with f show ?thesis
      unfolding finish_only_round_unfold [OF ro] using a by (auto simp: called_def)
  next
    case (Some res)
    obtain out rs2 h2 where res: "res = (out, rs2, h2)" by (cases res)
    from round Some res have b: "R ?rs1 rs2" by blast
    have c: "R (ls_round st) rs2" using trans [OF a b] .
    have d: "R (ls_round st) (rs2\<lparr>rs_messages := ms\<rparr>)" for ms
      using trans [OF c msgs] .
    from f Some res show ?thesis
      unfolding finish_only_round_unfold [OF ro] using c d
      by (cases out) (auto simp: called_def commit_def)
  qed
qed

lemma loop_lifts:
  assumes refl: "\<And>s. R s s"
    and trans: "\<And>a b c. R a b \<Longrightarrow> R b c \<Longrightarrow> R a c"
    and round: "\<And>P cb h p tm s r s' h'. executeSingleRound P cb h p tm s = Some (r, s', h') \<Longrightarrow> R s s'"
    and msgs: "\<And>s ms. R s (s\<lparr>rs_messages := ms\<rparr>)"
  shows "maxRounds A - n = k \<Longrightarrow> loop A cb tm rt p n st = (ex, n', st') \<Longrightarrow> R (ls_round st) (ls_round st')"
proof (induction k arbitrary: n st ex n' st')
  case 0
  then have "\<not> n < maxRounds A" by simp
  from loop_exhausted [OF this, of cb tm rt p st] 0(2) show ?case
    by (auto intro: refl)
next
  case (Suc k)
  then have lt: "n < maxRounds A" by simp
  have fin: "R (ls_round s) (ls_round s')" if "finish_only_round A cb rt p i s = (e, s')" for i s e s'
  proof (rule finish_only_round_lifts [where R = R])
    show "\<And>s. R s s" by (rule refl)
    show "\<And>a b c. R a b \<Longrightarrow> R b c \<Longrightarrow> R a c" by (rule trans)
    show "\<And>P cb h p tm s r s' h'. executeSingleRound P cb h p tm s = Some (r, s', h') \<Longrightarrow> R s s'"
      by (rule round)
    show "\<And>s ms. R s (s\<lparr>rs_messages := ms\<rparr>)" by (rule msgs)
    show "finish_only_round A cb rt p i s = (e, s')" by (rule that)
  qed
  show ?case
  proof (cases "signal_aborted (rs_context (ls_round st))")
    case True
    with lt Suc.prems(2) have "st' = st"
      by (subst (asm) loop.simps) simp
    then show ?thesis by (simp add: refl)
  next
    case na: False
    show ?thesis
    proof (cases "executeSingleRound (llmProvider A) cb (ls_heap st) p tm (ls_round st)")
      case None
      with lt na Suc.prems(2) have "st' = called Regular st"
        by (subst (asm) loop.simps) simp
      then show ?thesis by (simp add: called_def refl)
    next
      case (Some res)
      obtain out rs h where res: "res = (out, rs, h)" by (cases res)
      from round Some res have step: "R (ls_round st) rs" by blast
      show ?thesis
      proof (cases out)
        case (Inl e)
        with Some res lt na Suc.prems(2)
        have "st' = (called Regular st)\<lparr>ls_round := rs, ls_heap := h\<rparr>"
          by (subst (asm) loop.simps) simp
        with step show ?thesis by simp
      next
        case (Inr r)
        let ?c = "commit Regular r rs h (called Regular st)"
        have c: "R (ls_round st) (ls_round ?c)"
          using trans [OF step msgs] by (simp add: commit_def)
        have rnd: "executeSingleRound (llmProvider A) cb (ls_heap st) p tm (ls_round st) = Some (Inr r, rs, h)"
          using Some res Inr by simp
        note eq = loop_round_returns [OF lt na rnd, of rt]
        consider (textonly) "\<not> hasToolUse r \<and> response r \<noteq> None"
          | (finished) "\<not> (\<not> hasToolUse r \<and> response r \<noteq> None)" "calls_return_output (response r)"
          | (atmax) "\<not> (\<not> hasToolUse r \<and> response r \<noteq> None)" "\<not> calls_return_output (response r)" "Suc n = maxRounds A"
          | (go) "\<not> (\<not> hasToolUse r \<and> response r \<noteq> None)" "\<not> calls_return_output (response r)" "Suc n \<noteq> maxRounds A"
          by blast
        then show ?thesis
        proof cases
          case textonly
          obtain ex2 st2 where f: "finish_only_round A cb rt p return_instruction ?c = (ex2, st2)"
            by (cases "finish_only_round A cb rt p return_instruction ?c")
          from Suc.prems(2) eq textonly f have "st' = st2" by auto
          with trans [OF c fin [OF f]] show ?thesis by simp
        next
          case finished
          with Suc.prems(2) eq have "st' = ?c" by auto
          with c show ?thesis by simp
        next
          case atmax
          obtain ex2 st2 where f: "finish_only_round A cb rt p max_rounds_instruction ?c = (ex2, st2)"
            by (cases "finish_only_round A cb rt p max_rounds_instruction ?c")
          have ex: "loop A cb tm rt p (Suc n) st2 = (Completed, Suc n, st2)"
            using atmax(3) by (simp add: loop_exhausted)
          from Suc.prems(2) eq atmax f ex have "st' = st2"
            by (cases ex2) auto
          with trans [OF c fin [OF f]] show ?thesis by simp
        next
          case go
          with Suc.prems(2) eq have rec: "loop A cb tm rt p (Suc n) ?c = (ex, n', st')" by auto
          have "maxRounds A - Suc n = k" using Suc.prems(1) by simp
          from trans [OF c Suc.IH [OF this rec]] show ?thesis .
        qed
      qed
    qed
  qed
qed

lemma recorded_step_messages: "recorded_step s (s\<lparr>rs_messages := ms\<rparr>)"
  by (rule recorded_step_same) simp_all

lemma loop_recorded:
  assumes "loop A cb tm rt p n st = (ex, n', st')"
  shows "recorded_step (ls_round st) (ls_round st')"
proof (rule loop_lifts [where R = recorded_step])
  show "\<And>s :: 'a round_state. recorded_step s s" by (rule recorded_step_refl)
  show "\<And>a b c :: 'a round_state. recorded_step a b \<Longrightarrow> recorded_step b c \<Longrightarrow> recorded_step a c"
    by (rule recorded_step_trans)
  show "\<And>P cb h p tm (s :: 'a round_state) r s' h'.
          executeSingleRound P cb h p tm s = Some (r, s', h') \<Longrightarrow> recorded_step s s'"
    by (rule executeSingleRound_recorded)
  show "\<And>(s :: 'a round_state) ms. recorded_step s (s\<lparr>rs_messages := ms\<rparr>)"
    by (rule recorded_step_messages)
  show "maxRounds A - n = maxRounds A - n" by (rule refl)
  show "loop A cb tm rt p n st = (ex, n', st')" by fact
qed


section \<open>Whole runs\<close>

lemma finalize_keeps:
  "finalize nm rs = (v, rs') \<Longrightarrow> rs_recorded rs' = rs_recorded rs \<and> rs_toolResults rs' = rs_toolResults rs
     \<and> rs_messages rs' = rs_messages rs"
  by (auto simp: finalize_def Let_def split: if_splits)

lemma execute_of_loop:
  assumes "query_tabs env ctx = (None, ctx1)"
    and "initial_params A (build_toolMap (action_tools A) (context_tools env)
            (createReturnTool (action_name A) (returnDescription env) os)) h = (h1, params)"
    and "loop A (context_callback env)
            (build_toolMap (action_tools A) (context_tools env)
               (createReturnTool (action_name A) (returnDescription env) os))
            (createReturnTool (action_name A) (returnDescription env) os) params 0
            (initial_state A (initial_messages env) ctx1 h1) = (ex, n, st)"
  shows "run_roundCount (execute A env os ctx h) = n
       \<and> ls_calls (run_state (execute A env os ctx h)) = ls_calls st
       \<and> ls_committed (run_state (execute A env os ctx h)) = ls_committed st
       \<and> rs_recorded (ls_round (run_state (execute A env os ctx h))) = rs_recorded (ls_round st)
       \<and> rs_toolResults (ls_round (run_state (execute A env os ctx h))) = rs_toolResults (ls_round st)
       \<and> (\<forall>v. run_exit (execute A env os ctx h) = Returned v \<longrightarrow>
             ex = Completed
             \<and> run_payload (execute A env os ctx h) = variables_get (rs_context (ls_round st)) (output_key (action_name A))
             \<and> v = fst (finalize (action_name A) (ls_round st)))"
  using assms
  by (cases ex; cases "finalize (action_name A) (ls_round st)")
     (auto simp: execute_def Let_def dest: finalize_keeps)

text \<open>
  C1: in every run (whether it returns, throws, or never returns), \<open>executeSingleRound\<close> is
  called at most \<open>maxRounds + 1\<close> times, so at most \<open>maxRounds + 1\<close> rounds are committed to
  the history, and every committed round is one of the calls; the calls are regular rounds,
  as many as the final value of \<open>roundCount\<close> (which goes up by one with each), at most
  \<open>maxRounds\<close>, and at most one finish-only round.
\<close>

theorem round_budget:
  "length (ls_calls (run_state (execute A env os ctx h))) \<le> maxRounds A + 1
   \<and> length (ls_committed (run_state (execute A env os ctx h))) \<le> maxRounds A + 1
   \<and> length (ls_committed (run_state (execute A env os ctx h)))
        \<le> length (ls_calls (run_state (execute A env os ctx h)))
   \<and> length (filter (\<lambda>k. k = Regular) (ls_calls (run_state (execute A env os ctx h))))
        = run_roundCount (execute A env os ctx h)
   \<and> run_roundCount (execute A env os ctx h) \<le> maxRounds A
   \<and> length (filter (\<lambda>k. k = FinishOnly) (ls_calls (run_state (execute A env os ctx h)))) \<le> 1"
proof (cases "query_tabs env ctx")
  case (Pair eo ctx1)
  show ?thesis
  proof (cases eo)
    case (Some e)
    with Pair show ?thesis
      by (simp add: execute_def Let_def initial_state_def)
  next
    case None
    let ?rt = "createReturnTool (action_name A) (returnDescription env) os"
    let ?tm = "build_toolMap (action_tools A) (context_tools env) ?rt"
    obtain h1 params where ip: "initial_params A ?tm h = (h1, params)"
      by (cases "initial_params A ?tm h")
    obtain ex n st where l: "loop A (context_callback env) ?tm ?rt params 0
            (initial_state A (initial_messages env) ctx1 h1) = (ex, n, st)"
      by (cases "loop A (context_callback env) ?tm ?rt params 0 (initial_state A (initial_messages env) ctx1 h1)")
    from Pair None have q: "query_tabs env ctx = (None, ctx1)" by simp
    note e = execute_of_loop [OF q ip l]
    from loop_trace [OF refl _ l] have n: "n \<le> maxRounds A"
      and t: "trace_step [] (ls_calls st) [] (ls_committed st) n"
      by (simp_all add: initial_state_def)
    from t obtain new kept rest where
      c: "ls_calls st = new" "new = replicate n Regular \<or> new = replicate n Regular @ [FinishOnly]"
         "ls_committed st = kept" "new = kept @ rest" "length rest \<le> 1"
      unfolding trace_step_def by auto
    from c(2) have len: "length new \<le> n + 1"
      and reg: "length (filter (\<lambda>k. k = Regular) new) = n"
      and fin: "length (filter (\<lambda>k. k = FinishOnly) new) \<le> 1"
      by auto
    from c(4) have kl: "length kept \<le> length new" by simp
    show ?thesis
      using e n c(1,3) len reg fin kl by simp
  qed
qed


lemma Map_set_fresh: "k \<notin> fst ` set m \<Longrightarrow> Map_set m k v = m @ [(k, v)]"
  by (induction m) auto

lemma fold_Map_set_distinct:
  "distinct (map fst (m @ new)) \<Longrightarrow> fold (\<lambda>e m. Map_set m (fst e) (snd e)) new m = m @ new"
proof (induction new arbitrary: m)
  case Nil
  then show ?case by simp
next
  case (Cons e new)
  from Cons.prems have fresh: "fst e \<notin> fst ` set m" by auto
  from Cons.prems have "distinct (map fst ((m @ [e]) @ new))" by simp
  from Cons.IH [OF this] show ?case
    by (simp add: Map_set_fresh [OF fresh])
qed

lemma last_value_nonempty: "m \<noteq> [] \<Longrightarrow> last_value m = snd (last m)"
  by (cases m) (simp_all add: last_value_def)

lemma last_value_append: "new \<noteq> [] \<Longrightarrow> last_value (m @ new) = snd (last new)"
  by (simp add: last_value_nonempty)

text \<open>
  A run that returns, whose finish payload has \<open>use_tool_result = true\<close>, and in which the
  invocation ids written to the cache are pairwise distinct and differ from the ids the
  cache held when the run started: the cache then holds its entries in the order of the
  writes; when the run wrote an entry (only tools other than \<open>return_output\<close> write), the
  returned value is the value of the last write; when it wrote none and the cache was
  empty at the start, the returned value is \<open>{}\<close>.
\<close>


lemma distinct_ids_return_last:
  assumes "run_exit (execute A env os ctx h) = Returned v"
    and "prop_read (run_payload (execute A env os ctx h)) ''use_tool_result'' = Inr (JBool True)"
    and "distinct (map fst (toolResults A @ rs_recorded (ls_round (run_state (execute A env os ctx h)))))"
  shows "rs_toolResults (ls_round (run_state (execute A env os ctx h)))
           = toolResults A @ rs_recorded (ls_round (run_state (execute A env os ctx h)))
       \<and> (rs_recorded (ls_round (run_state (execute A env os ctx h))) \<noteq> [] \<longrightarrow>
            v = snd (last (rs_recorded (ls_round (run_state (execute A env os ctx h))))))
       \<and> (rs_recorded (ls_round (run_state (execute A env os ctx h))) = [] \<and> toolResults A = [] \<longrightarrow>
            v = JObj [])"
proof (cases "query_tabs env ctx")
  case (Pair eo ctx1)
  show ?thesis
  proof (cases eo)
    case (Some e)
    with Pair assms(1) show ?thesis
      by (simp add: execute_def Let_def)
  next
    case None
    let ?rt = "createReturnTool (action_name A) (returnDescription env) os"
    let ?tm = "build_toolMap (action_tools A) (context_tools env) ?rt"
    let ?R = "execute A env os ctx h"
    obtain h1 params where ip: "initial_params A ?tm h = (h1, params)"
      by (cases "initial_params A ?tm h")
    obtain ex n st where l: "loop A (context_callback env) ?tm ?rt params 0
            (initial_state A (initial_messages env) ctx1 h1) = (ex, n, st)"
      by (cases "loop A (context_callback env) ?tm ?rt params 0 (initial_state A (initial_messages env) ctx1 h1)")
    from Pair None have q: "query_tabs env ctx = (None, ctx1)" by simp
    note e = execute_of_loop [OF q ip l]
    from e have rec: "rs_recorded (ls_round (run_state ?R)) = rs_recorded (ls_round st)"
      and cache: "rs_toolResults (ls_round (run_state ?R)) = rs_toolResults (ls_round st)"
      by simp_all
    from e assms(1) have pay: "run_payload ?R = variables_get (rs_context (ls_round st)) (output_key (action_name A))"
      and v: "v = fst (finalize (action_name A) (ls_round st))"
      by simp_all
    from loop_recorded [OF l] obtain new where
      n1: "rs_recorded (ls_round st) = new"
      and n2: "rs_toolResults (ls_round st) = fold (\<lambda>e m. Map_set m (fst e) (snd e)) new (toolResults A)"
      and n3: "list_all (\<lambda>e. \<exists>t. snd e = JStr t) new"
      unfolding recorded_step_def by (auto simp: initial_state_def)
    from assms(3) rec n1 have "distinct (map fst (toolResults A @ new))" by simp
    from fold_Map_set_distinct [OF this] n2
    have c: "rs_toolResults (ls_round st) = toolResults A @ new" by simp
    let ?p = "variables_get (rs_context (ls_round st)) (output_key (action_name A))"
    from assms(2) pay have u: "prop_read ?p ''use_tool_result'' = Inr (JBool True)" by simp
    then have tr: "truthy ?p" and tu: "truthy (prop_of ?p ''use_tool_result'')"
      by (cases ?p; simp add: prop_of_def TypeError_read_def)+
    from v tr tu c have v': "v = (if last_value (toolResults A @ new) = JUndefined then JObj []
                                 else last_value (toolResults A @ new))"
      by (simp add: finalize_def Let_def)
    have nonempty: "v = snd (last new)" if "new \<noteq> []"
    proof -
      from that n3 have "\<exists>t. snd (last new) = JStr t"
        by (simp add: list_all_iff)
      with v' last_value_append [OF that, of "toolResults A"] show ?thesis by auto
    qed
    have empty: "v = JObj []" if "new = []" "toolResults A = []"
      using v' that by (simp add: last_value_def)
    show ?thesis
      using rec cache c n1 nonempty empty by simp
  qed
qed

section \<open>A run in which an invocation id comes twice\<close>

text \<open>
  Rounds of a scripted run, step by step: a call of \<open>echo\<close>, which records the serialised
  text under the invocation id, and a call of \<open>return_output\<close> with
  \<open>use_tool_result = true\<close>, which ends the loop.
\<close>

lemma echo_try:
  assumes "ctx_signal (rs_context st) = None" and "\<not> ctx_abort (rs_context st)"
  shows "tool_try None echo_tool (tool_call_of i ''echo'' (JObj [(''text'', JStr x)])) st =
     (Inr (resultMessage (tool_call_of i ''echo'' (JObj [(''text'', JStr x)])) (JStr x)),
      st\<lparr>rs_context := (rs_context st)\<lparr>ctx_skip := False\<rparr>,
         rs_toolResults := Map_set (rs_toolResults st) i (JStr (quote x)),
         rs_recorded := rs_recorded st @ [(i, JStr (quote x))]\<rparr>)"
  using assms
  by (simp add: tool_try_def run_beforeToolUse_def run_afterToolUse_def signal_aborted_def
        tool_call_of_def envelope_input_def unwrapToolCall_def notify_thinking_def
        notify_userSidePrompt_def echo_tool_def prop_of_def truncate_value_def
        resultContentText_def result_has_image_def stringify_value_def)

lemma finish_try:
  assumes "ctx_signal (rs_context st) = None" and "\<not> ctx_abort (rs_context st)"
  shows "tool_try None demo_returnTool (tool_call_of i ''return_output'' use_tool_result_payload) st =
     (Inr (resultMessage (tool_call_of i ''return_output'' use_tool_result_payload) (JObj [(''success'', JBool True)])),
      st\<lparr>rs_context := variables_set ''__isSuccessful__'' (JBool True)
                          (variables_set (output_key ''demo'') use_tool_result_payload
                             ((rs_context st)\<lparr>ctx_skip := False\<rparr>))\<rparr>)"
  using assms
  by (simp add: tool_try_def run_beforeToolUse_def run_afterToolUse_def signal_aborted_def
        tool_call_of_def envelope_input_def unwrapToolCall_def notify_thinking_def
        notify_userSidePrompt_def demo_returnTool_def createReturnTool_def return_execute_def
        use_tool_result_payload_def variables_set_def truncate_value_def quote_def escape_char_def)

lemma scripted_call_round:
  assumes "world (rs_context rs) < length script"
    and "script ! world (rs_context rs) = one_call call"
    and "ctx_signal (rs_context rs) = None"
    and "map_of tm (tc_name call) = Some tool"
    and "tool_try None tool call
           (rs\<lparr>rs_messages := handleHistoryImageMessages (rs_messages rs),
               rs_context := (rs_context rs)\<lparr>world := Suc (world (rs_context rs))\<rparr>\<rparr>) = (Inr m, rs')"
    and "\<not> ctx_abort (rs_context rs')"
  shows "executeSingleRound (Some (scripted_provider script)) None h params tm rs =
     Some (Inr \<lparr>response = Some \<lparr>textContent = [], toolCalls = [call]\<rparr>, hasToolUse = True,
                 roundMessages = [toolUseMessage call (tool_name tool), m]\<rparr>, rs', store_after_round h params)"
proof -
  have na: "\<not> signal_aborted (rs_context rs)"
    using assms(3) by (simp add: signal_aborted_def)
  have g: "generateStream (scripted_provider script) (rs_context rs) (handleHistoryImageMessages (rs_messages rs))
             (advertised_params h params)
           = (Streamed [] (Some call) (Some \<lparr>textContent = [], toolCalls = [call]\<rparr>),
              (rs_context rs)\<lparr>world := Suc (world (rs_context rs))\<rparr>)"
    using assms(1,2) by (simp add: scripted_provider_def one_call_def)
  have att: "attempt (Some (scripted_provider script)) None (advertised_params h params) tm rs
      = Leave (Inr \<lparr>response = Some \<lparr>textContent = [], toolCalls = [call]\<rparr>, hasToolUse = True,
                 roundMessages = [toolUseMessage call (tool_name tool), m]\<rparr>) rs'"
    using assms(6)
    by (simp add: attempt_tool_round [OF refl g assms(4) tool_execution_ok [OF assms(5)]]
          finish_attempt_def assistantTextMessage_def)
  show ?thesis
    by (simp add: executeSingleRound_alt round_loop_Leave [OF na att])
qed

lemma loop_echo_step:
  assumes "n < maxRounds A" and "Suc n \<noteq> maxRounds A"
    and "llmProvider A = Some (scripted_provider script)"
    and "world ctx < length script"
    and "script ! world ctx = one_call (tool_call_of i ''echo'' (JObj [(''text'', JStr x)]))"
    and "ctx_signal ctx = None"
    and "\<not> ctx_abort ctx"
    and "map_of tm ''echo'' = Some echo_tool"
  shows "\<exists>ms' h'.
         loop A None tm rt params n
           \<lparr>ls_round = \<lparr>rs_messages = ms, rs_context = ctx, rs_toolResults = c, rs_recorded = rec\<rparr>,
            ls_heap = h, ls_calls = cs, ls_committed = cm\<rparr> =
         loop A None tm rt params (Suc n)
           \<lparr>ls_round = \<lparr>rs_messages = ms',
                         rs_context = ctx\<lparr>world := Suc (world ctx), ctx_skip := False\<rparr>,
                         rs_toolResults = Map_set c i (JStr (quote x)),
                         rs_recorded = rec @ [(i, JStr (quote x))]\<rparr>,
            ls_heap = h', ls_calls = cs @ [Regular], ls_committed = cm @ [Regular]\<rparr>"
proof -
  let ?call = "tool_call_of i ''echo'' (JObj [(''text'', JStr x)])"
  let ?rs = "\<lparr>rs_messages = ms, rs_context = ctx, rs_toolResults = c, rs_recorded = rec\<rparr>"
  let ?st = "\<lparr>ls_round = ?rs, ls_heap = h, ls_calls = cs, ls_committed = cm\<rparr>"
  let ?sent = "?rs\<lparr>rs_messages := handleHistoryImageMessages (rs_messages ?rs),
               rs_context := (rs_context ?rs)\<lparr>world := Suc (world (rs_context ?rs))\<rparr>\<rparr>"
  let ?after = "?sent\<lparr>rs_context := (rs_context ?sent)\<lparr>ctx_skip := False\<rparr>,
         rs_toolResults := Map_set (rs_toolResults ?sent) i (JStr (quote x)),
         rs_recorded := rs_recorded ?sent @ [(i, JStr (quote x))]\<rparr>"
  let ?r = "\<lparr>response = Some \<lparr>textContent = [], toolCalls = [?call]\<rparr>, hasToolUse = True,
             roundMessages = [toolUseMessage ?call (tool_name echo_tool), resultMessage ?call (JStr x)]\<rparr>"
  have na: "\<not> signal_aborted (rs_context (ls_round ?st))"
    using assms(6) by (simp add: signal_aborted_def)
  have nm: "tc_name ?call = ''echo''" by (simp add: tool_call_of_def)
  have tm: "map_of tm (tc_name ?call) = Some echo_tool" using assms(8) nm by simp
  have t: "tool_try None echo_tool ?call ?sent = (Inr (resultMessage ?call (JStr x)), ?after)"
    by (rule echo_try) (simp_all add: assms(6) assms(7))
  have nab: "\<not> ctx_abort (rs_context ?after)"
    using assms(7) by simp
  have w: "world (rs_context ?rs) < length script" "script ! world (rs_context ?rs) = one_call ?call"
    "ctx_signal (rs_context ?rs) = None"
    using assms(4,5,6) by simp_all
  note round = scripted_call_round [OF w tm t nab, of h params]
  have round': "executeSingleRound (llmProvider A) None (ls_heap ?st) params tm (ls_round ?st)
      = Some (Inr ?r, ?after, store_after_round h params)"
    using round by (simp add: assms(3))
  have nf: "\<not> calls_return_output (response ?r)"
    by (simp add: calls_return_output_def nm)
  have eq: "loop A None tm rt params n ?st
      = loop A None tm rt params (Suc n) (commit Regular ?r ?after (store_after_round h params) (called Regular ?st))"
    using assms(2) nf by (simp add: loop_round_returns [OF assms(1) na round'])
  have c: "commit Regular ?r ?after (store_after_round h params) (called Regular ?st)
      = \<lparr>ls_round = \<lparr>rs_messages = handleHistoryImageMessages ms @ roundMessages ?r,
                         rs_context = ctx\<lparr>world := Suc (world ctx), ctx_skip := False\<rparr>,
                         rs_toolResults = Map_set c i (JStr (quote x)),
                         rs_recorded = rec @ [(i, JStr (quote x))]\<rparr>,
            ls_heap = store_after_round h params, ls_calls = cs @ [Regular], ls_committed = cm @ [Regular]\<rparr>"
    by (simp add: commit_def called_def)
  show ?thesis
    unfolding eq c by blast
qed

lemma loop_finish_step:
  assumes "n < maxRounds A"
    and "llmProvider A = Some (scripted_provider script)"
    and "world ctx < length script"
    and "script ! world ctx = one_call (tool_call_of i ''return_output'' use_tool_result_payload)"
    and "ctx_signal ctx = None"
    and "\<not> ctx_abort ctx"
    and "map_of tm ''return_output'' = Some demo_returnTool"
  shows "\<exists>ms' h'.
         loop A None tm rt params n
           \<lparr>ls_round = \<lparr>rs_messages = ms, rs_context = ctx, rs_toolResults = c, rs_recorded = rec\<rparr>,
            ls_heap = h, ls_calls = cs, ls_committed = cm\<rparr> =
         (Completed, Suc n,
           \<lparr>ls_round = \<lparr>rs_messages = ms',
                         rs_context = variables_set ''__isSuccessful__'' (JBool True)
                            (variables_set (output_key ''demo'') use_tool_result_payload
                               (ctx\<lparr>world := Suc (world ctx), ctx_skip := False\<rparr>)),
                         rs_toolResults = c, rs_recorded = rec\<rparr>,
            ls_heap = h', ls_calls = cs @ [Regular], ls_committed = cm @ [Regular]\<rparr>)"
proof -
  let ?call = "tool_call_of i ''return_output'' use_tool_result_payload"
  let ?rs = "\<lparr>rs_messages = ms, rs_context = ctx, rs_toolResults = c, rs_recorded = rec\<rparr>"
  let ?st = "\<lparr>ls_round = ?rs, ls_heap = h, ls_calls = cs, ls_committed = cm\<rparr>"
  let ?sent = "?rs\<lparr>rs_messages := handleHistoryImageMessages (rs_messages ?rs),
               rs_context := (rs_context ?rs)\<lparr>world := Suc (world (rs_context ?rs))\<rparr>\<rparr>"
  let ?after = "?sent\<lparr>rs_context := variables_set ''__isSuccessful__'' (JBool True)
                          (variables_set (output_key ''demo'') use_tool_result_payload
                             ((rs_context ?sent)\<lparr>ctx_skip := False\<rparr>))\<rparr>"
  let ?r = "\<lparr>response = Some \<lparr>textContent = [], toolCalls = [?call]\<rparr>, hasToolUse = True,
             roundMessages = [toolUseMessage ?call (tool_name demo_returnTool),
                              resultMessage ?call (JObj [(''success'', JBool True)])]\<rparr>"
  have na: "\<not> signal_aborted (rs_context (ls_round ?st))"
    using assms(5) by (simp add: signal_aborted_def)
  have nm: "tc_name ?call = ''return_output''" by (simp add: tool_call_of_def)
  have tm: "map_of tm (tc_name ?call) = Some demo_returnTool" using assms(7) nm by simp
  have t: "tool_try None demo_returnTool ?call ?sent =
     (Inr (resultMessage ?call (JObj [(''success'', JBool True)])), ?after)"
    by (rule finish_try) (simp_all add: assms(5) assms(6))
  have nab: "\<not> ctx_abort (rs_context ?after)"
    using assms(6) by (simp add: variables_set_def)
  have w: "world (rs_context ?rs) < length script" "script ! world (rs_context ?rs) = one_call ?call"
    "ctx_signal (rs_context ?rs) = None"
    using assms(3,4,5) by simp_all
  note round = scripted_call_round [OF w tm t nab, of h params]
  have round': "executeSingleRound (llmProvider A) None (ls_heap ?st) params tm (ls_round ?st)
      = Some (Inr ?r, ?after, store_after_round h params)"
    using round by (simp add: assms(2))
  have nf: "calls_return_output (response ?r)"
    by (simp add: calls_return_output_def nm)
  have eq: "loop A None tm rt params n ?st
      = (Completed, Suc n, commit Regular ?r ?after (store_after_round h params) (called Regular ?st))"
    using nf by (simp add: loop_round_returns [OF assms(1) na round'])
  have c: "commit Regular ?r ?after (store_after_round h params) (called Regular ?st)
      = \<lparr>ls_round = \<lparr>rs_messages = handleHistoryImageMessages ms @ roundMessages ?r,
                         rs_context = variables_set ''__isSuccessful__'' (JBool True)
                            (variables_set (output_key ''demo'') use_tool_result_payload
                               (ctx\<lparr>world := Suc (world ctx), ctx_skip := False\<rparr>)),
                         rs_toolResults = c, rs_recorded = rec\<rparr>,
            ls_heap = store_after_round h params, ls_calls = cs @ [Regular], ls_committed = cm @ [Regular]\<rparr>"
    by (simp add: commit_def called_def)
  show ?thesis
    unfolding eq c by blast
qed

text \<open>
  C2 (the code at a failing input): a run in which the transport announces, one round each,
  \<open>echo\<close> with the id \<open>t1\<close> returning \<open>A\<close>, \<open>echo\<close> with the id \<open>t2\<close> returning \<open>B\<close>, \<open>echo\<close>
  with the id \<open>t1\<close> again returning \<open>C\<close>, and \<open>return_output\<close> with
  \<open>use_tool_result = true\<close>. The three results are recorded in this order, the last one is
  that of \<open>C\<close>; \<open>Map.set\<close> replaces the entry of \<open>t1\<close> where it stands, the cache ends as
  \<open>t1: C, t2: B\<close>, and the run returns the text recorded for \<open>B\<close>.
\<close>

theorem repeated_id_returns_earlier_result:
  "run_exit (execute
       (scripted_action [one_call (tool_call_of ''t1'' ''echo'' (JObj [(''text'', JStr ''A'')])),
                         one_call (tool_call_of ''t2'' ''echo'' (JObj [(''text'', JStr ''B'')])),
                         one_call (tool_call_of ''t1'' ''echo'' (JObj [(''text'', JStr ''C'')])),
                         one_call (tool_call_of ''t3'' ''return_output'' use_tool_result_payload)] 5)
       plain_env JUndefined start_context empty_heap)
     = Returned (JStr [CHR 0x22, CHR ''B'', CHR 0x22])
   \<and> rs_recorded (ls_round (run_state (execute
       (scripted_action [one_call (tool_call_of ''t1'' ''echo'' (JObj [(''text'', JStr ''A'')])),
                         one_call (tool_call_of ''t2'' ''echo'' (JObj [(''text'', JStr ''B'')])),
                         one_call (tool_call_of ''t1'' ''echo'' (JObj [(''text'', JStr ''C'')])),
                         one_call (tool_call_of ''t3'' ''return_output'' use_tool_result_payload)] 5)
       plain_env JUndefined start_context empty_heap)))
     = [(''t1'', JStr [CHR 0x22, CHR ''A'', CHR 0x22]), (''t2'', JStr [CHR 0x22, CHR ''B'', CHR 0x22]),
        (''t1'', JStr [CHR 0x22, CHR ''C'', CHR 0x22])]
   \<and> rs_toolResults (ls_round (run_state (execute
       (scripted_action [one_call (tool_call_of ''t1'' ''echo'' (JObj [(''text'', JStr ''A'')])),
                         one_call (tool_call_of ''t2'' ''echo'' (JObj [(''text'', JStr ''B'')])),
                         one_call (tool_call_of ''t1'' ''echo'' (JObj [(''text'', JStr ''C'')])),
                         one_call (tool_call_of ''t3'' ''return_output'' use_tool_result_payload)] 5)
       plain_env JUndefined start_context empty_heap)))
     = [(''t1'', JStr [CHR 0x22, CHR ''C'', CHR 0x22]), (''t2'', JStr [CHR 0x22, CHR ''B'', CHR 0x22])]"
proof -
  let ?script = "[one_call (tool_call_of ''t1'' ''echo'' (JObj [(''text'', JStr ''A'')])),
                  one_call (tool_call_of ''t2'' ''echo'' (JObj [(''text'', JStr ''B'')])),
                  one_call (tool_call_of ''t1'' ''echo'' (JObj [(''text'', JStr ''C'')])),
                  one_call (tool_call_of ''t3'' ''return_output'' use_tool_result_payload)]"
  let ?A = "scripted_action ?script 5"
  let ?ctx = "\<lambda>k. \<lparr>variables = Map.empty, ctx_skip = False, ctx_abort = False, ctx_signal = None, world = k :: nat\<rparr>"
  let ?qA = "JStr [CHR 0x22, CHR ''A'', CHR 0x22]"
  let ?qB = "JStr [CHR 0x22, CHR ''B'', CHR 0x22]"
  let ?qC = "JStr [CHR 0x22, CHR ''C'', CHR 0x22]"
  have m: "maxRounds ?A = 5" and p: "llmProvider ?A = Some (scripted_provider ?script)"
    and nm: "action_name ?A = ''demo''" and tools: "action_tools ?A = [disk_tool, big_tool, echo_tool]"
    and init: "toolResults ?A = []"
    by (simp_all add: scripted_action_def ActionImpl_def)
  have rt: "createReturnTool ''demo'' (returnDescription plain_env) JUndefined = demo_returnTool"
    by (simp add: plain_env_def demo_returnTool_def)
  have tm: "build_toolMap [disk_tool, big_tool, echo_tool] (context_tools plain_env) demo_returnTool = demo_toolMap"
    by (simp add: plain_env_def demo_toolMap_def)
  have e: "map_of demo_toolMap ''echo'' = Some echo_tool"
    and f: "map_of demo_toolMap ''return_output'' = Some demo_returnTool"
    by (simp_all add: demo_toolMap_def build_toolMap_def disk_tool_def big_tool_def echo_tool_def
          demo_returnTool_def createReturnTool_def)
  have q: "quote ''A'' = [CHR 0x22, CHR ''A'', CHR 0x22]" "quote ''B'' = [CHR 0x22, CHR ''B'', CHR 0x22]"
    "quote ''C'' = [CHR 0x22, CHR ''C'', CHR 0x22]"
    by (simp_all add: quote_def escape_char_def)
  obtain h0 params where ip: "initial_params ?A demo_toolMap empty_heap = (h0, params)"
    by (cases "initial_params ?A demo_toolMap empty_heap")
  have st0: "initial_state ?A (initial_messages plain_env) start_context h0
      = \<lparr>ls_round = \<lparr>rs_messages = initial_messages plain_env, rs_context = ?ctx 0,
                       rs_toolResults = [], rs_recorded = []\<rparr>,
          ls_heap = h0, ls_calls = [], ls_committed = []\<rparr>"
    by (simp add: initial_state_def init start_context_def)
  obtain ms1 h1 where s1:
    "loop ?A None demo_toolMap demo_returnTool params 0
        \<lparr>ls_round = \<lparr>rs_messages = initial_messages plain_env, rs_context = ?ctx 0,
                       rs_toolResults = [], rs_recorded = []\<rparr>,
          ls_heap = h0, ls_calls = [], ls_committed = []\<rparr>
     = loop ?A None demo_toolMap demo_returnTool params (Suc 0)
        \<lparr>ls_round = \<lparr>rs_messages = ms1, rs_context = ?ctx (Suc 0),
                       rs_toolResults = [(''t1'', ?qA)], rs_recorded = [(''t1'', ?qA)]\<rparr>,
          ls_heap = h1, ls_calls = [Regular], ls_committed = [Regular]\<rparr>"
    using loop_echo_step [of 0 ?A ?script "?ctx 0" "''t1''" "''A''" demo_toolMap demo_returnTool params
            "initial_messages plain_env" "[]" "[]" h0 "[]" "[]"]
    by (auto simp: m p e q)
  obtain ms2 h2 where s2:
    "loop ?A None demo_toolMap demo_returnTool params (Suc 0)
        \<lparr>ls_round = \<lparr>rs_messages = ms1, rs_context = ?ctx (Suc 0),
                       rs_toolResults = [(''t1'', ?qA)], rs_recorded = [(''t1'', ?qA)]\<rparr>,
          ls_heap = h1, ls_calls = [Regular], ls_committed = [Regular]\<rparr>
     = loop ?A None demo_toolMap demo_returnTool params (Suc (Suc 0))
        \<lparr>ls_round = \<lparr>rs_messages = ms2, rs_context = ?ctx (Suc (Suc 0)),
                       rs_toolResults = [(''t1'', ?qA), (''t2'', ?qB)],
                       rs_recorded = [(''t1'', ?qA), (''t2'', ?qB)]\<rparr>,
          ls_heap = h2, ls_calls = [Regular, Regular], ls_committed = [Regular, Regular]\<rparr>"
    using loop_echo_step [of "Suc 0" ?A ?script "?ctx (Suc 0)" "''t2''" "''B''" demo_toolMap demo_returnTool params
            ms1 "[(''t1'', ?qA)]" "[(''t1'', ?qA)]" h1 "[Regular]" "[Regular]"]
    by (auto simp: m p e q)
  obtain ms3 h3 where s3:
    "loop ?A None demo_toolMap demo_returnTool params (Suc (Suc 0))
        \<lparr>ls_round = \<lparr>rs_messages = ms2, rs_context = ?ctx (Suc (Suc 0)),
                       rs_toolResults = [(''t1'', ?qA), (''t2'', ?qB)],
                       rs_recorded = [(''t1'', ?qA), (''t2'', ?qB)]\<rparr>,
          ls_heap = h2, ls_calls = [Regular, Regular], ls_committed = [Regular, Regular]\<rparr>
     = loop ?A None demo_toolMap demo_returnTool params (Suc (Suc (Suc 0)))
        \<lparr>ls_round = \<lparr>rs_messages = ms3, rs_context = ?ctx (Suc (Suc (Suc 0))),
                       rs_toolResults = [(''t1'', ?qC), (''t2'', ?qB)],
                       rs_recorded = [(''t1'', ?qA), (''t2'', ?qB), (''t1'', ?qC)]\<rparr>,
          ls_heap = h3, ls_calls = [Regular, Regular, Regular], ls_committed = [Regular, Regular, Regular]\<rparr>"
    using loop_echo_step [of "Suc (Suc 0)" ?A ?script "?ctx (Suc (Suc 0))" "''t1''" "''C''" demo_toolMap demo_returnTool params
            ms2 "[(''t1'', ?qA), (''t2'', ?qB)]" "[(''t1'', ?qA), (''t2'', ?qB)]" h2
            "[Regular, Regular]" "[Regular, Regular]"]
    by (auto simp: m p e q)
  obtain ms4 h4 where s4:
    "loop ?A None demo_toolMap demo_returnTool params (Suc (Suc (Suc 0)))
        \<lparr>ls_round = \<lparr>rs_messages = ms3, rs_context = ?ctx (Suc (Suc (Suc 0))),
                       rs_toolResults = [(''t1'', ?qC), (''t2'', ?qB)],
                       rs_recorded = [(''t1'', ?qA), (''t2'', ?qB), (''t1'', ?qC)]\<rparr>,
          ls_heap = h3, ls_calls = [Regular, Regular, Regular], ls_committed = [Regular, Regular, Regular]\<rparr>
     = (Completed, (Suc (Suc (Suc (Suc 0)))),
        \<lparr>ls_round = \<lparr>rs_messages = ms4,
                       rs_context = variables_set ''__isSuccessful__'' (JBool True)
                          (variables_set (output_key ''demo'') use_tool_result_payload (?ctx (Suc (Suc (Suc (Suc 0)))))),
                       rs_toolResults = [(''t1'', ?qC), (''t2'', ?qB)],
                       rs_recorded = [(''t1'', ?qA), (''t2'', ?qB), (''t1'', ?qC)]\<rparr>,
          ls_heap = h4, ls_calls = [Regular, Regular, Regular, Regular],
          ls_committed = [Regular, Regular, Regular, Regular]\<rparr>)"
    using loop_finish_step [of "Suc (Suc (Suc 0))" ?A ?script "?ctx (Suc (Suc (Suc 0)))" "''t3''" demo_toolMap demo_returnTool params
            ms3 "[(''t1'', ?qC), (''t2'', ?qB)]" "[(''t1'', ?qA), (''t2'', ?qB), (''t1'', ?qC)]" h3
            "[Regular, Regular, Regular]" "[Regular, Regular, Regular]"]
    by (auto simp: m p f)
  have l': "loop ?A None demo_toolMap demo_returnTool params 0
              (initial_state ?A (initial_messages plain_env) start_context h0)
     = (Completed, (Suc (Suc (Suc (Suc 0)))),
        \<lparr>ls_round = \<lparr>rs_messages = ms4,
                       rs_context = variables_set ''__isSuccessful__'' (JBool True)
                          (variables_set (output_key ''demo'') use_tool_result_payload (?ctx (Suc (Suc (Suc (Suc 0)))))),
                       rs_toolResults = [(''t1'', ?qC), (''t2'', ?qB)],
                       rs_recorded = [(''t1'', ?qA), (''t2'', ?qB), (''t1'', ?qC)]\<rparr>,
          ls_heap = h4, ls_calls = [Regular, Regular, Regular, Regular],
          ls_committed = [Regular, Regular, Regular, Regular]\<rparr>)"
    unfolding st0 s1 s2 s3 s4 ..
  have qt: "query_tabs plain_env start_context = (None, start_context)" by (simp add: plain_env_def)
  have cb: "context_callback plain_env = None" by (simp add: plain_env_def)
  have ex: "execute ?A plain_env JUndefined start_context empty_heap =
      (case finalize ''demo'' \<lparr>rs_messages = ms4,
                       rs_context = variables_set ''__isSuccessful__'' (JBool True)
                          (variables_set (output_key ''demo'') use_tool_result_payload (?ctx (Suc (Suc (Suc (Suc 0)))))),
                       rs_toolResults = [(''t1'', ?qC), (''t2'', ?qB)],
                       rs_recorded = [(''t1'', ?qA), (''t2'', ?qB), (''t1'', ?qC)]\<rparr> of
         (nodeOutput, rs) \<Rightarrow>
           \<lparr>run_exit = Returned nodeOutput, run_reacts = rs_messages rs, run_roundCount = Suc (Suc (Suc (Suc 0))),
            run_payload = use_tool_result_payload,
            run_state = \<lparr>ls_round = rs, ls_heap = h4, ls_calls = [Regular, Regular, Regular, Regular],
                          ls_committed = [Regular, Regular, Regular, Regular]\<rparr>\<rparr>)"
    unfolding execute_def Let_def nm tools rt tm qt cb
    by (simp add: ip l' variables_get_def variables_set_def output_key_not_isSuccessful)
  show ?thesis
    unfolding ex
    by (simp add: finalize_def Let_def variables_get_def variables_set_def variables_delete_def
          use_tool_result_payload_def prop_of_def last_value_def output_key_not_isSuccessful)
qed

text \<open>
  The cache is a field of the action and is never cleared: a run that records nothing
  returns the entry a run before it left.
\<close>

lemma stale_entry_is_returned:
  "(let R = execute ((scripted_action [one_call (tool_call_of ''t1'' ''return_output'' use_tool_result_payload)] 5)
                       \<lparr>toolResults := [(''t0'', JStr ''old'')]\<rparr>)
              plain_env JUndefined start_context empty_heap
    in (run_exit R, rs_recorded (ls_round (run_state R))))
   = (Returned (JStr ''old''), [])"
  by code_simp

section \<open>What a successful invocation writes to the cache\<close>

lemma map_of_Map_set: "map_of (Map_set m k v) k = Some v"
  by (induction m) auto

lemma run_beforeToolUse_id:
  "run_beforeToolUse cb tool call ctx = (Inr call1, ctx1) \<Longrightarrow> tc_id call1 = tc_id call \<and> tc_name call1 = tc_name call"
  by (auto simp: run_beforeToolUse_def split: option.splits prod.splits sum.splits if_splits)

lemma tool_try_return_output:
  "tool_name tool = ''return_output'' \<Longrightarrow>
     rs_toolResults (snd (tool_try cb tool call st)) = rs_toolResults st
     \<and> rs_recorded (snd (tool_try cb tool call st)) = rs_recorded st"
  unfolding tool_try_def
  by (auto split: prod.splits sum.splits option.splits if_splits)

text \<open>
  C5 (amended): an invocation that runs to the end of the \<open>try\<close> block (the before hook
  returns and asks for no skip, the input unwraps, the notifications and the tool's
  \<open>execute\<close> return, the after hook returns, and the result has a JSON serialisation \<open>s\<close>):
  for a tool other than \<open>return_output\<close> the cache holds, under the invocation id, the text
  of the result in full: \<open>s\<close> itself, however long, or for a result with an image its
  text followed by \<open>[Image]\<close>; for \<open>return_output\<close> the cache is left as it was; the cut
  to the first 1000 characters followed by \<open>...(truncated)\<close>, taken when \<open>s\<close> has at least
  1000 characters, is the value of \<open>truncate\<close>, which goes to the log.
\<close>

theorem cache_holds_full_text:
  assumes "run_beforeToolUse cb tool call ((rs_context st)\<lparr>ctx_skip := False\<rparr>) = (Inr call1, ctx1)"
    and "\<not> (ctx_skip ctx1 \<or> ctx_abort ctx1 \<or> signal_aborted ctx1)"
    and "unwrapToolCall call1 = Inr u"
    and "notify_thinking cb u ctx1 = (None, ctx2)"
    and "notify_userSidePrompt cb u (tc_name call1) ctx2 = (None, ctx3)"
    and "tool_execute tool ctx3 (tc_input (toolCall u)) = (Inr result0, ctx4)"
    and "run_afterToolUse cb tool result0 ctx4 = (Inr result, ctx5)"
    and "JSON_stringify result = Some s"
  shows "fst (tool_try cb tool call st) = Inr (resultMessage call1 result)
       \<and> (tool_name tool \<noteq> ''return_output'' \<longrightarrow>
             rs_toolResults (snd (tool_try cb tool call st))
               = Map_set (rs_toolResults st) (tc_id call) (resultContentText result)
             \<and> map_of (rs_toolResults (snd (tool_try cb tool call st))) (tc_id call)
               = Some (resultContentText result))
       \<and> (tool_name tool = ''return_output'' \<longrightarrow>
             rs_toolResults (snd (tool_try cb tool call st)) = rs_toolResults st)
       \<and> resultContentText result =
            (if result_has_image result
             then (if truthy (prop_of result ''text'')
                   then JStr (to_text (prop_of result ''text'') @ '' [Image]'')
                   else JStr ''[Image]'')
             else JStr s)
       \<and> truncate_value result
            = Inr (if length s < 1000 then result else JStr (take 1000 s @ ''...(truncated)''))"
proof -
  have tv: "truncate_value result
            = Inr (if length s < 1000 then result else JStr (take 1000 s @ ''...(truncated)''))"
    using assms(8) by (simp add: truncate_value_def)
  have id: "tc_id call1 = tc_id call"
    using run_beforeToolUse_id [OF assms(1)] by simp
  have t: "tool_try cb tool call st =
             (Inr (resultMessage call1 result),
              if tool_name tool \<noteq> ''return_output''
              then st\<lparr>rs_context := ctx5,
                      rs_toolResults := Map_set (rs_toolResults st) (tc_id call) (resultContentText result),
                      rs_recorded := rs_recorded st @ [(tc_id call, resultContentText result)]\<rparr>
              else st\<lparr>rs_context := ctx5\<rparr>)"
    using assms(2) unfolding tool_try_def
    by (simp add: assms(1) assms(3) assms(4) assms(5) assms(6) assms(7) tv id)
  have rct: "resultContentText result =
            (if result_has_image result
             then (if truthy (prop_of result ''text'')
                   then JStr (to_text (prop_of result ''text'') @ '' [Image]'')
                   else JStr ''[Image]'')
             else JStr s)"
    using assms(8) by (simp add: resultContentText_def stringify_value_def)
  show ?thesis
    unfolding t using tv rct by (simp add: map_of_Map_set)
qed

lemma concat_escape_replicate_a:
  "concat (replicate n (escape_char (CHR ''a''))) = replicate n (CHR ''a'')"
  by (induction n) (simp_all add: escape_char_def)

lemma stringify_replicate_a:
  "JSON_stringify (JStr (replicate n (CHR ''a''))) = Some ([CHR 0x22] @ replicate n (CHR ''a'') @ [CHR 0x22])"
  by (simp add: quote_def concat_escape_replicate_a)


section \<open>The store across a round\<close>

lemma wrap_at_simps [simp]:
  "params_objs (wrapToolInputSchema_at a h) = params_objs h"
  "length (def_objs (wrapToolInputSchema_at a h)) = length (def_objs h)"
  by (simp_all add: wrapToolInputSchema_at_def)

lemma fold_wrap_params [simp]: "params_objs (fold wrapToolInputSchema_at as h) = params_objs h"
  by (induction as arbitrary: h) simp_all

lemma fold_wrap_length [simp]: "length (def_objs (fold wrapToolInputSchema_at as h)) = length (def_objs h)"
  by (induction as arbitrary: h) simp_all

lemma wrap_at_nth:
  "def_objs (wrapToolInputSchema_at b h) ! a =
     (if a = b \<and> b < length (def_objs h) then wrapToolInputSchema (def_objs h ! b) else def_objs h ! a)"
  by (cases "a = b"; cases "b < length (def_objs h)") (simp_all add: wrapToolInputSchema_at_def list_update_beyond)

lemma fold_wrap_other:
  "a \<notin> set as \<Longrightarrow> def_objs (fold wrapToolInputSchema_at as h) ! a = def_objs h ! a"
  by (induction as arbitrary: h) (simp_all add: wrap_at_nth)

lemma fold_wrap_member:
  "distinct as \<Longrightarrow> a \<in> set as \<Longrightarrow> a < length (def_objs h) \<Longrightarrow>
     def_objs (fold wrapToolInputSchema_at as h) ! a = wrapToolInputSchema (def_objs h ! a)"
proof (induction as arbitrary: h)
  case Nil
  then show ?case by simp
next
  case (Cons b as)
  show ?case
  proof (cases "a = b")
    case True
    with Cons.prems have "a \<notin> set as" by simp
    from fold_wrap_other [OF this, of "wrapToolInputSchema_at b h"] True Cons.prems(3) show ?thesis
      by (simp add: wrap_at_nth)
  next
    case False
    with Cons.prems have "a \<in> set as" "distinct as" by simp_all
    from Cons.IH [OF this(2) this(1), of "wrapToolInputSchema_at b h"] Cons.prems(3) False show ?thesis
      by (simp add: wrap_at_nth)
  qed
qed

lemma store_after_round_tools:
  assumes "po_tools (params_objs h ! params) = Some as"
  shows "store_after_round h params =
           fold wrapToolInputSchema_at [length (def_objs h) ..< length (def_objs h) + length as]
             (h\<lparr>params_objs := params_objs h @
                    [\<lparr>po_config = clone_members (po_config (params_objs h ! params)),
                      po_tools = Some [length (def_objs h) ..< length (def_objs h) + length as]\<rparr>],
                 def_objs := def_objs h @ map (\<lambda>a. clone_definition (def_objs h ! a)) as\<rparr>)"
  using assms
  by (simp add: store_after_round_def JSON_copy_params_def Let_def wrap_tools_def)

lemma store_after_round_no_tools:
  assumes "po_tools (params_objs h ! params) = None"
  shows "store_after_round h params =
           h\<lparr>params_objs := params_objs h @
                    [\<lparr>po_config = clone_members (po_config (params_objs h ! params)), po_tools = None\<rparr>]\<rparr>"
  using assms
  by (simp add: store_after_round_def JSON_copy_params_def Let_def wrap_tools_def)

lemma store_after_round_frame:
  "(\<forall>q < length (params_objs h). params_objs (store_after_round h params) ! q = params_objs h ! q)
   \<and> (\<forall>a < length (def_objs h). def_objs (store_after_round h params) ! a = def_objs h ! a)"
proof (cases "po_tools (params_objs h ! params)")
  case None
  then show ?thesis
    by (simp add: store_after_round_no_tools nth_append)
next
  case (Some as)
  show ?thesis
    unfolding store_after_round_tools [OF Some]
    by (auto simp: nth_append fold_wrap_other)
qed

lemma advertised_params_tools:
  assumes "po_tools (params_objs h ! params) = Some as"
  shows "lp_tools (advertised_params h params)
           = Some (map (\<lambda>a. wrapToolInputSchema (clone_definition (def_objs h ! a))) as)"
proof -
  let ?base = "length (def_objs h)"
  let ?h1 = "h\<lparr>params_objs := params_objs h @
                    [\<lparr>po_config = clone_members (po_config (params_objs h ! params)),
                      po_tools = Some [?base ..< ?base + length as]\<rparr>],
                 def_objs := def_objs h @ map (\<lambda>a. clone_definition (def_objs h ! a)) as\<rparr>"
  have eq: "advertised_params h params
          = read_params (fold wrapToolInputSchema_at [?base ..< ?base + length as] ?h1) (length (params_objs h))"
    using assms by (simp add: advertised_params_def JSON_copy_params_def Let_def wrap_tools_def)
  have nth: "def_objs (fold wrapToolInputSchema_at [?base ..< ?base + length as] ?h1) ! a
          = wrapToolInputSchema (clone_definition (def_objs h ! (as ! (a - ?base))))"
    if "a \<in> set [?base ..< ?base + length as]" for a
    using fold_wrap_member [of "[?base ..< ?base + length as]" a ?h1] that
    by (auto simp: nth_append)
  have "map (\<lambda>a. def_objs (fold wrapToolInputSchema_at [?base ..< ?base + length as] ?h1) ! a) [?base ..< ?base + length as]
      = map (\<lambda>a. wrapToolInputSchema (clone_definition (def_objs h ! (as ! (a - ?base))))) [?base ..< ?base + length as]"
    using nth by (intro map_cong refl) blast
  also have "\<dots> = map (\<lambda>a. wrapToolInputSchema (clone_definition (def_objs h ! a))) as"
    by (rule nth_equalityI) (simp_all add: nth_append)
  finally show ?thesis
    unfolding eq by (simp add: read_params_def nth_append)
qed

text \<open>
  C10: after a call of \<open>executeSingleRound\<close> that returns or throws, with \<open>params\<close> an
  allocated parameter object whose tools are allocated definitions: the parameter object
  at \<open>params\<close> and every object that was in the store before the call are unchanged, so
  the caller's \<open>params.tools\<close> hold their input schemas as before; the transport was shown
  the definitions of the copy, each with its schema inside the envelope.
\<close>

theorem round_leaves_params_unchanged:
  assumes "executeSingleRound P cb h params tm st = Some (r, st', h')"
    and "params < length (params_objs h)"
    and "po_tools (params_objs h ! params) = Some as"
    and "list_all (\<lambda>a. a < length (def_objs h)) as"
  shows "params_objs h' ! params = params_objs h ! params
       \<and> read_params h' params = read_params h params
       \<and> (\<forall>q. q < length (params_objs h) \<longrightarrow> params_objs h' ! q = params_objs h ! q)
       \<and> (\<forall>a. a < length (def_objs h) \<longrightarrow> def_objs h' ! a = def_objs h ! a)
       \<and> lp_tools (advertised_params h params)
           = Some (map (\<lambda>a. wrapToolInputSchema (clone_definition (def_objs h ! a))) as)"
proof -
  from assms(1) have h': "h' = store_after_round h params"
    by (auto simp: executeSingleRound_alt)
  note fr = store_after_round_frame [of h params]
  have p: "params_objs h' ! params = params_objs h ! params"
    using fr assms(2) h' by simp
  have d: "map (\<lambda>a. def_objs h' ! a) as = map (\<lambda>a. def_objs h ! a) as"
    using fr assms(4) h' by (intro map_cong refl) (simp add: list_all_iff)
  have "read_params h' params = read_params h params"
    using p d assms(3) by (simp add: read_params_def)
  with p fr h' advertised_params_tools [OF assms(3)] show ?thesis by simp
qed

section \<open>Where the try block throws\<close>

text \<open>
  The three sources of a throw that C3 names: the before hook, the tool's \<open>execute\<close>, and
  the after hook. Each makes \<open>tool_try\<close> throw the same value.
\<close>

lemma before_hook_throws:
  assumes "cb = Some hk" and "beforeToolUse hk = Some f"
    and "f tool ((rs_context st)\<lparr>ctx_skip := False\<rparr>) (tc_input call) = (Inl e, ctx')"
  shows "tool_try cb tool call st = (Inl e, st\<lparr>rs_context := ctx'\<rparr>)"
  using assms by (simp add: tool_try_def run_beforeToolUse_def)

lemma execute_throws:
  assumes "run_beforeToolUse cb tool call ((rs_context st)\<lparr>ctx_skip := False\<rparr>) = (Inr call1, ctx1)"
    and "\<not> (ctx_skip ctx1 \<or> ctx_abort ctx1 \<or> signal_aborted ctx1)"
    and "unwrapToolCall call1 = Inr u"
    and "notify_thinking cb u ctx1 = (None, ctx2)"
    and "notify_userSidePrompt cb u (tc_name call1) ctx2 = (None, ctx3)"
    and "tool_execute tool ctx3 (tc_input (toolCall u)) = (Inl e, ctx4)"
  shows "tool_try cb tool call st = (Inl e, st\<lparr>rs_context := ctx4\<rparr>)"
  using assms(2) unfolding tool_try_def
  by (simp add: assms(1) assms(3) assms(4) assms(5) assms(6))

lemma after_hook_throws:
  assumes "run_beforeToolUse cb tool call ((rs_context st)\<lparr>ctx_skip := False\<rparr>) = (Inr call1, ctx1)"
    and "\<not> (ctx_skip ctx1 \<or> ctx_abort ctx1 \<or> signal_aborted ctx1)"
    and "unwrapToolCall call1 = Inr u"
    and "notify_thinking cb u ctx1 = (None, ctx2)"
    and "notify_userSidePrompt cb u (tc_name call1) ctx2 = (None, ctx3)"
    and "tool_execute tool ctx3 (tc_input (toolCall u)) = (Inr result0, ctx4)"
    and "run_afterToolUse cb tool result0 ctx4 = (Inl e, ctx5)"
  shows "tool_try cb tool call st = (Inl e, st\<lparr>rs_context := ctx5\<rparr>)"
  using assms(2) unfolding tool_try_def
  by (simp add: assms(1) assms(3) assms(4) assms(5) assms(6) assms(7))

section \<open>Closed instances\<close>

text \<open>
  C1 at a run with \<open>maxRounds = 1\<close> whose only regular round calls \<open>echo\<close>: the forced finish
  round follows, and the bound \<open>maxRounds + 1\<close> is reached.
\<close>

theorem round_budget_witness:
  "ls_calls (run_state (execute
       (scripted_action [one_call (tool_call_of ''t1'' ''echo'' (JObj [(''text'', JStr ''A'')])),
                         one_call (tool_call_of ''t2'' ''return_output'' use_tool_result_payload)] 1)
       plain_env JUndefined start_context empty_heap)) = [Regular, FinishOnly]
   \<and> maxRounds (scripted_action [one_call (tool_call_of ''t1'' ''echo'' (JObj [(''text'', JStr ''A'')])),
                         one_call (tool_call_of ''t2'' ''return_output'' use_tool_result_payload)] 1) = 1
   \<and> run_roundCount (execute
       (scripted_action [one_call (tool_call_of ''t1'' ''echo'' (JObj [(''text'', JStr ''A'')])),
                         one_call (tool_call_of ''t2'' ''return_output'' use_tool_result_payload)] 1)
       plain_env JUndefined start_context empty_heap) = 1
   \<and> length (ls_committed (run_state (execute
       (scripted_action [one_call (tool_call_of ''t1'' ''echo'' (JObj [(''text'', JStr ''A'')])),
                         one_call (tool_call_of ''t2'' ''return_output'' use_tool_result_payload)] 1)
       plain_env JUndefined start_context empty_heap))) \<le> 2"
proof -
  let ?A = "scripted_action [one_call (tool_call_of ''t1'' ''echo'' (JObj [(''text'', JStr ''A'')])),
                         one_call (tool_call_of ''t2'' ''return_output'' use_tool_result_payload)] 1"
  let ?R = "execute ?A plain_env JUndefined start_context empty_heap"
  have calls: "ls_calls (run_state ?R) = [Regular, FinishOnly]"
    by code_simp
  have m: "maxRounds ?A = 1"
    by (simp add: scripted_action_def ActionImpl_def)
  from round_budget [of ?A plain_env JUndefined start_context empty_heap] calls m
  show ?thesis by simp
qed

text \<open>
  A run of three rounds with distinct ids: \<open>echo\<close> records the serialisation of \<open>A\<close> under
  \<open>t1\<close> and of \<open>B\<close> under \<open>t2\<close>, then \<open>return_output\<close> is called with
  \<open>use_tool_result = true\<close>: the run returns the text recorded for \<open>B\<close>.
\<close>


lemma distinct_ids_run:
  "run_exit (execute
       (scripted_action [one_call (tool_call_of ''t1'' ''echo'' (JObj [(''text'', JStr ''A'')])),
                         one_call (tool_call_of ''t2'' ''echo'' (JObj [(''text'', JStr ''B'')])),
                         one_call (tool_call_of ''t3'' ''return_output'' use_tool_result_payload)] 5)
       plain_env JUndefined start_context empty_heap)
     = Returned (JStr [CHR 0x22, CHR ''B'', CHR 0x22])
   \<and> rs_toolResults (ls_round (run_state (execute
       (scripted_action [one_call (tool_call_of ''t1'' ''echo'' (JObj [(''text'', JStr ''A'')])),
                         one_call (tool_call_of ''t2'' ''echo'' (JObj [(''text'', JStr ''B'')])),
                         one_call (tool_call_of ''t3'' ''return_output'' use_tool_result_payload)] 5)
       plain_env JUndefined start_context empty_heap)))
     = [(''t1'', JStr [CHR 0x22, CHR ''A'', CHR 0x22]), (''t2'', JStr [CHR 0x22, CHR ''B'', CHR 0x22])]"
proof -
  let ?A = "scripted_action [one_call (tool_call_of ''t1'' ''echo'' (JObj [(''text'', JStr ''A'')])),
                         one_call (tool_call_of ''t2'' ''echo'' (JObj [(''text'', JStr ''B'')])),
                         one_call (tool_call_of ''t3'' ''return_output'' use_tool_result_payload)] 5"
  let ?R = "execute ?A plain_env JUndefined start_context empty_heap"
  have "(let R = ?R in (run_exit R, prop_read (run_payload R) ''use_tool_result'', rs_recorded (ls_round (run_state R))))
      = (Returned (JStr [CHR 0x22, CHR ''B'', CHR 0x22]), Inr (JBool True),
         [(''t1'', JStr [CHR 0x22, CHR ''A'', CHR 0x22]), (''t2'', JStr [CHR 0x22, CHR ''B'', CHR 0x22])])"
    by code_simp
  then have ex: "run_exit ?R = Returned (JStr [CHR 0x22, CHR ''B'', CHR 0x22])"
    and pay: "prop_read (run_payload ?R) ''use_tool_result'' = Inr (JBool True)"
    and rec: "rs_recorded (ls_round (run_state ?R))
      = [(''t1'', JStr [CHR 0x22, CHR ''A'', CHR 0x22]), (''t2'', JStr [CHR 0x22, CHR ''B'', CHR 0x22])]"
    by (simp_all add: Let_def)
  have init: "toolResults ?A = []"
    by (simp add: scripted_action_def ActionImpl_def)
  have dist: "distinct (map fst (toolResults ?A @ rs_recorded (ls_round (run_state ?R))))"
    unfolding rec init by simp
  from distinct_ids_return_last [OF ex pay dist] rec init ex
  show ?thesis by simp
qed

text \<open>
  C3 (as stated, refuted): after a round in which the execution of the tool throws, the run
  would go on to the next round. A run with five rounds allowed, in which the model calls
  \<open>return_output\<close> with \<open>toolCall: null\<close>: \<open>execute\<close> of the finish tool throws on reading
  \<open>isSuccessful\<close>, the round returns the \<open>tool_result\<close> with \<open>is_error\<close>, the response lists
  \<open>return_output\<close>, and the run ends after this one round and returns \<open>{}\<close>.
\<close>

theorem failed_finish_ends_the_run_counterexample:
  "(let R = execute (scripted_action [one_call (tool_call_of ''t1'' ''return_output'' JNull)] 5)
              plain_env JUndefined start_context empty_heap
    in (run_exit R, run_roundCount R, ls_calls (run_state R), drop 2 (run_reacts R)))
   = (Returned (JObj []), 1, [Regular],
      [\<lparr>role = Assistant, content = Blocks [ToolUseBlock ''t1'' ''return_output'' (envelope_input JNull)]\<rparr>,
       \<lparr>role = User, content = Blocks [ToolResultBlock ''t1''
          (ResultBlocks [TextBlock (JStr (''Error: Cannot read properties of null (reading ''
                                          @ [CHR 0x27] @ ''isSuccessful'' @ [CHR 0x27] @ '')''))]) True]\<rparr>])
   \<and> maxRounds (scripted_action [one_call (tool_call_of ''t1'' ''return_output'' JNull)] 5) = 5"
proof -
  have "(let R = execute (scripted_action [one_call (tool_call_of ''t1'' ''return_output'' JNull)] 5)
              plain_env JUndefined start_context empty_heap
    in (run_exit R, run_roundCount R, ls_calls (run_state R), drop 2 (run_reacts R)))
   = (Returned (JObj []), 1, [Regular],
      [\<lparr>role = Assistant, content = Blocks [ToolUseBlock ''t1'' ''return_output'' (envelope_input JNull)]\<rparr>,
       \<lparr>role = User, content = Blocks [ToolResultBlock ''t1''
          (ResultBlocks [TextBlock (JStr (''Error: Cannot read properties of null (reading ''
                                          @ [CHR 0x27] @ ''isSuccessful'' @ [CHR 0x27] @ '')''))]) True]\<rparr>])"
    by code_simp
  moreover have "maxRounds (scripted_action [one_call (tool_call_of ''t1'' ''return_output'' JNull)] 5) = 5"
    by (simp add: scripted_action_def ActionImpl_def)
  ultimately show ?thesis by simp
qed

text \<open>
  C3 (amended) at a loop whose first round calls \<open>write_file\<close>, which throws \<open>disk full\<close>:
  the round returns the \<open>tool_use\<close> message and the \<open>tool_result\<close> with \<open>is_error\<close> and the
  text \<open>Error: disk full\<close>, and the loop calls a second regular round.
\<close>

theorem tool_error_is_recovered_witness:
  "(case executeSingleRound
           (Some (scripted_provider [one_call (tool_call_of ''t1'' ''write_file'' (JObj [(''path'', JStr ''a.txt'')])),
                                     one_call (tool_call_of ''t2'' ''return_output'' use_tool_result_payload)]))
           None demo_heap 0 demo_toolMap (ls_round demo_state) of
      Some (Inr r, rs, h) \<Rightarrow> roundMessages r
    | _ \<Rightarrow> [])
   = [\<lparr>role = Assistant,
       content = Blocks [ToolUseBlock ''t1'' ''write_file'' (envelope_input (JObj [(''path'', JStr ''a.txt'')]))]\<rparr>,
      \<lparr>role = User,
       content = Blocks [ToolResultBlock ''t1'' (ResultBlocks [TextBlock (JStr ''Error: disk full'')]) True]\<rparr>]
   \<and> take 2 (ls_calls (snd (snd (loop
         (scripted_action [one_call (tool_call_of ''t1'' ''write_file'' (JObj [(''path'', JStr ''a.txt'')])),
                           one_call (tool_call_of ''t2'' ''return_output'' use_tool_result_payload)] 5)
         None demo_toolMap demo_returnTool 0 0 demo_state))))
     = [Regular, Regular]"
proof -
  let ?call = "tool_call_of ''t1'' ''write_file'' (JObj [(''path'', JStr ''a.txt'')])"
  let ?script = "[one_call ?call, one_call (tool_call_of ''t2'' ''return_output'' use_tool_result_payload)]"
  let ?A = "scripted_action ?script 5"
  let ?p = "scripted_provider ?script"
  let ?ctx1 = "start_context\<lparr>world := Suc 0\<rparr>"
  let ?st1 = "(ls_round demo_state)\<lparr>rs_messages := handleHistoryImageMessages (rs_messages (ls_round demo_state)),
                                    rs_context := ?ctx1\<rparr>"
  let ?rs = "?st1\<lparr>rs_context := ?ctx1\<lparr>ctx_skip := False\<rparr>\<rparr>"
  have 1: "0 < maxRounds ?A" by (simp add: scripted_action_def ActionImpl_def)
  have 2: "\<not> signal_aborted (rs_context (ls_round demo_state))"
    by (simp add: demo_state_def start_context_def signal_aborted_def)
  have 3: "llmProvider ?A = Some ?p" by (simp add: scripted_action_def ActionImpl_def)
  have 4: "generateStream ?p (rs_context (ls_round demo_state))
             (handleHistoryImageMessages (rs_messages (ls_round demo_state)))
             (advertised_params (ls_heap demo_state) 0)
           = (Streamed [] (Some ?call) (Some \<lparr>textContent = [], toolCalls = [?call]\<rparr>), ?ctx1)"
    by (simp add: scripted_provider_def demo_state_def start_context_def one_call_def)
  have 5: "map_of demo_toolMap (tc_name ?call) = Some disk_tool"
    by (simp add: demo_toolMap_def build_toolMap_def tool_call_of_def disk_tool_def big_tool_def echo_tool_def
          demo_returnTool_def createReturnTool_def)
  have 6: "tool_try None disk_tool ?call ?st1 = (Inl (Error ''disk full''), ?rs)"
    by (simp add: tool_try_def run_beforeToolUse_def signal_aborted_def start_context_def
          tool_call_of_def envelope_input_def unwrapToolCall_def notify_thinking_def
          notify_userSidePrompt_def disk_tool_def)
  have 7: "\<not> ctx_abort (rs_context ?rs)"
    by (simp add: start_context_def)
  have h: "ls_heap demo_state = demo_heap" by (simp add: demo_state_def)
  have nf: "\<not> calls_return_output (Some \<lparr>textContent = [], toolCalls = [?call]\<rparr>)"
    by (simp add: calls_return_output_def tool_call_of_def)
  have more: "Suc 0 < maxRounds ?A" by (simp add: scripted_action_def ActionImpl_def)
  have na: "\<not> signal_aborted (rs_context ?rs)"
    by (simp add: start_context_def signal_aborted_def)
  have c: "ls_calls demo_state = []" by (simp add: demo_state_def)
  note t = tool_error_is_recovered [OF 1 2 3 4 5 6 7 refl refl refl, where returnTool = demo_returnTool]
  note r = conjunct1 [OF t, unfolded 3 h]
  from t nf more na c obtain more where
    "ls_calls (snd (snd (loop ?A None demo_toolMap demo_returnTool 0 0 demo_state))) = [Regular, Regular] @ more"
    by auto
  then have k: "take 2 (ls_calls (snd (snd (loop ?A None demo_toolMap demo_returnTool 0 0 demo_state))))
      = [Regular, Regular]" by simp
  show ?thesis
    unfolding k by (subst r) (simp add: assistantTextMessage_def tool_call_of_def disk_tool_def)
qed

text \<open>
  \<open>Map.set\<close> on an id the cache holds keeps the entry where it stands, so the last
  entry of the cache is then not the last one written.
\<close>

lemma repeated_id_keeps_its_position:
  "Map_set (Map_set (Map_set [] ''t1'' (JStr ''A'')) ''t2'' (JStr ''B'')) ''t1'' (JStr ''C'')
     = [(''t1'', JStr ''C''), (''t2'', JStr ''B'')]
   \<and> last_value (Map_set (Map_set (Map_set [] ''t1'' (JStr ''A'')) ''t2'' (JStr ''B'')) ''t1'' (JStr ''C''))
     = JStr ''B''"
  by (simp add: last_value_def)

text \<open>
  C5 (as stated, refuted): the cache would hold the text cut to about 1000 characters with
  the suffix \<open>...(truncated)\<close>. A tool other than \<open>return_output\<close> that returns a string of
  1000 characters \<open>a\<close>: the serialisation has 1002 characters, the cache holds all of them
  under the invocation id, and the cut text is the value of \<open>truncate\<close> only.
\<close>

theorem cache_is_not_truncated_counterexample:
  "rs_toolResults (snd (tool_try None big_tool (tool_call_of ''t1'' ''read_page'' (JObj [])) (ls_round demo_state)))
     = [(''t1'', JStr ([CHR 0x22] @ replicate 1000 (CHR ''a'') @ [CHR 0x22]))]
   \<and> JSON_stringify (JStr (replicate 1000 (CHR ''a''))) = Some ([CHR 0x22] @ replicate 1000 (CHR ''a'') @ [CHR 0x22])
   \<and> length ([CHR 0x22] @ replicate 1000 (CHR ''a'') @ [CHR 0x22]) = 1002
   \<and> truncate_value (JStr (replicate 1000 (CHR ''a'')))
     = Inr (JStr ([CHR 0x22] @ replicate 999 (CHR ''a'') @ ''...(truncated)''))"
proof -
  have s: "JSON_stringify (JStr (replicate 1000 (CHR ''a''))) = Some ([CHR 0x22] @ replicate 1000 (CHR ''a'') @ [CHR 0x22])"
    by (rule stringify_replicate_a)
  have tk: "take 1000 ([CHR 0x22] @ replicate 1000 (CHR ''a'') @ [CHR 0x22]) = [CHR 0x22] @ replicate 999 (CHR ''a'')"
    by (simp add: take_Cons')
  have tv: "truncate_value (JStr (replicate 1000 (CHR ''a'')))
     = Inr (JStr ([CHR 0x22] @ replicate 999 (CHR ''a'') @ ''...(truncated)''))"
    unfolding truncate_value_def s using tk by simp
  have rc: "resultContentText (JStr (replicate 1000 (CHR ''a''))) = JStr ([CHR 0x22] @ replicate 1000 (CHR ''a'') @ [CHR 0x22])"
    unfolding resultContentText_def stringify_value_def s
    by (simp add: result_has_image_def prop_of_def)
  have "rs_toolResults (snd (tool_try None big_tool (tool_call_of ''t1'' ''read_page'' (JObj [])) (ls_round demo_state)))
     = [(''t1'', resultContentText (JStr (replicate 1000 (CHR ''a''))))]"
    by (simp add: tool_try_def run_beforeToolUse_def run_afterToolUse_def signal_aborted_def start_context_def
          tool_call_of_def envelope_input_def unwrapToolCall_def notify_thinking_def
          notify_userSidePrompt_def big_tool_def demo_state_def tv)
  with s tv rc show ?thesis by simp
qed

text \<open>C5 (amended) at an invocation of \<open>echo\<close> that returns \<open>A\<close>.\<close>

theorem cache_holds_full_text_witness:
  "rs_toolResults (snd (tool_try None echo_tool (tool_call_of ''t1'' ''echo'' (JObj [(''text'', JStr ''A'')]))
       (ls_round demo_state)))
     = [(''t1'', JStr [CHR 0x22, CHR ''A'', CHR 0x22])]
   \<and> truncate_value (JStr ''A'') = Inr (JStr ''A'')"
proof -
  let ?call = "tool_call_of ''t1'' ''echo'' (JObj [(''text'', JStr ''A'')])"
  let ?st = "ls_round demo_state"
  let ?ctx = "(rs_context ?st)\<lparr>ctx_skip := False\<rparr>"
  let ?u = "\<lparr>observation = JStr ''In the previous step, I did nothing.'', thinking = JStr ''next'',
            userSidePrompt = JStr ''Working.'',
            toolCall = \<lparr>tc_id = ''t1'', tc_name = ''echo'', tc_input = JObj [(''text'', JStr ''A'')]\<rparr>\<rparr>"
  have 1: "run_beforeToolUse None echo_tool ?call ?ctx = (Inr ?call, ?ctx)"
    by (simp add: run_beforeToolUse_def)
  have 2: "\<not> (ctx_skip ?ctx \<or> ctx_abort ?ctx \<or> signal_aborted ?ctx)"
    by (simp add: demo_state_def start_context_def signal_aborted_def)
  have 3: "unwrapToolCall ?call = Inr ?u"
    by (simp add: unwrapToolCall_def tool_call_of_def envelope_input_def)
  have 4: "notify_thinking None ?u ?ctx = (None, ?ctx)"
    by (simp add: notify_thinking_def)
  have 5: "notify_userSidePrompt None ?u (tc_name ?call) ?ctx = (None, ?ctx)"
    by (simp add: notify_userSidePrompt_def)
  have 6: "tool_execute echo_tool ?ctx (tc_input (toolCall ?u)) = (Inr (JStr ''A''), ?ctx)"
    by (simp add: echo_tool_def prop_of_def)
  have 7: "run_afterToolUse None echo_tool (JStr ''A'') ?ctx = (Inr (JStr ''A''), ?ctx)"
    by (simp add: run_afterToolUse_def)
  have 8: "JSON_stringify (JStr ''A'') = Some [CHR 0x22, CHR ''A'', CHR 0x22]"
    by (simp add: quote_def escape_char_def)
  have n: "tool_name echo_tool \<noteq> ''return_output''" by (simp add: echo_tool_def)
  have i: "\<not> result_has_image (JStr ''A'')" by (simp add: result_has_image_def prop_of_def)
  from cache_holds_full_text [OF 1 2 3 4 5 6 7 8] n i
  show ?thesis
    by (simp add: demo_state_def tool_call_of_def)
qed

text \<open>A round in which the transport delivers text and no invocation.\<close>

lemma demo_text_round:
  "executeSingleRound (Some (scripted_provider (text_only t # script))) None demo_heap 0 demo_toolMap (ls_round demo_state)
     = Some (Inr \<lparr>response = Some \<lparr>textContent = t, toolCalls = []\<rparr>, hasToolUse = False,
                   roundMessages = (if assistantTextMessage [t] \<noteq> []
                                    then [\<lparr>role = Assistant, content = Text (assistantTextMessage [t])\<rparr>] else [])\<rparr>,
             (ls_round demo_state)\<lparr>rs_messages := handleHistoryImageMessages (rs_messages (ls_round demo_state)),
                                   rs_context := start_context\<lparr>world := Suc 0\<rparr>\<rparr>,
             store_after_round demo_heap 0)"
proof -
  have na: "\<not> signal_aborted (rs_context (ls_round demo_state))"
    by (simp add: demo_state_def start_context_def signal_aborted_def)
  have att: "attempt (Some (scripted_provider (text_only t # script))) None (advertised_params demo_heap 0)
               demo_toolMap (ls_round demo_state)
     = Leave (Inr \<lparr>response = Some \<lparr>textContent = t, toolCalls = []\<rparr>, hasToolUse = False,
                   roundMessages = (if assistantTextMessage [t] \<noteq> []
                                    then [\<lparr>role = Assistant, content = Text (assistantTextMessage [t])\<rparr>] else [])\<rparr>)
             ((ls_round demo_state)\<lparr>rs_messages := handleHistoryImageMessages (rs_messages (ls_round demo_state)),
                                   rs_context := start_context\<lparr>world := Suc 0\<rparr>\<rparr>)"
    by (simp add: attempt_def Let_def scripted_provider_def text_only_def demo_state_def start_context_def
          finish_attempt_def)
  show ?thesis
    by (simp add: executeSingleRound_alt round_loop_Leave [OF na att])
qed

text \<open>
  C8 at a loop whose first round delivers the text \<open>All done.\<close>: one finish-only round
  follows and the loop ends with \<open>roundCount = 1\<close>.
\<close>

theorem text_only_round_forces_finish_witness:
  "fst (snd (loop (scripted_action [text_only ''All done.'',
                                    one_call (tool_call_of ''t2'' ''return_output'' use_tool_result_payload)] 5)
               None demo_toolMap demo_returnTool 0 0 demo_state)) = 1
   \<and> ls_calls (snd (snd (loop (scripted_action [text_only ''All done.'',
                                    one_call (tool_call_of ''t2'' ''return_output'' use_tool_result_payload)] 5)
               None demo_toolMap demo_returnTool 0 0 demo_state))) = [Regular, FinishOnly]"
proof -
  let ?script = "[text_only ''All done.'', one_call (tool_call_of ''t2'' ''return_output'' use_tool_result_payload)]"
  let ?A = "scripted_action ?script 5"
  let ?r = "\<lparr>response = Some \<lparr>textContent = ''All done.'', toolCalls = []\<rparr>, hasToolUse = False,
                   roundMessages = (if assistantTextMessage [''All done.''] \<noteq> []
                                    then [\<lparr>role = Assistant, content = Text (assistantTextMessage [''All done.''])\<rparr>] else [])\<rparr>"
  let ?rs = "(ls_round demo_state)\<lparr>rs_messages := handleHistoryImageMessages (rs_messages (ls_round demo_state)),
                                   rs_context := start_context\<lparr>world := Suc 0\<rparr>\<rparr>"
  have 1: "0 < maxRounds ?A" by (simp add: scripted_action_def ActionImpl_def)
  have 2: "\<not> signal_aborted (rs_context (ls_round demo_state))"
    by (simp add: demo_state_def start_context_def signal_aborted_def)
  have p: "llmProvider ?A = Some (scripted_provider ?script)" by (simp add: scripted_action_def ActionImpl_def)
  have h: "ls_heap demo_state = demo_heap" by (simp add: demo_state_def)
  have 3: "executeSingleRound (llmProvider ?A) None (ls_heap demo_state) 0 demo_toolMap (ls_round demo_state)
             = Some (Inr ?r, ?rs, store_after_round demo_heap 0)"
    unfolding p h by (rule demo_text_round)
  have 4: "\<not> hasToolUse ?r" by simp
  have 5: "response ?r = Some \<lparr>textContent = ''All done.'', toolCalls = []\<rparr>" by simp
  obtain h1 only where 6: "returnOnlyParams (store_after_round demo_heap 0) 0 demo_returnTool = (h1, only)"
    by (cases "returnOnlyParams (store_after_round demo_heap 0) 0 demo_returnTool")
  have c: "ls_calls demo_state = []" by (simp add: demo_state_def)
  note t = text_only_round_forces_finish [OF 1 2 3 4 5 6 refl refl refl]
  note a = t [THEN conjunct2, THEN conjunct2, THEN conjunct2, THEN conjunct1]
  note b = t [THEN conjunct2, THEN conjunct2, THEN conjunct2, THEN conjunct2, THEN conjunct1]
  show ?thesis
    unfolding a b c by simp
qed

text \<open>
  C10 at a round on the parameters of the demo action: after the round the caller's
  parameters read as before, with the plain schemas, while the transport was shown the
  schemas inside the envelope.
\<close>

theorem round_leaves_params_unchanged_witness:
  "(case executeSingleRound (Some (scripted_provider [text_only ''hi''])) None demo_heap 0 demo_toolMap
          (ls_round demo_state) of
      None \<Rightarrow> False
    | Some (r, st', h') \<Rightarrow> read_params h' 0 = read_params demo_heap 0)
   \<and> map td_input_schema (the (lp_tools (read_params demo_heap 0)))
        = [JObj [], JObj [], JObj [], return_input_schema JUndefined]
   \<and> map td_input_schema (the (lp_tools (advertised_params demo_heap 0)))
        = [envelope_schema (JObj []), envelope_schema (JObj []), envelope_schema (JObj []),
           envelope_schema (JSON_clone (return_input_schema JUndefined))]"
proof -
  have dh: "demo_heap = \<lparr>params_objs = [\<lparr>po_config = [], po_tools = Some [0, 1, 2, 3]\<rparr>],
                          def_objs = [definition_of disk_tool, definition_of big_tool, definition_of echo_tool,
                                      definition_of demo_returnTool]\<rparr>"
    by (simp add: demo_heap_def new_params_def empty_heap_def demo_toolMap_def build_toolMap_def
          disk_tool_def big_tool_def echo_tool_def demo_returnTool_def createReturnTool_def upt_rec)
  have 2: "0 < length (params_objs demo_heap)" by (simp add: dh)
  have 3: "po_tools (params_objs demo_heap ! 0) = Some [0, 1, 2, 3]" by (simp add: dh)
  have 4: "list_all (\<lambda>a. a < length (def_objs demo_heap)) [0, 1, 2, 3]" by (simp add: dh)
  note t = round_leaves_params_unchanged [OF demo_text_round [of "''hi''" "[]"] 2 3 4]
  from t have a: "read_params (store_after_round demo_heap 0) 0 = read_params demo_heap 0"
    by simp
  have b: "map td_input_schema (the (lp_tools (read_params demo_heap 0)))
        = [JObj [], JObj [], JObj [], return_input_schema JUndefined]"
    by (simp add: dh read_params_def definition_of_def disk_tool_def big_tool_def echo_tool_def
          demo_returnTool_def createReturnTool_def)
  from t have "lp_tools (advertised_params demo_heap 0)
      = Some (map (\<lambda>a. wrapToolInputSchema (clone_definition (def_objs demo_heap ! a))) [0, 1, 2, 3])"
    by simp
  then have c: "map td_input_schema (the (lp_tools (advertised_params demo_heap 0)))
        = [envelope_schema (JObj []), envelope_schema (JObj []), envelope_schema (JObj []),
           envelope_schema (JSON_clone (return_input_schema JUndefined))]"
    by (simp add: dh definition_of_def disk_tool_def big_tool_def echo_tool_def demo_returnTool_def
          createReturnTool_def wrapToolInputSchema_def clone_definition_def)
  show ?thesis
    unfolding demo_text_round [of "''hi''" "[]"] using a b c by simp
qed

end
